theory Spec2Isabelle
  imports Complex_Main "HOL-Library.Word"
begin

unbundle bit_operations_syntax

section \<open>Machine integers and bit fields\<close>

text \<open>
  The primitive shader works on 32-bit integers (\<open>i32\<close>) and on 64-bit lane masks
  (\<open>i64\<close>). Addition, subtraction and shifts wrap as the LLVM instructions do.
\<close>

type_synonym i32 = "32 word"
type_synonym i64 = "64 word"

text \<open>
  \<open>NggPrimShader::createUBfe\<close>: extracts the bit field \<open>[offset, offset + count - 1]\<close>.
  The source asserts \<open>offset \<le> 31\<close>, \<open>count \<ge> 1\<close> and \<open>offset + count - 1 \<le> 31\<close>; every call
  passes constants that satisfy it. \<open>(1U << count) - 1\<close> is \<open>mask count\<close>.
\<close>

definition createUBfe :: "i32 \<Rightarrow> nat \<Rightarrow> nat \<Rightarrow> i32" where
  "createUBfe val offset count =
     (if count = 32 then val
      else if offset = 0 then val AND mask count
      else drop_bit offset val AND mask count)"

section \<open>Export instructions\<close>

text \<open>
  The hardware export instruction \<open>amdgcn_exp\<close>, with the operands the generator sets:
  target, enable mask, first source dword (\<open>None\<close> when the source is undefined) and the
  \<open>done\<close> flag. The numeric values of the target enumerators live in a header outside the
  sources, so targets are kept symbolic: \<open>EXP_TARGET_POS i\<close> is \<open>EXP_TARGET_POS_0 + i\<close>.
\<close>

datatype exp_target = EXP_TARGET_PRIM | EXP_TARGET_POS nat

record exp_instr =
  exp_tgt :: exp_target
  exp_en :: nat
  exp_src0 :: "i32 option"
  exp_done :: bool

text \<open>
  Modelled from the spec: the constant \<open>NullPrim\<close> is declared in NggPrimShader.h, which is
  not among the sources. The spec (section 6) and the layout comment in
  \<open>exportPrimitive\<close> place the null-primitive flag in bit 31 of the connectivity word.
\<close>

definition NullPrim :: i32 where
  "NullPrim = push_bit 31 1"

text \<open>
  \<open>NggPrimShader::exportPrimitive\<close> (culling mode, no API GS). \<open>compactVertexRt\<close> is the
  run-time value of \<open>m_compactVertex\<close> (false when the member is null);
  \<open>ldsCompactedVertexIndex\<close> is the \<open>compactedVertexIndex\<close> field of the vertex cull info
  in LDS, keyed by relative vertex index. The function first selects the vertex indices
  (the phi nodes of \<open>.endCompactVertexIndex\<close>), then packs them.
\<close>

definition exportVertexIndices ::
  "bool \<Rightarrow> (nat \<Rightarrow> i32) \<Rightarrow> i32 \<Rightarrow> i32 \<Rightarrow> i32 \<Rightarrow> i32 \<times> i32 \<times> i32" where
  "exportVertexIndices compactVertexRt ldsCompactedVertexIndex vertexIndex0 vertexIndex1 vertexIndex2 =
     (if compactVertexRt
      then (ldsCompactedVertexIndex (unat vertexIndex0),
            ldsCompactedVertexIndex (unat vertexIndex1),
            ldsCompactedVertexIndex (unat vertexIndex2))
      else (vertexIndex0, vertexIndex1, vertexIndex2))"

definition primConnectivityData :: "i32 \<Rightarrow> i32 \<Rightarrow> i32 \<Rightarrow> bool \<Rightarrow> i32" where
  "primConnectivityData vertexIndex0 vertexIndex1 vertexIndex2 primitiveCulled =
     (let primData = push_bit 10 vertexIndex2;
          primData = primData OR vertexIndex1;
          primData = push_bit 10 primData;
          primData = primData OR vertexIndex0
      in if primitiveCulled then NullPrim else primData)"

definition exportPrimitive ::
  "bool \<Rightarrow> (nat \<Rightarrow> i32) \<Rightarrow> i32 \<Rightarrow> i32 \<Rightarrow> i32 \<Rightarrow> bool \<Rightarrow> exp_instr" where
  "exportPrimitive compactVertexRt ldsCompactedVertexIndex vertexIndex0 vertexIndex1 vertexIndex2
       primitiveCulled =
     (case exportVertexIndices compactVertexRt ldsCompactedVertexIndex
             vertexIndex0 vertexIndex1 vertexIndex2 of
        (v0, v1, v2) \<Rightarrow>
          \<lparr> exp_tgt = EXP_TARGET_PRIM, exp_en = 1,
            exp_src0 = Some (primConnectivityData v0 v1 v2 primitiveCulled),
            exp_done = True \<rparr>)"

section \<open>Floating-point instructions\<close>

text \<open>
  The cullers compute on IEEE single-precision values (and, in the sphere culler, on packed
  half-precision values). The arithmetic itself is the hardware's; the model takes it as a
  parameter: a record \<open>fp\<close> interprets each LLVM floating-point instruction on an arbitrary
  carrier \<open>'f\<close> (single) and \<open>'h\<close> (half). Every statement below therefore holds for
  whatever rounding, NaN and infinity behaviour the target implements.
\<close>

datatype fbinop = FAdd | FSub | FMul | FDiv | MinNum | MaxNum
datatype funop = FNeg | FAbs | RInt
datatype fcmpop = OLT | OGT | OGE | OEQ

record ('f, 'h) fpu =
  fconst :: "rat \<Rightarrow> 'f"
  hconst :: "rat \<Rightarrow> 'h"
  bitcast_i2f :: "i32 \<Rightarrow> 'f"
  bitcast_f2i :: "'f \<Rightarrow> i32"
  fbin :: "fbinop \<Rightarrow> 'f \<Rightarrow> 'f \<Rightarrow> 'f"
  fun1 :: "funop \<Rightarrow> 'f \<Rightarrow> 'f"
  fcmp :: "fcmpop \<Rightarrow> 'f \<Rightarrow> 'f \<Rightarrow> bool"
  fma3 :: "'f \<Rightarrow> 'f \<Rightarrow> 'f \<Rightarrow> 'f"
  fmed3 :: "'f \<Rightarrow> 'f \<Rightarrow> 'f \<Rightarrow> 'f"
  fpowi :: "'f \<Rightarrow> i32 \<Rightarrow> 'f"
  cvt_pkrtz :: "'f \<Rightarrow> 'f \<Rightarrow> 'h \<times> 'h"
  hbin :: "fbinop \<Rightarrow> 'h \<Rightarrow> 'h \<Rightarrow> 'h"
  hun1 :: "funop \<Rightarrow> 'h \<Rightarrow> 'h"
  hcmp :: "fcmpop \<Rightarrow> 'h \<Rightarrow> 'h \<Rightarrow> bool"
  hfma3 :: "'h \<Rightarrow> 'h \<Rightarrow> 'h \<Rightarrow> 'h"

text \<open>A vertex position is \<open><4 x float>\<close>: homogeneous x, y, z, w.\<close>

type_synonym 'f vec4 = "'f \<times> 'f \<times> 'f \<times> 'f"

definition elemX :: "'f vec4 \<Rightarrow> 'f" where "elemX v = (case v of (x, y, z, w) \<Rightarrow> x)"
definition elemY :: "'f vec4 \<Rightarrow> 'f" where "elemY v = (case v of (x, y, z, w) \<Rightarrow> y)"
definition elemZ :: "'f vec4 \<Rightarrow> 'f" where "elemZ v = (case v of (x, y, z, w) \<Rightarrow> z)"
definition elemW :: "'f vec4 \<Rightarrow> 'f" where "elemW v = (case v of (x, y, z, w) \<Rightarrow> w)"

text \<open>Component-wise instructions on \<open><2 x half>\<close>.\<close>

definition hbin2 :: "('f, 'h) fpu \<Rightarrow> fbinop \<Rightarrow> 'h \<times> 'h \<Rightarrow> 'h \<times> 'h \<Rightarrow> 'h \<times> 'h" where
  "hbin2 fp opc a b = (hbin fp opc (fst a) (fst b), hbin fp opc (snd a) (snd b))"

definition hfma2 :: "('f, 'h) fpu \<Rightarrow> 'h \<times> 'h \<Rightarrow> 'h \<times> 'h \<Rightarrow> 'h \<times> 'h \<Rightarrow> 'h \<times> 'h" where
  "hfma2 fp a b c = (hfma3 fp (fst a) (fst b) (fst c), hfma3 fp (snd a) (snd b) (snd c))"

section \<open>The culling algorithms\<close>

text \<open>
  Each \<open>create...Culler\<close> builds a function of three blocks: the entry block branches on
  the incoming \<open>cullFlag\<close> to the exit block, the cull block computes a new flag, and the
  exit block returns the phi of the two. For every culler the computation of the cull
  block is a definition of its own (\<open>...Cull\<close>) and the whole function is \<open>...Culler\<close>.
\<close>

subsection \<open>Backface culler\<close>

text \<open>
  \<open>createBackfaceCuller\<close>, blocks \<open>.backfaceCull\<close> and \<open>.backfaceExponent\<close>: the flag that
  reaches the phi of \<open>.backfaceExit\<close> when the incoming flag is false.
\<close>

definition backfaceCull ::
  "('f, 'h) fpu \<Rightarrow> 'f vec4 \<Rightarrow> 'f vec4 \<Rightarrow> 'f vec4 \<Rightarrow> i32 \<Rightarrow> i32 \<Rightarrow> i32 \<Rightarrow> i32 \<Rightarrow> bool" where
  "backfaceCull fp vertex0 vertex1 vertex2 backfaceExponent paSuScModeCntl
       paClVportXscale paClVportYscale =
     (let x0 = elemX vertex0; y0 = elemY vertex0; w0 = elemW vertex0;
          x1 = elemX vertex1; y1 = elemY vertex1; w1 = elemW vertex1;
          x2 = elemX vertex2; y2 = elemY vertex2; w2 = elemW vertex2;
          y1W2 = fbin fp FMul y1 w2;
          y2W1 = fbin fp FMul y2 w1;
          det0 = fbin fp FSub y1W2 y2W1;
          det0 = fbin fp FMul x0 det0;
          y0W2 = fbin fp FMul y0 w2;
          y2W0 = fbin fp FMul y2 w0;
          det1 = fbin fp FSub y0W2 y2W0;
          det1 = fbin fp FMul x1 det1;
          y0W1 = fbin fp FMul y0 w1;
          y1W0 = fbin fp FMul y1 w0;
          det2 = fbin fp FSub y0W1 y1W0;
          det2 = fbin fp FMul x2 det2;
          area = fbin fp FSub det0 det1;
          area = fbin fp FAdd area det2;
          areaLtZero = fcmp fp OLT area (fconst fp 0);
          areaGtZero = fcmp fp OGT area (fconst fp 0);
          frontFace = paClVportXscale XOR paClVportYscale;
          frontFace = createUBfe frontFace 31 1;
          face = createUBfe paSuScModeCntl 2 1;
          frontFace = face XOR frontFace;
          frontFace = (frontFace = 0);
          frontFace = (if frontFace then areaLtZero else areaGtZero);
          backFace = (\<not> frontFace);
          cullFront = bit (paSuScModeCntl AND 1) 0;
          cullBack = bit (createUBfe paSuScModeCntl 1 1) 0;
          cullFront = (if cullFront then frontFace else False);
          cullBack = (if cullBack then backFace else False);
          cullFlag1 = (cullFront \<or> cullBack);
          nonZeroBackfaceExp = (backfaceExponent \<noteq> 0)
      in if nonZeroBackfaceExp
         then (let absW0W1W2 = fbin fp FMul w0 w1;
                   absW0W1W2 = fbin fp FMul absW0W1W2 w2;
                   absW0W1W2 = fun1 fp FAbs absW0W1W2;
                   threshold = - backfaceExponent;
                   threshold = fpowi fp (fconst fp 10) threshold;
                   rcpAbsW0W1W2 = fbin fp FDiv (fconst fp 1) absW0W1W2;
                   threshold = fbin fp FMul threshold rcpAbsW0W1W2;
                   absArea = fun1 fp FAbs area;
                   cullFlag2 = fcmp fp OGE absArea threshold;
                   cullFlag2 = (cullFlag1 \<and> cullFlag2)
               in cullFlag2)
         else cullFlag1)"

text \<open>
  The whole backface culler. The exit block does more than return the phi: when
  \<open>POLY_MODE\<close> (\<open>PA_SU_SC_MODE_CNTL[4:3]\<close>) is 1 (wireframe) it selects \<open>false\<close>, on every path
  into the block.
\<close>

definition backfaceCuller ::
  "('f, 'h) fpu \<Rightarrow> bool \<Rightarrow> 'f vec4 \<Rightarrow> 'f vec4 \<Rightarrow> 'f vec4 \<Rightarrow> i32 \<Rightarrow> i32 \<Rightarrow> i32 \<Rightarrow> i32 \<Rightarrow> bool" where
  "backfaceCuller fp cullFlag vertex0 vertex1 vertex2 backfaceExponent paSuScModeCntl
       paClVportXscale paClVportYscale =
     (let cullFlagPhi =
            (if cullFlag then cullFlag
             else backfaceCull fp vertex0 vertex1 vertex2 backfaceExponent paSuScModeCntl
                    paClVportXscale paClVportYscale);
          polyMode = createUBfe paSuScModeCntl 3 2;
          wireFrameMode = (polyMode = 1)
      in if wireFrameMode then False else cullFlagPhi)"

subsection \<open>Frustum culler\<close>

text \<open>
  The six comparisons of one vertex in \<open>.frustumCull\<close>, each selecting its mask bit, and
  the OR of the six (\<open>clipMask0\<close>, \<open>clipMask1\<close>, \<open>clipMask2\<close> in the source, which repeats
  the same instructions for each vertex).
\<close>

definition frustumZNear :: "('f, 'h) fpu \<Rightarrow> i32 \<Rightarrow> 'f" where
  "frustumZNear fp paClClipCntl =
     (let clipSpaceDef = bit (createUBfe paClClipCntl 19 1) 0
      in if clipSpaceDef then fconst fp (-1) else fconst fp 0)"

definition frustumClipMask :: "('f, 'h) fpu \<Rightarrow> 'f \<Rightarrow> 'f \<Rightarrow> 'f \<Rightarrow> 'f vec4 \<Rightarrow> i32" where
  "frustumClipMask fp zNear xDiscAdj yDiscAdj vertex =
     (let x = elemX vertex; y = elemY vertex; z = elemZ vertex; w = elemW vertex;
          negXDiscAdj = fun1 fp FNeg xDiscAdj;
          negYDiscAdj = fun1 fp FNeg yDiscAdj;
          clipMask0 = (if fcmp fp OLT x (fbin fp FMul negXDiscAdj w) then 0x1 else 0);
          clipMask1 = (if fcmp fp OGT x (fbin fp FMul xDiscAdj w) then 0x2 else 0);
          clipMask2 = (if fcmp fp OLT y (fbin fp FMul negYDiscAdj w) then 0x4 else 0);
          clipMask3 = (if fcmp fp OGT y (fbin fp FMul yDiscAdj w) then 0x8 else 0);
          clipMask4 = (if fcmp fp OLT z (fbin fp FMul zNear w) then 0x10 else 0);
          clipMask5 = (if fcmp fp OGT z w then 0x20 else 0);
          clipMaskX = clipMask0 OR clipMask1;
          clipMaskY = clipMask2 OR clipMask3;
          clipMaskZ = clipMask4 OR clipMask5;
          clipMask = clipMaskX OR clipMaskY
      in clipMask OR clipMaskZ)"

definition frustumCull ::
  "('f, 'h) fpu \<Rightarrow> 'f vec4 \<Rightarrow> 'f vec4 \<Rightarrow> 'f vec4 \<Rightarrow> i32 \<Rightarrow> i32 \<Rightarrow> i32 \<Rightarrow> bool" where
  "frustumCull fp vertex0 vertex1 vertex2 paClClipCntl paClGbHorzDiscAdj paClGbVertDiscAdj =
     (let zNear = frustumZNear fp paClClipCntl;
          xDiscAdj = bitcast_i2f fp paClGbHorzDiscAdj;
          yDiscAdj = bitcast_i2f fp paClGbVertDiscAdj;
          clipMask0 = frustumClipMask fp zNear xDiscAdj yDiscAdj vertex0;
          clipMask1 = frustumClipMask fp zNear xDiscAdj yDiscAdj vertex1;
          clipMask2 = frustumClipMask fp zNear xDiscAdj yDiscAdj vertex2;
          clip = clipMask0 AND clipMask1;
          clip = clip AND clipMask2
      in clip \<noteq> 0)"

definition frustumCuller ::
  "('f, 'h) fpu \<Rightarrow> bool \<Rightarrow> 'f vec4 \<Rightarrow> 'f vec4 \<Rightarrow> 'f vec4 \<Rightarrow> i32 \<Rightarrow> i32 \<Rightarrow> i32 \<Rightarrow> bool" where
  "frustumCuller fp cullFlag vertex0 vertex1 vertex2 paClClipCntl paClGbHorzDiscAdj
       paClGbVertDiscAdj =
     (if cullFlag then cullFlag
      else frustumCull fp vertex0 vertex1 vertex2 paClClipCntl paClGbHorzDiscAdj
             paClGbVertDiscAdj)"

subsection \<open>Box filter culler\<close>

text \<open>
  The conversion to normalized device coordinates shared by the box filter and the sphere
  culler: \<open>VTX_XY_FMT\<close> and \<open>VTX_Z_FMT\<close> (\<open>PA_CL_VTE_CNTL[8]\<close>, \<open>[9]\<close>) select 1.0 instead of
  1/w. The result is the triple x', y', z' of one vertex.
\<close>

definition toNdc :: "('f, 'h) fpu \<Rightarrow> bool \<Rightarrow> bool \<Rightarrow> 'f vec4 \<Rightarrow> 'f \<times> 'f \<times> 'f" where
  "toNdc fp vtxXyFmt vtxZFmt vertex =
     (let x = elemX vertex; y = elemY vertex; z = elemZ vertex; w = elemW vertex;
          rcpW = fbin fp FDiv (fconst fp 1) w;
          rcpWForXy = (if vtxXyFmt then fconst fp 1 else rcpW);
          rcpWForZ = (if vtxZFmt then fconst fp 1 else rcpW)
      in (fbin fp FMul x rcpWForXy, fbin fp FMul y rcpWForXy, fbin fp FMul z rcpWForZ))"

definition boxFilterCull ::
  "('f, 'h) fpu \<Rightarrow> 'f vec4 \<Rightarrow> 'f vec4 \<Rightarrow> 'f vec4 \<Rightarrow> i32 \<Rightarrow> i32 \<Rightarrow> i32 \<Rightarrow> i32 \<Rightarrow> bool" where
  "boxFilterCull fp vertex0 vertex1 vertex2 paClVteCntl paClClipCntl paClGbHorzDiscAdj
       paClGbVertDiscAdj =
     (let vtxXyFmt = bit (createUBfe paClVteCntl 8 1) 0;
          vtxZFmt = bit (createUBfe paClVteCntl 9 1) 0;
          clipSpaceDef = bit (createUBfe paClClipCntl 19 1) 0;
          zNear = (if clipSpaceDef then fconst fp (-1) else fconst fp 0);
          zFar = fconst fp 1;
          xDiscAdj = bitcast_i2f fp paClGbHorzDiscAdj;
          yDiscAdj = bitcast_i2f fp paClGbVertDiscAdj
      in case toNdc fp vtxXyFmt vtxZFmt vertex0 of (x0, y0, z0) \<Rightarrow>
         case toNdc fp vtxXyFmt vtxZFmt vertex1 of (x1, y1, z1) \<Rightarrow>
         case toNdc fp vtxXyFmt vtxZFmt vertex2 of (x2, y2, z2) \<Rightarrow>
         (let negXDiscAdj = fun1 fp FNeg xDiscAdj;
              negYDiscAdj = fun1 fp FNeg yDiscAdj;
              minX = fbin fp MinNum x0 x1;
              minX = fbin fp MinNum minX x2;
              minXGtXDiscAdj = fcmp fp OGT minX xDiscAdj;
              maxX = fbin fp MaxNum x0 x1;
              maxX = fbin fp MaxNum maxX x2;
              maxXLtNegXDiscAdj = fcmp fp OLT maxX negXDiscAdj;
              minY = fbin fp MinNum y0 y1;
              minY = fbin fp MinNum minY y2;
              minYGtYDiscAdj = fcmp fp OGT minY yDiscAdj;
              maxY = fbin fp MaxNum y0 y1;
              maxY = fbin fp MaxNum maxY y2;
              maxYLtNegYDiscAdj = fcmp fp OLT maxY negYDiscAdj;
              minZ = fbin fp MinNum z0 z1;
              minZ = fbin fp MinNum minZ z2;
              minZGtZFar = fcmp fp OGT minZ zFar;
              maxZ = fbin fp MaxNum z0 z1;
              maxZ = fbin fp MaxNum maxZ z2;
              maxZLtZNear = fcmp fp OLT maxZ zNear;
              cullX = (minXGtXDiscAdj \<or> maxXLtNegXDiscAdj);
              cullY = (minYGtYDiscAdj \<or> maxYLtNegYDiscAdj);
              cullZ = (minZGtZFar \<or> maxZLtZNear);
              newCullFlag = (cullX \<or> cullY)
          in newCullFlag \<or> cullZ))"

definition boxFilterCuller ::
  "('f, 'h) fpu \<Rightarrow> bool \<Rightarrow> 'f vec4 \<Rightarrow> 'f vec4 \<Rightarrow> 'f vec4 \<Rightarrow> i32 \<Rightarrow> i32 \<Rightarrow> i32 \<Rightarrow> i32 \<Rightarrow> bool" where
  "boxFilterCuller fp cullFlag vertex0 vertex1 vertex2 paClVteCntl paClClipCntl
       paClGbHorzDiscAdj paClGbVertDiscAdj =
     (if cullFlag then cullFlag
      else boxFilterCull fp vertex0 vertex1 vertex2 paClVteCntl paClClipCntl
             paClGbHorzDiscAdj paClGbVertDiscAdj)"

subsection \<open>Sphere culler\<close>

definition sphereCull ::
  "('f, 'h) fpu \<Rightarrow> 'f vec4 \<Rightarrow> 'f vec4 \<Rightarrow> 'f vec4 \<Rightarrow> i32 \<Rightarrow> i32 \<Rightarrow> i32 \<Rightarrow> i32 \<Rightarrow> bool" where
  "sphereCull fp vertex0 vertex1 vertex2 paClVteCntl paClClipCntl paClGbHorzDiscAdj
       paClGbVertDiscAdj =
     (let vtxXyFmt = bit (createUBfe paClVteCntl 8 1) 0;
          vtxZFmt = bit (createUBfe paClVteCntl 9 1) 0;
          clipSpaceDef = bit (createUBfe paClClipCntl 19 1) 0;
          zNear = (if clipSpaceDef then fconst fp (-1) else fconst fp 0);
          xDiscAdj = bitcast_i2f fp paClGbHorzDiscAdj;
          yDiscAdj = bitcast_i2f fp paClGbVertDiscAdj
      in case toNdc fp vtxXyFmt vtxZFmt vertex0 of (x0, y0, z0) \<Rightarrow>
         case toNdc fp vtxXyFmt vtxZFmt vertex1 of (x1, y1, z1) \<Rightarrow>
         case toNdc fp vtxXyFmt vtxZFmt vertex2 of (x2, y2, z2) \<Rightarrow>
         (let rcpXDiscAdj = fbin fp FDiv (fconst fp 1) xDiscAdj;
              rcpYDiscAdj = fbin fp FDiv (fconst fp 1) yDiscAdj;
              rcpXyDiscAdj = cvt_pkrtz fp rcpXDiscAdj rcpYDiscAdj;
              x0Y0 = cvt_pkrtz fp x0 y0;
              x1Y1 = cvt_pkrtz fp x1 y1;
              x2Y2 = cvt_pkrtz fp x2 y2;
              x0Y0 = hbin2 fp FMul x0Y0 rcpXyDiscAdj;
              x1Y1 = hbin2 fp FMul x1Y1 rcpXyDiscAdj;
              x2Y2 = hbin2 fp FMul x2Y2 rcpXyDiscAdj;
              zNearPlusTwo = fbin fp FAdd zNear (fconst fp 2);
              zNearPlusTwo = cvt_pkrtz fp zNearPlusTwo zNearPlusTwo;
              negOneMinusZNear = fbin fp FSub (fconst fp (-1)) zNear;
              negOneMinusZNear = cvt_pkrtz fp negOneMinusZNear negOneMinusZNear;
              z0Z0 = cvt_pkrtz fp z0 z0;
              z2Z1 = cvt_pkrtz fp z2 z1;
              z0Z0 = hfma2 fp zNearPlusTwo z0Z0 negOneMinusZNear;
              z2Z1 = hfma2 fp zNearPlusTwo z2Z1 negOneMinusZNear;
              x20Y20 = hbin2 fp FSub x2Y2 x0Y0;
              x10Y10 = hbin2 fp FSub x1Y1 x0Y0;
              z20Z10 = hbin2 fp FSub z2Z1 z0Z0;
              x10 = fst x10Y10;
              z10 = snd z20Z10;
              a00 = hbin fp FAdd x10 z10;
              x20 = fst x20Y20;
              z20 = fst z20Z10;
              a01 = hbin fp FAdd x20 z20;
              y10 = snd x10Y10;
              a10 = hbin fp FAdd y10 y10;
              y20 = snd x20Y20;
              a11 = hbin fp FAdd y20 z20;
              x0 = fst x0Y0;
              negX0 = hun1 fp FNeg x0;
              x2 = fst x2Y2;
              b0 = hbin fp FSub negX0 x2;
              x1 = fst x1Y1;
              negX1 = hun1 fp FNeg x1;
              b1 = hbin fp FSub negX1 x2;
              detA = hbin fp FMul a00 a11;
              negA01 = hun1 fp FNeg a01;
              detA = hfma3 fp negA01 a10 detA;
              detAB0 = hbin fp FMul b0 a11;
              detAB0 = hfma3 fp negA01 b1 detAB0;
              detAB1 = hbin fp FMul a00 b1;
              negB0 = hun1 fp FNeg b0;
              detAB1 = hfma3 fp negB0 a10 detAB1;
              rcpDetA = hbin fp FDiv (hconst fp 1) detA;
              s = hbin fp FMul detAB0 rcpDetA;
              t = hbin fp FMul detAB1 rcpDetA;
              st = (s, t);
              tMinusS = hbin fp FSub t s;
              sT1 = (tMinusS, tMinusS);
              sT1 = hfma2 fp (hconst fp (- (1 / 2)), hconst fp (1 / 2)) sT1
                      (hconst fp (1 / 2), hconst fp (1 / 2));
              sT2 = hbin2 fp MaxNum st (hconst fp 0, hconst fp 0);
              sT2 = hbin2 fp MinNum sT2 (hconst fp 1, hconst fp 1);
              sPlusT = hbin fp FAdd s t;
              sPlusTGtOne = hcmp fp OGT sPlusT (hconst fp 1);
              st = (if sPlusTGtOne then sT1 else sT2);
              s = fst st;
              t = snd st;
              ss = (fst st, s);
              tt = (t, snd st);
              xy = hfma2 fp ss x10Y10 x0Y0;
              xy = hfma2 fp tt x20Y20 xy;
              z0 = fst z0Z0;
              z = hfma3 fp s z10 z0;
              z = hfma3 fp t z20 z;
              x = fst xy;
              y = snd xy;
              squareR = hbin fp FMul x x;
              squareR = hfma3 fp y y squareR;
              squareR = hfma3 fp z z squareR
          in hcmp fp OGT squareR (hconst fp 3)))"

definition sphereCuller ::
  "('f, 'h) fpu \<Rightarrow> bool \<Rightarrow> 'f vec4 \<Rightarrow> 'f vec4 \<Rightarrow> 'f vec4 \<Rightarrow> i32 \<Rightarrow> i32 \<Rightarrow> i32 \<Rightarrow> i32 \<Rightarrow> bool" where
  "sphereCuller fp cullFlag vertex0 vertex1 vertex2 paClVteCntl paClClipCntl
       paClGbHorzDiscAdj paClGbVertDiscAdj =
     (if cullFlag then cullFlag
      else sphereCull fp vertex0 vertex1 vertex2 paClVteCntl paClClipCntl
             paClGbHorzDiscAdj paClGbVertDiscAdj)"

subsection \<open>Small primitive filter culler\<close>

text \<open>
  \<open>enableFrustumCulling\<close> is the compile-time \<open>m_nggControl->enableFrustumCulling\<close>: without
  frustum culling the generator clamps the screen-space extent to the viewport with
  \<open>amdgcn_fmed3\<close>.
\<close>

definition smallPrimFilterCull ::
  "('f, 'h) fpu \<Rightarrow> bool \<Rightarrow> 'f vec4 \<Rightarrow> 'f vec4 \<Rightarrow> 'f vec4 \<Rightarrow> i32 \<Rightarrow> i32 \<Rightarrow> i32 \<Rightarrow> i32 \<Rightarrow> i32 \<Rightarrow> bool" where
  "smallPrimFilterCull fp enableFrustumCulling vertex0 vertex1 vertex2 paClVteCntl
       paClVportXscale paClVportXoffset paClVportYscale paClVportYoffset =
     (let vtxXyFmt = bit (createUBfe paClVteCntl 8 1) 0;
          xScale = bitcast_i2f fp paClVportXscale;
          xOffset = bitcast_i2f fp paClVportXoffset;
          yScale = bitcast_i2f fp paClVportYscale;
          yOffset = bitcast_i2f fp paClVportYoffset;
          x0 = elemX vertex0; y0 = elemY vertex0; w0 = elemW vertex0;
          x1 = elemX vertex1; y1 = elemY vertex1; w1 = elemW vertex1;
          x2 = elemX vertex2; y2 = elemY vertex2; w2 = elemW vertex2;
          rcpW0 = fbin fp FDiv (fconst fp 1) w0;
          rcpW1 = fbin fp FDiv (fconst fp 1) w1;
          rcpW2 = fbin fp FDiv (fconst fp 1) w2;
          rcpW0 = (if vtxXyFmt then fconst fp 1 else rcpW0);
          rcpW1 = (if vtxXyFmt then fconst fp 1 else rcpW1);
          rcpW2 = (if vtxXyFmt then fconst fp 1 else rcpW2);
          x0 = fbin fp FMul x0 rcpW0;
          y0 = fbin fp FMul y0 rcpW0;
          x1 = fbin fp FMul x1 rcpW1;
          y1 = fbin fp FMul y1 rcpW1;
          x2 = fbin fp FMul x2 rcpW2;
          y2 = fbin fp FMul y2 rcpW2;
          screenMinX = fbin fp FAdd (fbin fp FAdd (fun1 fp FNeg xScale) xOffset)
                         (fconst fp (- (3 / 4)));
          screenMaxX = fbin fp FAdd (fbin fp FAdd xScale xOffset) (fconst fp (3 / 4));
          screenMinY = fbin fp FAdd (fbin fp FAdd (fun1 fp FNeg yScale) yOffset)
                         (fconst fp (- (3 / 4)));
          screenMaxY = fbin fp FAdd (fbin fp FAdd yScale yOffset) (fconst fp (3 / 4));
          screenX0 = fma3 fp x0 xScale xOffset;
          screenX1 = fma3 fp x1 xScale xOffset;
          screenX2 = fma3 fp x2 xScale xOffset;
          minX = fbin fp MinNum screenX0 screenX1;
          minX = fbin fp MinNum minX screenX2;
          minX = (if \<not> enableFrustumCulling then fmed3 fp screenMinX minX screenMaxX else minX);
          minX = fbin fp FAdd minX (fconst fp (- (1 / 256)));
          minX = fun1 fp RInt minX;
          maxX = fbin fp MaxNum screenX0 screenX1;
          maxX = fbin fp MaxNum maxX screenX2;
          maxX = (if \<not> enableFrustumCulling then fmed3 fp screenMinX maxX screenMaxX else maxX);
          maxX = fbin fp FAdd maxX (fconst fp (1 / 256));
          maxX = fun1 fp RInt maxX;
          screenY0 = fma3 fp y0 yScale yOffset;
          screenY1 = fma3 fp y1 yScale yOffset;
          screenY2 = fma3 fp y2 yScale yOffset;
          minY = fbin fp MinNum screenY0 screenY1;
          minY = fbin fp MinNum minY screenY2;
          minY = (if \<not> enableFrustumCulling then fmed3 fp screenMinY minY screenMaxY else minY);
          minY = fbin fp FAdd minY (fconst fp (- (1 / 256)));
          minY = fun1 fp RInt minY;
          maxY = fbin fp MaxNum screenY0 screenY1;
          maxY = fbin fp MaxNum maxY screenY2;
          maxY = (if \<not> enableFrustumCulling then fmed3 fp screenMinY maxY screenMaxY else maxY);
          maxY = fbin fp FAdd maxY (fconst fp (1 / 256));
          maxY = fun1 fp RInt maxY;
          minXEqMaxX = fcmp fp OEQ minX maxX;
          minYEqMaxY = fcmp fp OEQ minY maxY;
          newCullFlag = (minXEqMaxX \<or> minYEqMaxY);
          w0AsInt = bitcast_f2i fp w0;
          w1AsInt = bitcast_f2i fp w1;
          w2AsInt = bitcast_f2i fp w2;
          isAllWNeg = w0AsInt AND w1AsInt;
          isAllWNeg = isAllWNeg AND w2AsInt;
          isAllWNeg = (sint isAllWNeg < 0);
          isAllWPos = w0AsInt OR w1AsInt;
          isAllWPos = isAllWPos OR w2AsInt;
          isAllWPos = (sint isAllWPos > 0);
          allowCull = (isAllWNeg \<or> isAllWPos)
      in allowCull \<and> newCullFlag)"

text \<open>
  The entry block of this culler branches to the exit when the incoming flag is set or
  \<open>conservativeRaster\<close> is; the phi then yields the incoming flag.
\<close>

definition smallPrimFilterCuller ::
  "('f, 'h) fpu \<Rightarrow> bool \<Rightarrow> bool \<Rightarrow> 'f vec4 \<Rightarrow> 'f vec4 \<Rightarrow> 'f vec4 \<Rightarrow> i32 \<Rightarrow> i32 \<Rightarrow> i32 \<Rightarrow> i32 \<Rightarrow> i32
     \<Rightarrow> bool \<Rightarrow> bool" where
  "smallPrimFilterCuller fp enableFrustumCulling cullFlag vertex0 vertex1 vertex2 paClVteCntl
       paClVportXscale paClVportXoffset paClVportYscale paClVportYoffset conservativeRaster =
     (if cullFlag \<or> conservativeRaster then cullFlag
      else smallPrimFilterCull fp enableFrustumCulling vertex0 vertex1 vertex2 paClVteCntl
             paClVportXscale paClVportXoffset paClVportYscale paClVportYoffset)"

subsection \<open>Cull distance culler\<close>

text \<open>
  The sign mask of one vertex, computed in \<open>.writeVertCullData\<close> of \<open>buildPrimShader\<close>: the
  loop over the cull distances, each bit-cast to \<open>i32\<close>, its bit 31 shifted to position
  \<open>i\<close> and ORed in. \<open>cullDistance\<close> is the list of the values' bit patterns after the
  cast. \<open>signMaskLoop\<close> is the loop from index \<open>i\<close> with the accumulator \<open>signMask\<close>.
\<close>

fun signMaskLoop :: "i32 list \<Rightarrow> nat \<Rightarrow> i32 \<Rightarrow> i32" where
  "signMaskLoop [] i signMask = signMask"
| "signMaskLoop (cullDistanceVal # rest) i signMask =
     (let signBit = createUBfe cullDistanceVal 31 1;
          signBit = push_bit i signBit
      in signMaskLoop rest (Suc i) (signMask OR signBit))"

definition cullDistanceSignMask :: "('f, 'h) fpu \<Rightarrow> 'f list \<Rightarrow> i32" where
  "cullDistanceSignMask fp cullDistance = signMaskLoop (map (bitcast_f2i fp) cullDistance) 0 0"

definition cullDistanceCull :: "i32 \<Rightarrow> i32 \<Rightarrow> i32 \<Rightarrow> bool" where
  "cullDistanceCull signMask0 signMask1 signMask2 =
     (let signMask = signMask0 AND signMask1;
          signMask = signMask AND signMask2
      in signMask \<noteq> 0)"

definition cullDistanceCuller :: "bool \<Rightarrow> i32 \<Rightarrow> i32 \<Rightarrow> i32 \<Rightarrow> bool" where
  "cullDistanceCuller cullFlag signMask0 signMask1 signMask2 =
     (if cullFlag then cullFlag else cullDistanceCull signMask0 signMask1 signMask2)"

subsection \<open>Running the cullers on one primitive\<close>

text \<open>
  The pipeline configuration \<open>m_nggControl\<close>, as far as the primitive shader reads it.
  \<open>enableCullingQ\<close> is the result of \<open>enableCulling()\<close>, a member function defined in the
  header NggPrimShader.h, which is not among the sources: it is taken as given.
\<close>

record NggControl =
  passthroughMode :: bool
  compactVertex :: bool
  enableBackfaceCulling :: bool
  enableFrustumCulling :: bool
  enableBoxFilterCulling :: bool
  enableSphereCulling :: bool
  enableSmallPrimFilter :: bool
  enableCullDistanceCulling :: bool
  backfaceExponent :: i32
  paClVteCntlCb :: i32
  enableCullingQ :: bool

text \<open>
  The culling-control registers that \<open>fetchCullingControlRegister\<close> loads from the
  primitive shader table. The byte offsets (\<open>m_cbLayoutTable\<close>) come from an ABI header
  outside the sources, so the table is keyed by register name.
\<close>

record CullRegs =
  paSuScModeCntl :: i32
  paClClipCntl :: i32
  paClGbHorzDiscAdj :: i32
  paClGbVertDiscAdj :: i32
  paClVportXscale :: i32
  paClVportXoffset :: i32
  paClVportYscale :: i32
  paClVportYoffset :: i32
  enableConservativeRasterization :: i32

text \<open>
  \<open>NggPrimShader::doCulling\<close>. \<open>ldsVertexPosition\<close> and \<open>ldsCullDistanceSignMask\<close> are the
  LDS regions read by \<open>fetchVertexPositionData\<close> and \<open>fetchCullDistanceSignMask\<close>, keyed by
  relative vertex index.
\<close>

definition doCulling ::
  "('f, 'h) fpu \<Rightarrow> NggControl \<Rightarrow> CullRegs \<Rightarrow> (nat \<Rightarrow> 'f vec4) \<Rightarrow> (nat \<Rightarrow> i32)
     \<Rightarrow> i32 \<Rightarrow> i32 \<Rightarrow> i32 \<Rightarrow> bool" where
  "doCulling fp ctl regs ldsVertexPosition ldsCullDistanceSignMask
       vertexIndex0 vertexIndex1 vertexIndex2 =
     (if \<not> enableCullingQ ctl then False
      else
        (let cullFlag = False;
             vertex0 = ldsVertexPosition (unat vertexIndex0);
             vertex1 = ldsVertexPosition (unat vertexIndex1);
             vertex2 = ldsVertexPosition (unat vertexIndex2);
             cullFlag =
               (if enableBackfaceCulling ctl
                then backfaceCuller fp cullFlag vertex0 vertex1 vertex2 (backfaceExponent ctl)
                       (paSuScModeCntl regs) (paClVportXscale regs) (paClVportYscale regs)
                else cullFlag);
             cullFlag =
               (if enableFrustumCulling ctl
                then frustumCuller fp cullFlag vertex0 vertex1 vertex2 (paClClipCntl regs)
                       (paClGbHorzDiscAdj regs) (paClGbVertDiscAdj regs)
                else cullFlag);
             cullFlag =
               (if enableBoxFilterCulling ctl
                then boxFilterCuller fp cullFlag vertex0 vertex1 vertex2 (paClVteCntlCb ctl)
                       (paClClipCntl regs) (paClGbHorzDiscAdj regs) (paClGbVertDiscAdj regs)
                else cullFlag);
             cullFlag =
               (if enableSphereCulling ctl
                then sphereCuller fp cullFlag vertex0 vertex1 vertex2 (paClVteCntlCb ctl)
                       (paClClipCntl regs) (paClGbHorzDiscAdj regs) (paClGbVertDiscAdj regs)
                else cullFlag);
             cullFlag =
               (if enableSmallPrimFilter ctl
                then smallPrimFilterCuller fp (enableFrustumCulling ctl) cullFlag
                       vertex0 vertex1 vertex2 (paClVteCntlCb ctl)
                       (paClVportXscale regs) (paClVportXoffset regs)
                       (paClVportYscale regs) (paClVportYoffset regs)
                       (enableConservativeRasterization regs = 1)
                else cullFlag);
             cullFlag =
               (if enableCullDistanceCulling ctl
                then cullDistanceCuller cullFlag
                       (ldsCullDistanceSignMask (unat vertexIndex0))
                       (ldsCullDistanceSignMask (unat vertexIndex1))
                       (ldsCullDistanceSignMask (unat vertexIndex2))
                else cullFlag)
         in cullFlag))"

section \<open>Wave-level operations\<close>

text \<open>
  The intrinsics the generator emits for cross-lane work, with the executing lane made an
  explicit argument. \<open>ctpop\<close> is the population count. \<open>amdgcn_mbcnt_lo (m, val)\<close> adds to
  \<open>val\<close> the number of bits of \<open>m\<close> set below the executing lane, looking at lanes 0 to 31;
  \<open>amdgcn_mbcnt_hi\<close> does the same for lanes 32 to 63. \<open>threadMask lane\<close> has the bits
  below \<open>lane\<close> set.
\<close>

definition ctpop :: "'a::len word \<Rightarrow> nat" where
  "ctpop w = length (filter (bit w) [0..<LENGTH('a)])"

definition threadMask :: "nat \<Rightarrow> i64" where
  "threadMask lane = mask lane"

definition mbcnt_lo :: "nat \<Rightarrow> i32 \<Rightarrow> i32 \<Rightarrow> i32" where
  "mbcnt_lo lane m val = val + of_nat (ctpop (m AND ucast (threadMask lane)))"

definition mbcnt_hi :: "nat \<Rightarrow> i32 \<Rightarrow> i32 \<Rightarrow> i32" where
  "mbcnt_hi lane m val = val + of_nat (ctpop (m AND ucast (drop_bit 32 (threadMask lane))))"

text \<open>
  \<open>NggPrimShader::ballot\<close>: the mask of the lanes whose value is true, always as \<open>i64\<close>
  (zero-extended from \<open>i32\<close> in wave32). All lanes of the wave are active where the
  generator calls it.
\<close>

definition ballot :: "nat \<Rightarrow> (nat \<Rightarrow> bool) \<Rightarrow> i64" where
  "ballot waveSz val =
     (if waveSz = 32 then ucast (horner_sum of_bool 2 (map val [0..<32]) :: i32)
      else horner_sum of_bool 2 (map val [0..<64]))"

text \<open>\<open>amdgcn_readlane\<close> and \<open>amdgcn_readfirstlane\<close> on a value given per lane.\<close>

definition readlane :: "(nat \<Rightarrow> 'a) \<Rightarrow> i32 \<Rightarrow> 'a" where
  "readlane v lane = v (unat lane)"

definition readfirstlane :: "(nat \<Rightarrow> 'a) \<Rightarrow> 'a" where
  "readfirstlane v = v 0"

section \<open>Wave and thread info\<close>

text \<open>
  \<open>m_nggInputs\<close>: the per-invocation record filled by \<open>initWaveThreadInfo\<close> and, for the
  vertex indices, by the entry block of \<open>buildPrimShader\<close>.
\<close>

record NggInputs =
  primCountInSubgroup :: i32
  vertCountInSubgroup :: i32
  primCountInWave :: i32
  vertCountInWave :: i32
  threadIdInWave :: i32
  threadIdInSubgroup :: i32
  waveIdInSubgroup :: i32
  orderedWaveId :: i32
  vertexIndex0 :: i32
  vertexIndex1 :: i32
  vertexIndex2 :: i32

text \<open>
  \<open>NggPrimShader::initWaveThreadInfo\<close> for the lane \<open>lane\<close> of a wave, followed by the
  vertex-index extraction of the entry block (\<open>vgpr0\<close>, \<open>vgpr1\<close> are \<open>vgprArgs[0]\<close>,
  \<open>vgprArgs[1]\<close>).
\<close>

definition initWaveThreadInfo :: "nat \<Rightarrow> nat \<Rightarrow> i32 \<Rightarrow> i32 \<Rightarrow> i32 \<Rightarrow> i32 \<Rightarrow> NggInputs" where
  "initWaveThreadInfo waveSz lane mergedGroupInfo mergedWaveInfo vgpr0 vgpr1 =
     (let threadIdInWave = mbcnt_lo lane (- 1) 0;
          threadIdInWave = (if waveSz = 64 then mbcnt_hi lane (- 1) threadIdInWave
                            else threadIdInWave);
          primCountInSubgroup = createUBfe mergedGroupInfo 22 9;
          vertCountInSubgroup = createUBfe mergedGroupInfo 12 9;
          vertCountInWave = createUBfe mergedWaveInfo 0 8;
          primCountInWave = createUBfe mergedWaveInfo 8 8;
          waveIdInSubgroup = createUBfe mergedWaveInfo 24 4;
          orderedWaveId = createUBfe mergedGroupInfo 0 12;
          threadIdInSubgroup = waveIdInSubgroup * of_nat waveSz;
          threadIdInSubgroup = threadIdInSubgroup + threadIdInWave
      in \<lparr> primCountInSubgroup = primCountInSubgroup,
           vertCountInSubgroup = vertCountInSubgroup,
           primCountInWave = primCountInWave,
           vertCountInWave = vertCountInWave,
           threadIdInWave = threadIdInWave,
           threadIdInSubgroup = threadIdInSubgroup,
           waveIdInSubgroup = waveIdInSubgroup,
           orderedWaveId = orderedWaveId,
           vertexIndex0 = createUBfe vgpr0 0 16,
           vertexIndex1 = createUBfe vgpr0 16 16,
           vertexIndex2 = createUBfe vgpr1 0 16 \<rparr>)"

section \<open>The primitive shader in culling mode without API GS\<close>

text \<open>
  Modelled from the spec: \<open>Gfx9::NggMaxThreadsPerSubgroup\<close> is declared in Gfx9Chip.h, which
  is not among the sources. The spec (sections 3 and 4.2) bounds a subgroup by 256 threads.
\<close>

definition NggMaxThreadsPerSubgroup :: nat where
  "NggMaxThreadsPerSubgroup = 256"

text \<open>
  What \<open>buildPrimShader\<close> reads of the pipeline state at compile time. \<open>smallSubgroupThreshold\<close>
  is the command-line option \<open>NggSmallSubgroupThreshold\<close> (16 unless set). The built-in
  usage fields are those \<open>earlyExitWithDummyExport\<close> reads.
\<close>

record PrimShaderConfig =
  waveSize :: nat
  nggControl :: NggControl
  waNggCullingNoEmptySubgroups :: bool
  constPositionZ :: bool
  smallSubgroupThreshold :: i32
  hasTes :: bool
  usesPointSize :: bool
  usesLayer :: bool
  usesViewportIndex :: bool
  usesPrimitiveShadingRate :: bool
  clipDistanceCount :: nat
  cullDistanceCount :: nat

definition waveCountInSubgroup :: "PrimShaderConfig \<Rightarrow> nat" where
  "waveCountInSubgroup cfg = NggMaxThreadsPerSubgroup div waveSize cfg"

definition dummyExportCount :: "PrimShaderConfig \<Rightarrow> i32" where
  "dummyExportCount cfg = (if waNggCullingNoEmptySubgroups cfg then 1 else 0)"

text \<open>
  What the hardware and the vertex stage deliver to one subgroup: the dispatch words, the
  number of waves launched, and for the lane \<open>l\<close> of the wave launched \<open>w\<close>-th the two
  vertex-index registers and the cull data that the fetcher part of the vertex stage
  (\<open>runPartEs\<close>) returns. A thread is the pair \<open>(w, l)\<close>.
\<close>

type_synonym thread = "nat \<times> nat"

record 'f SubgroupInput =
  mergedGroupInfo :: i32
  mergedWaveInfo :: "nat \<Rightarrow> i32"
  numWaves :: nat
  esGsOffsets01 :: "thread \<Rightarrow> i32"
  esGsOffsets23 :: "thread \<Rightarrow> i32"
  esPosition :: "thread \<Rightarrow> 'f vec4"
  esCullDistance :: "thread \<Rightarrow> 'f list"

definition threadsOf :: "PrimShaderConfig \<Rightarrow> 'f SubgroupInput \<Rightarrow> thread list" where
  "threadsOf cfg inp =
     concat (map (\<lambda>w. map (\<lambda>l. (w, l)) [0..<waveSize cfg]) [0..<numWaves inp])"

definition nggInputsOf :: "PrimShaderConfig \<Rightarrow> 'f SubgroupInput \<Rightarrow> thread \<Rightarrow> NggInputs" where
  "nggInputsOf cfg inp t =
     initWaveThreadInfo (waveSize cfg) (snd t) (mergedGroupInfo inp) (mergedWaveInfo inp (fst t))
       (esGsOffsets01 inp t) (esGsOffsets23 inp t)"

text \<open>
  Shared memory (LDS). Each region the culling path uses is an array of its own, keyed by
  item index: the vertex position region, the fields of the vertex cull info (the source
  addresses field \<open>f\<close> of item \<open>i\<close> at \<open>regionStart + i * esGsRingItemSize + f\<close>), the vertex
  counts and the vertex index map. The re-materialization fields written next to the
  compacted index (tessellation coordinate, patch, vertex, instance and primitive ids) are
  not modelled.
\<close>

record 'f Lds =
  ldsVertexPosition :: "nat \<Rightarrow> 'f vec4"
  ldsCullDistanceSignMask :: "nat \<Rightarrow> i32"
  ldsDrawFlag :: "nat \<Rightarrow> i32"
  ldsCompactedVertexIndex :: "nat \<Rightarrow> i32"
  ldsVertexCounts :: "nat \<Rightarrow> i32"
  ldsVertexIndexMap :: "nat \<Rightarrow> i32"

text \<open>
  The blocks of \<open>buildPrimShader\<close>, each as the effect of one thread on LDS. Between two
  barriers the threads of the subgroup run in some order; the model runs them in the order
  of \<open>threadsOf\<close>, one block after the other. Within a block the writes go to different
  addresses, store the same value, or are atomic additions.
\<close>

definition runtimePassthrough :: "PrimShaderConfig \<Rightarrow> 'f SubgroupInput \<Rightarrow> bool" where
  "runtimePassthrough cfg inp =
     (if constPositionZ cfg then True
      else createUBfe (mergedGroupInfo inp) 12 9 < smallSubgroupThreshold cfg)"

definition initVertDrawFlag :: "NggInputs \<Rightarrow> 'f Lds \<Rightarrow> 'f Lds" where
  "initVertDrawFlag ni lds =
     (if threadIdInSubgroup ni < vertCountInSubgroup ni
      then lds\<lparr>ldsDrawFlag := (ldsDrawFlag lds)(unat (threadIdInSubgroup ni) := 0)\<rparr>
      else lds)"

definition initVertCount :: "PrimShaderConfig \<Rightarrow> NggInputs \<Rightarrow> 'f Lds \<Rightarrow> 'f Lds" where
  "initVertCount cfg ni lds =
     (if threadIdInSubgroup ni < of_nat (waveCountInSubgroup cfg + 1)
      then lds\<lparr>ldsVertexCounts := (ldsVertexCounts lds)(unat (threadIdInSubgroup ni) := 0)\<rparr>
      else lds)"

definition writeVertCullData ::
  "('f, 'h) fpu \<Rightarrow> PrimShaderConfig \<Rightarrow> NggInputs \<Rightarrow> 'f vec4 \<Rightarrow> 'f list \<Rightarrow> 'f Lds \<Rightarrow> 'f Lds" where
  "writeVertCullData fp cfg ni position cullDistance lds =
     (if threadIdInWave ni < vertCountInWave ni
      then (let lds = lds\<lparr>ldsVertexPosition :=
                            (ldsVertexPosition lds)(unat (threadIdInSubgroup ni) := position)\<rparr>
            in if enableCullDistanceCulling (nggControl cfg)
               then lds\<lparr>ldsCullDistanceSignMask :=
                          (ldsCullDistanceSignMask lds)
                            (unat (threadIdInSubgroup ni) := cullDistanceSignMask fp cullDistance)\<rparr>
               else lds)
      else lds)"

text \<open>
  \<open>.culling\<close>, \<open>.writeVertDrawFlag\<close> and the phi of \<open>.endCulling\<close>: the culled flag of a
  thread, and its writes of the draw flags.
\<close>

definition primitiveCulledOf ::
  "('f, 'h) fpu \<Rightarrow> PrimShaderConfig \<Rightarrow> CullRegs \<Rightarrow> NggInputs \<Rightarrow> 'f Lds \<Rightarrow> bool" where
  "primitiveCulledOf fp cfg regs ni lds =
     (if threadIdInSubgroup ni < primCountInSubgroup ni
      then doCulling fp (nggControl cfg) regs (ldsVertexPosition lds)
             (ldsCullDistanceSignMask lds) (vertexIndex0 ni) (vertexIndex1 ni) (vertexIndex2 ni)
      else True)"

definition writeVertDrawFlag ::
  "('f, 'h) fpu \<Rightarrow> PrimShaderConfig \<Rightarrow> CullRegs \<Rightarrow> NggInputs \<Rightarrow> 'f Lds \<Rightarrow> 'f Lds" where
  "writeVertDrawFlag fp cfg regs ni lds =
     (if primitiveCulledOf fp cfg regs ni lds then lds
      else lds\<lparr>ldsDrawFlag :=
                 (ldsDrawFlag lds)
                   (unat (vertexIndex0 ni) := 1, unat (vertexIndex1 ni) := 1,
                    unat (vertexIndex2 ni) := 1)\<rparr>)"

text \<open>
  \<open>.checkVertDrawFlag\<close> and \<open>.endCheckVertDrawFlag\<close>: the draw flag of a thread, the draw
  mask of its wave and the wave's count of drawn vertices (\<open>ctpop\<close> yields \<open>i64\<close>, truncated
  to \<open>i32\<close>).
\<close>

definition drawFlagOf :: "NggInputs \<Rightarrow> 'f Lds \<Rightarrow> bool" where
  "drawFlagOf ni lds =
     (if threadIdInSubgroup ni < vertCountInSubgroup ni
      then ldsDrawFlag lds (unat (threadIdInSubgroup ni)) \<noteq> 0
      else False)"

definition drawMaskOf :: "PrimShaderConfig \<Rightarrow> 'f SubgroupInput \<Rightarrow> 'f Lds \<Rightarrow> nat \<Rightarrow> i64" where
  "drawMaskOf cfg inp lds w =
     ballot (waveSize cfg) (\<lambda>l. drawFlagOf (nggInputsOf cfg inp (w, l)) lds)"

definition vertCountInWaveOf :: "PrimShaderConfig \<Rightarrow> 'f SubgroupInput \<Rightarrow> 'f Lds \<Rightarrow> nat \<Rightarrow> i32" where
  "vertCountInWaveOf cfg inp lds w = ucast (of_nat (ctpop (drawMaskOf cfg inp lds w)) :: i64)"

text \<open>\<open>.accumVertCount\<close>: the atomic addition into the vertex counts.\<close>

definition accumVertCount :: "PrimShaderConfig \<Rightarrow> NggInputs \<Rightarrow> i32 \<Rightarrow> 'f Lds \<Rightarrow> 'f Lds" where
  "accumVertCount cfg ni vertCountInWaveNew lds =
     (let threadIdUpbound = of_nat (waveCountInSubgroup cfg) - waveIdInSubgroup ni
      in if threadIdInWave ni < threadIdUpbound
         then (let ldsOffset = waveIdInSubgroup ni + threadIdInWave ni;
                   ldsOffset = ldsOffset + 1
               in lds\<lparr>ldsVertexCounts :=
                          (ldsVertexCounts lds)
                            (unat ldsOffset := ldsVertexCounts lds (unat ldsOffset)
                                                 + vertCountInWaveNew)\<rparr>)
         else lds)"

text \<open>
  \<open>.endAccumVertCount\<close>: every lane reads the vertex count at its lane id, and the wave
  takes the subgroup total from lane \<open>waveCountInSubgroup\<close> and the count of the preceding
  waves from the lane of its wave id.
\<close>

definition vertCountInWavesOf ::
  "PrimShaderConfig \<Rightarrow> 'f SubgroupInput \<Rightarrow> 'f Lds \<Rightarrow> nat \<Rightarrow> nat \<Rightarrow> i32" where
  "vertCountInWavesOf cfg inp lds w lane =
     ldsVertexCounts lds (unat (threadIdInWave (nggInputsOf cfg inp (w, lane))))"

definition vertCountInSubgroupNew ::
  "PrimShaderConfig \<Rightarrow> 'f SubgroupInput \<Rightarrow> 'f Lds \<Rightarrow> nat \<Rightarrow> i32" where
  "vertCountInSubgroupNew cfg inp lds w =
     readlane (vertCountInWavesOf cfg inp lds w) (of_nat (waveCountInSubgroup cfg))"

definition vertCountInPrevWaves ::
  "PrimShaderConfig \<Rightarrow> 'f SubgroupInput \<Rightarrow> 'f Lds \<Rightarrow> thread \<Rightarrow> i32" where
  "vertCountInPrevWaves cfg inp lds t =
     readlane (vertCountInWavesOf cfg inp lds (fst t)) (waveIdInSubgroup (nggInputsOf cfg inp t))"

definition hasCulledVertices ::
  "PrimShaderConfig \<Rightarrow> 'f SubgroupInput \<Rightarrow> 'f Lds \<Rightarrow> thread \<Rightarrow> bool" where
  "hasCulledVertices cfg inp lds t =
     (vertCountInSubgroupNew cfg inp lds (fst t) < vertCountInSubgroup (nggInputsOf cfg inp t))"

text \<open>
  \<open>.compactVert\<close>: the compacted vertex index of a thread (the 64-bit draw mask is split
  into two \<open>i32\<close> halves for \<open>mbcnt\<close>), and the two writes: the map from compacted to
  uncompacted index and the compacted index in the vertex cull info. \<open>ldsB\<close> is LDS as it
  is after the barrier of \<open>.endAccumVertCount\<close>: the values the threads hold in registers
  come from there.
\<close>

definition compactedVertexIndexOf ::
  "PrimShaderConfig \<Rightarrow> 'f SubgroupInput \<Rightarrow> 'f Lds \<Rightarrow> thread \<Rightarrow> i32" where
  "compactedVertexIndexOf cfg inp ldsB t =
     (let drawMask = drawMaskOf cfg inp ldsB (fst t);
          drawMaskLow = (ucast drawMask :: i32);
          compactedVertexIndex = mbcnt_lo (snd t) drawMaskLow 0;
          compactedVertexIndex =
            (if waveSize cfg = 64
             then (let drawMaskHigh = (ucast (drop_bit 32 drawMask) :: i32)
                   in mbcnt_hi (snd t) drawMaskHigh compactedVertexIndex)
             else compactedVertexIndex)
      in vertCountInPrevWaves cfg inp ldsB t + compactedVertexIndex)"

definition compactVert ::
  "PrimShaderConfig \<Rightarrow> 'f SubgroupInput \<Rightarrow> 'f Lds \<Rightarrow> thread \<Rightarrow> 'f Lds \<Rightarrow> 'f Lds" where
  "compactVert cfg inp ldsB t lds =
     (if compactVertex (nggControl cfg)
         \<and> drawFlagOf (nggInputsOf cfg inp t) ldsB \<and> hasCulledVertices cfg inp ldsB t
      then (let compactedVertexIndex = compactedVertexIndexOf cfg inp ldsB t;
                tid = threadIdInSubgroup (nggInputsOf cfg inp t)
            in lds\<lparr>ldsVertexIndexMap :=
                       (ldsVertexIndexMap lds)(unat compactedVertexIndex := tid),
                     ldsCompactedVertexIndex :=
                       (ldsCompactedVertexIndex lds)(unat tid := compactedVertexIndex)\<rparr>)
      else lds)"

text \<open>LDS at the three barriers of the culling path and at its end.\<close>

definition ldsAfterWriteCullData ::
  "('f, 'h) fpu \<Rightarrow> PrimShaderConfig \<Rightarrow> 'f SubgroupInput \<Rightarrow> 'f Lds \<Rightarrow> 'f Lds" where
  "ldsAfterWriteCullData fp cfg inp lds0 =
     (let ths = threadsOf cfg inp;
          lds = fold (\<lambda>t. initVertDrawFlag (nggInputsOf cfg inp t)) ths lds0;
          lds = fold (\<lambda>t. initVertCount cfg (nggInputsOf cfg inp t)) ths lds
      in fold (\<lambda>t. writeVertCullData fp cfg (nggInputsOf cfg inp t)
                     (esPosition inp t) (esCullDistance inp t)) ths lds)"

definition ldsAfterCulling ::
  "('f, 'h) fpu \<Rightarrow> PrimShaderConfig \<Rightarrow> CullRegs \<Rightarrow> 'f SubgroupInput \<Rightarrow> 'f Lds \<Rightarrow> 'f Lds" where
  "ldsAfterCulling fp cfg regs inp lds0 =
     fold (\<lambda>t. writeVertDrawFlag fp cfg regs (nggInputsOf cfg inp t)) (threadsOf cfg inp)
       (ldsAfterWriteCullData fp cfg inp lds0)"

definition ldsAfterAccumVertCount ::
  "PrimShaderConfig \<Rightarrow> 'f SubgroupInput \<Rightarrow> 'f Lds \<Rightarrow> 'f Lds" where
  "ldsAfterAccumVertCount cfg inp lds2 =
     fold (\<lambda>t. accumVertCount cfg (nggInputsOf cfg inp t) (vertCountInWaveOf cfg inp lds2 (fst t)))
       (threadsOf cfg inp) lds2"

definition ldsAfterCompactVert ::
  "PrimShaderConfig \<Rightarrow> 'f SubgroupInput \<Rightarrow> 'f Lds \<Rightarrow> 'f Lds" where
  "ldsAfterCompactVert cfg inp lds3 =
     fold (compactVert cfg inp lds3) (threadsOf cfg inp) lds3"

definition cullingPathLds ::
  "('f, 'h) fpu \<Rightarrow> PrimShaderConfig \<Rightarrow> CullRegs \<Rightarrow> 'f SubgroupInput \<Rightarrow> 'f Lds \<Rightarrow> 'f Lds" where
  "cullingPathLds fp cfg regs inp lds0 =
     ldsAfterCompactVert cfg inp
       (ldsAfterAccumVertCount cfg inp (ldsAfterCulling fp cfg regs inp lds0))"

text \<open>
  The values a thread holds after the phi nodes of \<open>.checkAllocReq\<close>. \<open>compactVertexRt\<close> is
  \<open>m_compactVertex\<close> (false where the member is null, that is without vertex compaction).
\<close>

record ThreadState =
  compactVertexRt :: bool
  primitiveCulled :: bool
  fullyCulled :: bool
  primCountFinal :: i32
  vertCountFinal :: i32
  drawFlagFinal :: bool
  vertCountInWaveFinal :: i32

text \<open>
  Coming from \<open>.endCompactVert\<close>. \<open>lds1\<close>, \<open>lds2\<close>, \<open>lds3\<close> are LDS at the three barriers
  (after the cull data are written, after culling, after the counts are accumulated).
\<close>

definition threadStateCulling ::
  "('f, 'h) fpu \<Rightarrow> PrimShaderConfig \<Rightarrow> CullRegs \<Rightarrow> 'f SubgroupInput
     \<Rightarrow> 'f Lds \<Rightarrow> 'f Lds \<Rightarrow> 'f Lds \<Rightarrow> thread \<Rightarrow> ThreadState" where
  "threadStateCulling fp cfg regs inp lds1 lds2 lds3 t =
     (let w = fst t;
          vertCountInSubgroupL = vertCountInSubgroupNew cfg inp lds3 w;
          fullyCulledL = (vertCountInSubgroupL = 0);
          primCountInSubgroupL =
            readfirstlane (\<lambda>lane. if fullyCulledL then dummyExportCount cfg
                                   else primCountInSubgroup (nggInputsOf cfg inp (w, lane)));
          vertCountInSubgroupL =
            readfirstlane (\<lambda>lane. if fullyCulledL then dummyExportCount cfg
                                   else if compactVertex (nggControl cfg) then vertCountInSubgroupL
                                   else vertCountInSubgroup (nggInputsOf cfg inp (w, lane)))
      in \<lparr> compactVertexRt = (compactVertex (nggControl cfg) \<and> hasCulledVertices cfg inp lds3 t),
           primitiveCulled = primitiveCulledOf fp cfg regs (nggInputsOf cfg inp t) lds1,
           fullyCulled = fullyCulledL,
           primCountFinal = primCountInSubgroupL,
           vertCountFinal = vertCountInSubgroupL,
           drawFlagFinal = drawFlagOf (nggInputsOf cfg inp t) lds2,
           vertCountInWaveFinal = vertCountInWaveOf cfg inp lds2 w \<rparr>)"

text \<open>Coming from \<open>.runtimePassthrough\<close>.\<close>

definition threadStatePassthrough ::
  "PrimShaderConfig \<Rightarrow> 'f SubgroupInput \<Rightarrow> thread \<Rightarrow> ThreadState" where
  "threadStatePassthrough cfg inp t =
     \<lparr> compactVertexRt = False,
       primitiveCulled = False,
       fullyCulled = False,
       primCountFinal = primCountInSubgroup (nggInputsOf cfg inp t),
       vertCountFinal = vertCountInSubgroup (nggInputsOf cfg inp t),
       drawFlagFinal = True,
       vertCountInWaveFinal = vertCountInWave (nggInputsOf cfg inp t) \<rparr>"

text \<open>\<open>NggPrimShader::sendGsAllocReqMessage\<close>: the word \<open>m0\<close> of the message \<open>GS_ALLOC_REQ\<close>.\<close>

definition sendGsAllocReqMessage :: "i32 \<Rightarrow> i32 \<Rightarrow> i32" where
  "sendGsAllocReqMessage primCountInSubgroupV vertCountInSubgroupV =
     (let m0 = push_bit 12 primCountInSubgroupV
      in m0 OR vertCountInSubgroupV)"

text \<open>
  \<open>NggPrimShader::earlyExitWithDummyExport\<close>: the exports of one thread before it returns.
  \<open>hasGs\<close> is \<open>m_hasGs\<close>, false in \<open>buildPrimShader\<close>.
\<close>

definition dummyPosExpCount :: "bool \<Rightarrow> PrimShaderConfig \<Rightarrow> nat" where
  "dummyPosExpCount hasGs cfg =
     (let miscExport =
            (if hasGs
             then (usesPointSize cfg \<or> usesLayer cfg \<or> usesViewportIndex cfg)
                    \<or> usesPrimitiveShadingRate cfg
             else if hasTes cfg
             then (usesPointSize cfg \<or> usesLayer cfg \<or> usesViewportIndex cfg)
             else (usesPointSize cfg \<or> usesLayer cfg \<or> usesViewportIndex cfg)
                    \<or> usesPrimitiveShadingRate cfg);
          posExpCount = 1;
          posExpCount = (if miscExport then posExpCount + 1 else posExpCount)
      in posExpCount + (clipDistanceCount cfg + cullDistanceCount cfg) div 4)"

definition earlyExitWithDummyExport :: "bool \<Rightarrow> PrimShaderConfig \<Rightarrow> NggInputs \<Rightarrow> exp_instr list" where
  "earlyExitWithDummyExport hasGs cfg ni =
     (if threadIdInSubgroup ni = 0
      then (let posExpCount = dummyPosExpCount hasGs cfg
            in \<lparr> exp_tgt = EXP_TARGET_PRIM, exp_en = 1, exp_src0 = Some 0, exp_done = True \<rparr>
               # map (\<lambda>i. \<lparr> exp_tgt = EXP_TARGET_POS i, exp_en = 0, exp_src0 = None,
                              exp_done = (i = posExpCount - 1) \<rparr>) [0..<posExpCount])
      else [])"

text \<open>
  From \<open>.endAllocReq\<close> to the end: the export instructions one thread issues, in order,
  and whether it runs the deferred vertex export of the vertex stage (\<open>.expVert\<close>, whose
  exports belong to that stage and are not listed). \<open>lds\<close> is LDS at the end of the
  culling path, read by \<open>exportPrimitive\<close>.
\<close>

definition threadExports ::
  "PrimShaderConfig \<Rightarrow> NggInputs \<Rightarrow> ThreadState \<Rightarrow> 'f Lds \<Rightarrow> exp_instr list \<times> bool" where
  "threadExports cfg ni ts lds =
     (if waNggCullingNoEmptySubgroups cfg \<and> fullyCulled ts
      then (if dummyExportCount cfg > 0 then earlyExitWithDummyExport False cfg ni else [], False)
      else
        (let primExports =
               (if threadIdInSubgroup ni < primCountFinal ts
                then [exportPrimitive (compactVertexRt ts) (ldsCompactedVertexIndex lds)
                        (vertexIndex0 ni) (vertexIndex1 ni) (vertexIndex2 ni) (primitiveCulled ts)]
                else []);
             vertValid = (threadIdInSubgroup ni < vertCountFinal ts)
         in if compactVertex (nggControl cfg) then (primExports, vertValid)
            else if \<not> vertValid then (primExports, False)
            else if vertCountInWaveFinal ts = 0
            then (primExports @ [\<lparr> exp_tgt = EXP_TARGET_POS 0, exp_en = 0, exp_src0 = None,
                                     exp_done = True \<rparr>], False)
            else (primExports, drawFlagFinal ts)))"

text \<open>
  What one subgroup does: the path taken, LDS at the end, the thread values after
  \<open>.checkAllocReq\<close>, the \<open>GS_ALLOC_REQ\<close> words sent (one by each wave whose wave id is 0),
  and the exports of each thread.
\<close>

record 'f PrimShaderResult =
  resRuntimePassthrough :: bool
  resLds :: "'f Lds"
  resThread :: "thread \<Rightarrow> ThreadState"
  resGsAllocReq :: "i32 list"
  resExports :: "thread \<Rightarrow> exp_instr list \<times> bool"

definition gsAllocReqMessages ::
  "PrimShaderConfig \<Rightarrow> 'f SubgroupInput \<Rightarrow> (thread \<Rightarrow> ThreadState) \<Rightarrow> i32 list" where
  "gsAllocReqMessages cfg inp ts =
     map (\<lambda>w. sendGsAllocReqMessage (primCountFinal (ts (w, 0))) (vertCountFinal (ts (w, 0))))
       (filter (\<lambda>w. waveIdInSubgroup (nggInputsOf cfg inp (w, 0)) = 0) [0..<numWaves inp])"

text \<open>
  \<open>NggPrimShader::buildPrimShader\<close>, as the behaviour of the shader it generates on one
  subgroup, starting from LDS \<open>lds0\<close>. The distribution of the primitive ID and
  transform feedback (\<open>processSwXfb\<close>, modelled further down) run before the blocks
  modelled here and do not touch the regions of \<open>Lds\<close>.
\<close>

definition buildPrimShader ::
  "('f, 'h) fpu \<Rightarrow> PrimShaderConfig \<Rightarrow> CullRegs \<Rightarrow> 'f SubgroupInput \<Rightarrow> 'f Lds
     \<Rightarrow> 'f PrimShaderResult" where
  "buildPrimShader fp cfg regs inp lds0 =
     (if runtimePassthrough cfg inp
      then (let ts = threadStatePassthrough cfg inp
            in \<lparr> resRuntimePassthrough = True,
                 resLds = lds0,
                 resThread = ts,
                 resGsAllocReq = gsAllocReqMessages cfg inp ts,
                 resExports = (\<lambda>t. threadExports cfg (nggInputsOf cfg inp t) (ts t) lds0) \<rparr>)
      else (let lds1 = ldsAfterWriteCullData fp cfg inp lds0;
                lds2 = ldsAfterCulling fp cfg regs inp lds0;
                lds3 = ldsAfterAccumVertCount cfg inp lds2;
                lds4 = ldsAfterCompactVert cfg inp lds3;
                ts = threadStateCulling fp cfg regs inp lds1 lds2 lds3
            in \<lparr> resRuntimePassthrough = False,
                 resLds = lds4,
                 resThread = ts,
                 resGsAllocReq = gsAllocReqMessages cfg inp ts,
                 resExports = (\<lambda>t. threadExports cfg (nggInputsOf cfg inp t) (ts t) lds4) \<rparr>))"

section \<open>The LDS layout\<close>

text \<open>
  Modelled from the spec: the constants \<open>MaxGsStreams\<close>, \<open>MaxTransformFeedbackBuffers\<close> and
  \<open>Gfx9::NggMaxWavesPerSubgroup\<close> are declared in headers that are not among the sources.
  The spec (section 4.2) sizes the regions for 256 threads and a bounded wave count; the
  comments of \<open>layoutPrimShaderLds\<close> and the stream-out register list give four streams
  and four buffers, and 256 threads in waves of at least 32 lanes give eight waves.
\<close>

definition MaxGsStreams :: nat where "MaxGsStreams = 4"
definition MaxTransformFeedbackBuffers :: nat where "MaxTransformFeedbackBuffers = 4"
definition NggMaxWavesPerSubgroup :: nat where "NggMaxWavesPerSubgroup = NggMaxThreadsPerSubgroup div 32"

datatype PrimShaderLdsRegion =
    DistributedPrimitiveId | VertexPosition | VertexCullInfo | XfbOutput | XfbStats
  | VertexCounts | VertexIndexMap
  | EsGsRing | PrimitiveData | PrimitiveCounts | PrimitiveIndexMap | GsVsRing

type_synonym PrimShaderLdsLayout = "PrimShaderLdsRegion \<rightharpoonup> (i32 \<times> i32)"

record PrimShaderLdsUsageInfo =
  needsLds :: bool
  esExtraLdsSize :: i32
  gsExtraLdsSize :: i32

text \<open>
  What \<open>layoutPrimShaderLds\<close> reads of the pipeline state. \<open>distributePrimitiveIdQ\<close> is
  \<open>!hasTes && builtInUsage.vs.primitiveId\<close>; the four sizes are fields of \<open>calcFactor\<close>.
\<close>

record LdsLayoutConfig =
  hasGsStage :: bool
  layoutPassthroughMode :: bool
  layoutCompactVertex :: bool
  enableSwXfb :: bool
  distributePrimitiveIdQ :: bool
  esGsLdsSize :: i32
  gsOnChipLdsSize :: i32
  esVertsPerSubgroup :: i32
  esGsRingItemSize :: i32

text \<open>\<open>llvm::alignTo\<close>, computed on 64 bits and narrowed to \<open>unsigned\<close> by the assignment.\<close>

definition alignTo :: "i32 \<Rightarrow> nat \<Rightarrow> i32" where
  "alignTo v a = ucast (((ucast v :: i64) + of_nat a - 1) div of_nat a * of_nat a)"

text \<open>
  The running state of \<open>layoutPrimShaderLds\<close>: \<open>ldsOffset\<close>, the layout written so far and
  the usage info. \<open>placeRegion\<close> is the recurring group of statements that records a region
  at the current offset and advances the offset; \<open>aliasRegion\<close> is the assignment of one
  entry of the layout to another.
\<close>

record LayoutState =
  ldsOffset :: i32
  ldsLayout :: PrimShaderLdsLayout
  usageInfo :: PrimShaderLdsUsageInfo

definition placeRegion :: "PrimShaderLdsRegion \<Rightarrow> i32 \<Rightarrow> LayoutState \<Rightarrow> LayoutState" where
  "placeRegion region ldsRegionSize st =
     st\<lparr> ldsLayout := (ldsLayout st)(region \<mapsto> (ldsOffset st, ldsRegionSize)),
         ldsOffset := ldsOffset st + ldsRegionSize \<rparr>"

definition aliasRegion :: "PrimShaderLdsRegion \<Rightarrow> PrimShaderLdsRegion \<Rightarrow> LayoutState \<Rightarrow> LayoutState" where
  "aliasRegion region other st =
     st\<lparr> ldsLayout := (ldsLayout st)(region := ldsLayout st other) \<rparr>"

definition addGsExtra :: "i32 \<Rightarrow> LayoutState \<Rightarrow> LayoutState" where
  "addGsExtra ldsRegionSize st =
     st\<lparr> usageInfo := (usageInfo st)\<lparr> gsExtraLdsSize := gsExtraLdsSize (usageInfo st) + ldsRegionSize \<rparr> \<rparr>"

definition addEsExtra :: "i32 \<Rightarrow> LayoutState \<Rightarrow> LayoutState" where
  "addEsExtra ldsRegionSize st =
     st\<lparr> usageInfo := (usageInfo st)\<lparr> esExtraLdsSize := esExtraLdsSize (usageInfo st) + ldsRegionSize \<rparr> \<rparr>"

definition initLayoutState :: "bool \<Rightarrow> LayoutState" where
  "initLayoutState needs =
     \<lparr> ldsOffset = 0, ldsLayout = Map.empty,
       usageInfo = \<lparr> needsLds = needs, esExtraLdsSize = 0, gsExtraLdsSize = 0 \<rparr> \<rparr>"

text \<open>
  \<open>NggPrimShader::layoutPrimShaderLds\<close> with a layout to fill (\<open>ldsLayout\<close> not null, as
  \<open>generatePrimShaderEntryPoint\<close> calls it). The three branches of the source: API GS
  present, passthrough mode, culling mode.
\<close>

definition layoutWithGs :: "LdsLayoutConfig \<Rightarrow> LayoutState" where
  "layoutWithGs cfg =
     (let st = initLayoutState True;
          st = placeRegion EsGsRing (alignTo (esGsLdsSize cfg) 4) st;
          ldsRegionSize = of_nat (NggMaxThreadsPerSubgroup * MaxGsStreams);
          st = addGsExtra ldsRegionSize (placeRegion PrimitiveData ldsRegionSize st);
          st = (if enableSwXfb cfg
                then (let ldsRegionSize = of_nat ((NggMaxWavesPerSubgroup + 1) * MaxGsStreams)
                      in addGsExtra ldsRegionSize (placeRegion PrimitiveCounts ldsRegionSize st))
                else st);
          st = (if enableSwXfb cfg
                then (let ldsRegionSize = of_nat (NggMaxThreadsPerSubgroup * MaxGsStreams)
                      in addGsExtra ldsRegionSize (placeRegion PrimitiveIndexMap ldsRegionSize st))
                else st);
          st = (if enableSwXfb cfg
                then aliasRegion VertexCounts PrimitiveCounts st
                else (let ldsRegionSize = of_nat ((NggMaxWavesPerSubgroup + 1) * MaxGsStreams)
                      in addGsExtra ldsRegionSize (placeRegion VertexCounts ldsRegionSize st)));
          st = (if layoutCompactVertex cfg
                then (if enableSwXfb cfg
                      then aliasRegion VertexIndexMap PrimitiveIndexMap st
                      else (let ldsRegionSize = of_nat (NggMaxThreadsPerSubgroup * MaxGsStreams)
                            in addGsExtra ldsRegionSize
                                 (placeRegion VertexIndexMap ldsRegionSize st)))
                else st);
          st = (if enableSwXfb cfg
                then (let ldsRegionSize = of_nat (MaxTransformFeedbackBuffers + MaxGsStreams)
                      in addGsExtra ldsRegionSize (placeRegion XfbStats ldsRegionSize st))
                else st);
          esGsRingLdsSize = (case ldsLayout st EsGsRing of Some r \<Rightarrow> snd r | None \<Rightarrow> 0);
          ldsRegionSize = gsOnChipLdsSize cfg - esGsRingLdsSize - gsExtraLdsSize (usageInfo st)
      in placeRegion GsVsRing ldsRegionSize st)"

definition layoutPassthrough :: "LdsLayoutConfig \<Rightarrow> LayoutState" where
  "layoutPassthrough cfg =
     (let st = initLayoutState (distributePrimitiveIdQ cfg \<or> enableSwXfb cfg);
          st = (if distributePrimitiveIdQ cfg
                then placeRegion DistributedPrimitiveId (esVertsPerSubgroup cfg) st
                else st);
          st = st\<lparr> ldsOffset := 0 \<rparr>;
          st = (if enableSwXfb cfg
                then placeRegion XfbOutput (esVertsPerSubgroup cfg * esGsRingItemSize cfg) st
                else st)
      in if enableSwXfb cfg
         then (let ldsRegionSize = of_nat (MaxTransformFeedbackBuffers + 1)
               in addEsExtra ldsRegionSize (placeRegion XfbStats ldsRegionSize st))
         else st)"

definition layoutCulling :: "LdsLayoutConfig \<Rightarrow> LayoutState" where
  "layoutCulling cfg =
     (let st = initLayoutState True;
          st = (if distributePrimitiveIdQ cfg
                then placeRegion DistributedPrimitiveId (esVertsPerSubgroup cfg) st
                else st);
          st = st\<lparr> ldsOffset := 0 \<rparr>;
          ldsRegionSize = of_nat (4 * NggMaxThreadsPerSubgroup);
          st = addEsExtra ldsRegionSize (placeRegion VertexPosition ldsRegionSize st);
          st = placeRegion VertexCullInfo (esGsRingItemSize cfg * esVertsPerSubgroup cfg) st;
          st = (if enableSwXfb cfg
                then (let ldsRegionSize = of_nat (MaxTransformFeedbackBuffers + 1)
                      in addEsExtra ldsRegionSize (placeRegion XfbStats ldsRegionSize st))
                else st);
          ldsRegionSize = of_nat (NggMaxWavesPerSubgroup + 1);
          st = addEsExtra ldsRegionSize (placeRegion VertexCounts ldsRegionSize st)
      in if layoutCompactVertex cfg
         then (let ldsRegionSize = of_nat NggMaxThreadsPerSubgroup
               in addEsExtra ldsRegionSize (placeRegion VertexIndexMap ldsRegionSize st))
         else st)"

definition layoutPrimShaderLds :: "LdsLayoutConfig \<Rightarrow> LayoutState" where
  "layoutPrimShaderLds cfg =
     (if hasGsStage cfg then layoutWithGs cfg
      else if layoutPassthroughMode cfg then layoutPassthrough cfg
      else layoutCulling cfg)"

text \<open>
  Two regions given as (offset, size) in dwords do not overlap when one ends before the
  other begins.
\<close>

definition regionsDisjoint :: "i32 \<times> i32 \<Rightarrow> i32 \<times> i32 \<Rightarrow> bool" where
  "regionsDisjoint r1 r2 =
     (unat (fst r1) + unat (snd r1) \<le> unat (fst r2) \<or> unat (fst r2) + unat (snd r2) \<le> unat (fst r1))"

section \<open>Software transform feedback without API GS\<close>

text \<open>
  \<open>NggPrimShader::processSwXfb\<close>, the part that reserves buffer space and gates the
  export. Compile-time inputs: the buffer strides (\<open>getXfbBufferStrides\<close>, in bytes) and
  the vertices per primitive. Run-time inputs: of each stream-out buffer descriptor the
  word \<open>NUM_RECORDS\<close> (the byte size of the buffer) and the buffer offset, both loaded by
  \<open>loadStreamOutBufferInfo\<close>. The memory it works on: the GDS registers of the dwords
  written (one per buffer) and of the primitives needed and written (stream 0), and the
  LDS region of the transform-feedback statistics.
\<close>

record XfbConfig =
  xfbStrides :: "nat \<Rightarrow> i32"
  vertsPerPrim :: i32

record XfbBuffers =
  streamOutNumRecords :: "nat \<Rightarrow> i32"
  streamOutBufOffsets :: "nat \<Rightarrow> i32"

record XfbMem =
  gdsDwordsWritten :: "nat \<Rightarrow> i32"
  gdsPrimsNeeded :: i32
  gdsPrimsWritten :: i32
  ldsXfbStats :: "nat \<Rightarrow> i32"

definition bufferActive :: "XfbConfig \<Rightarrow> nat \<Rightarrow> bool" where
  "bufferActive xc i = (xfbStrides xc i > 0)"

definition dwordsPerPrim :: "XfbConfig \<Rightarrow> nat \<Rightarrow> i32" where
  "dwordsPerPrim xc i = vertsPerPrim xc * xfbStrides xc i div 4"

text \<open>The intrinsics \<open>llvm.smax\<close> and \<open>llvm.umin\<close> on \<open>i32\<close>.\<close>

definition smax :: "i32 \<Rightarrow> i32 \<Rightarrow> i32" where
  "smax a b = (if sint a < sint b then b else a)"

definition umin :: "i32 \<Rightarrow> i32 \<Rightarrow> i32" where
  "umin a b = (if b < a then b else a)"

text \<open>
  One iteration of the loop "Calculate numPrimsToWrite" for an active buffer \<open>i\<close>: the
  number of primitives the buffer can still take. The atomic addition of 0 returns the
  register unchanged. \<open>udiv\<close> by zero is undefined in LLVM: the result is \<open>None\<close> then.
\<close>

definition dwordsRemainingOf :: "XfbBuffers \<Rightarrow> XfbMem \<Rightarrow> nat \<Rightarrow> i32" where
  "dwordsRemainingOf bufs mem i =
     (let dwordsWritten = gdsDwordsWritten mem i;
          numRecords = streamOutNumRecords bufs i;
          bufferSizeInDwords = drop_bit 2 numRecords;
          dwordsRemaining = bufferSizeInDwords - (streamOutBufOffsets bufs i + dwordsWritten)
      in smax dwordsRemaining 0)"

definition primsCanWrite :: "XfbConfig \<Rightarrow> XfbBuffers \<Rightarrow> XfbMem \<Rightarrow> nat \<Rightarrow> i32 option" where
  "primsCanWrite xc bufs mem i =
     (if dwordsPerPrim xc i = 0 then None
      else Some (dwordsRemainingOf bufs mem i div dwordsPerPrim xc i))"

fun calcNumPrimsToWrite ::
  "XfbConfig \<Rightarrow> XfbBuffers \<Rightarrow> XfbMem \<Rightarrow> nat list \<Rightarrow> i32 \<Rightarrow> i32 option" where
  "calcNumPrimsToWrite xc bufs mem [] numPrimsToWrite = Some numPrimsToWrite"
| "calcNumPrimsToWrite xc bufs mem (i # rest) numPrimsToWrite =
     (if \<not> bufferActive xc i then calcNumPrimsToWrite xc bufs mem rest numPrimsToWrite
      else (case primsCanWrite xc bufs mem i of
              None \<Rightarrow> None
            | Some p \<Rightarrow> calcNumPrimsToWrite xc bufs mem rest (umin numPrimsToWrite p)))"

text \<open>
  The loop "Increment dwordsWritten" and the stores of the statistics: for every active
  buffer the register grows by \<open>numPrimsToWrite * dwordsPerPrim\<close> and the value it had
  before goes to the statistics slot of the buffer. The source stores the statistics in a
  loop of its own after the additions; the stores go to different slots and write the
  values the additions returned, so the state after both loops is the same.
\<close>

fun incrementDwordsWritten :: "XfbConfig \<Rightarrow> i32 \<Rightarrow> nat list \<Rightarrow> XfbMem \<Rightarrow> XfbMem" where
  "incrementDwordsWritten xc numPrimsToWrite [] mem = mem"
| "incrementDwordsWritten xc numPrimsToWrite (i # rest) mem =
     (if \<not> bufferActive xc i then incrementDwordsWritten xc numPrimsToWrite rest mem
      else (let dwordsToWrite = numPrimsToWrite * dwordsPerPrim xc i;
                dwordsWritten = gdsDwordsWritten mem i
            in incrementDwordsWritten xc numPrimsToWrite rest
                 (mem\<lparr> gdsDwordsWritten := (gdsDwordsWritten mem)(i := dwordsWritten + dwordsToWrite),
                       ldsXfbStats := (ldsXfbStats mem)(i := dwordsWritten) \<rparr>)))"

text \<open>The block \<open>.prepareXfbExport\<close>, run by a thread whose id in the subgroup is 0.\<close>

definition prepareXfbExport ::
  "XfbConfig \<Rightarrow> XfbBuffers \<Rightarrow> i32 \<Rightarrow> XfbMem \<Rightarrow> XfbMem option" where
  "prepareXfbExport xc bufs primCountInSubgroupV mem =
     (case calcNumPrimsToWrite xc bufs mem [0..<MaxTransformFeedbackBuffers] primCountInSubgroupV of
        None \<Rightarrow> None
      | Some numPrimsToWrite \<Rightarrow>
          (let mem = mem\<lparr> ldsXfbStats :=
                             (ldsXfbStats mem)(MaxTransformFeedbackBuffers := numPrimsToWrite) \<rparr>;
               mem = incrementDwordsWritten xc numPrimsToWrite
                       [0..<MaxTransformFeedbackBuffers] mem
           in Some (mem\<lparr> gdsPrimsNeeded := gdsPrimsNeeded mem + primCountInSubgroupV,
                          gdsPrimsWritten := gdsPrimsWritten mem + numPrimsToWrite \<rparr>)))"

text \<open>The threads of the subgroup up to the barrier of \<open>.endPrepareXfbExport\<close>.\<close>

fun runPrepareXfbExport ::
  "XfbConfig \<Rightarrow> XfbBuffers \<Rightarrow> NggInputs list \<Rightarrow> XfbMem \<Rightarrow> XfbMem option" where
  "runPrepareXfbExport xc bufs [] mem = Some mem"
| "runPrepareXfbExport xc bufs (ni # rest) mem =
     (if threadIdInSubgroup ni = 0
      then (case prepareXfbExport xc bufs (primCountInSubgroup ni) mem of
              None \<Rightarrow> None
            | Some mem' \<Rightarrow> runPrepareXfbExport xc bufs rest mem')
      else runPrepareXfbExport xc bufs rest mem)"

text \<open>
  After the barrier: the lanes below \<open>1 + MaxTransformFeedbackBuffers\<close> read the
  statistics (the others hold poison, \<open>None\<close>), the wave takes \<open>numPrimsToWrite\<close> from
  lane \<open>MaxTransformFeedbackBuffers\<close>, and a thread exports when its id in the subgroup is
  below it.
\<close>

definition xfbStatInfoOf ::
  "PrimShaderConfig \<Rightarrow> 'f SubgroupInput \<Rightarrow> XfbMem \<Rightarrow> nat \<Rightarrow> nat \<Rightarrow> i32 option" where
  "xfbStatInfoOf cfg inp mem w lane =
     (let ni = nggInputsOf cfg inp (w, lane)
      in if threadIdInWave ni < of_nat (1 + MaxTransformFeedbackBuffers)
         then Some (ldsXfbStats mem (unat (threadIdInWave ni)))
         else None)"

definition xfbExportValid ::
  "PrimShaderConfig \<Rightarrow> 'f SubgroupInput \<Rightarrow> XfbMem \<Rightarrow> thread \<Rightarrow> bool option" where
  "xfbExportValid cfg inp mem t =
     (case readlane (xfbStatInfoOf cfg inp mem (fst t)) (of_nat MaxTransformFeedbackBuffers) of
        None \<Rightarrow> None
      | Some numPrimsToWrite \<Rightarrow>
          Some (threadIdInSubgroup (nggInputsOf cfg inp t) < numPrimsToWrite))"

definition processSwXfb ::
  "PrimShaderConfig \<Rightarrow> XfbConfig \<Rightarrow> XfbBuffers \<Rightarrow> 'f SubgroupInput \<Rightarrow> XfbMem
     \<Rightarrow> (XfbMem \<times> (thread \<Rightarrow> bool option)) option" where
  "processSwXfb cfg xc bufs inp mem =
     (case runPrepareXfbExport xc bufs (map (nggInputsOf cfg inp) (threadsOf cfg inp)) mem of
        None \<Rightarrow> None
      | Some mem' \<Rightarrow> Some (mem', xfbExportValid cfg inp mem'))"

section \<open>Well-formed dispatch\<close>

text \<open>
  What the hardware guarantees of the dispatch words: the wave size is 32 or 64, at least
  one wave is launched and no more than fit 256 threads, and the wave launched \<open>w\<close>-th
  carries the wave id \<open>w\<close> in its \<open>mergedWaveInfo\<close>.
\<close>

definition wellFormedDispatch :: "PrimShaderConfig \<Rightarrow> 'f SubgroupInput \<Rightarrow> bool" where
  "wellFormedDispatch cfg inp =
     ((waveSize cfg = 32 \<or> waveSize cfg = 64)
      \<and> 0 < numWaves inp \<and> numWaves inp \<le> waveCountInSubgroup cfg
      \<and> list_all (\<lambda>w. createUBfe (mergedWaveInfo inp w) 24 4 = of_nat w) [0..<numWaves inp])"

section \<open>An exact instance of the floating-point instructions\<close>

text \<open>
  For running the cullers on concrete triangles: the floating-point interface
  interpreted on the rationals, with exact arithmetic and no NaN. It is one possible
  \<open>fp\<close> among many; the theorems do not depend on it.
\<close>

definition ratFpu :: "(rat, rat) fpu" where
  "ratFpu =
     \<lparr> fconst = (\<lambda>c. c),
       hconst = (\<lambda>c. c),
       bitcast_i2f = (\<lambda>w. of_int (sint w)),
       bitcast_f2i = (\<lambda>x. of_int \<lfloor>x\<rfloor>),
       fbin = (\<lambda>opc a b. case opc of FAdd \<Rightarrow> a + b | FSub \<Rightarrow> a - b | FMul \<Rightarrow> a * b
                 | FDiv \<Rightarrow> a / b | MinNum \<Rightarrow> min a b | MaxNum \<Rightarrow> max a b),
       fun1 = (\<lambda>opc a. case opc of FNeg \<Rightarrow> - a | FAbs \<Rightarrow> \<bar>a\<bar> | RInt \<Rightarrow> of_int (round a)),
       fcmp = (\<lambda>opc a b. case opc of OLT \<Rightarrow> a < b | OGT \<Rightarrow> a > b | OGE \<Rightarrow> a \<ge> b | OEQ \<Rightarrow> a = b),
       fma3 = (\<lambda>a b c. a * b + c),
       fmed3 = (\<lambda>a b c. max (min a b) (min (max a b) c)),
       fpowi = (\<lambda>a n. a powi (sint n)),
       cvt_pkrtz = (\<lambda>a b. (a, b)),
       hbin = (\<lambda>opc a b. case opc of FAdd \<Rightarrow> a + b | FSub \<Rightarrow> a - b | FMul \<Rightarrow> a * b
                 | FDiv \<Rightarrow> a / b | MinNum \<Rightarrow> min a b | MaxNum \<Rightarrow> max a b),
       hun1 = (\<lambda>opc a. case opc of FNeg \<Rightarrow> - a | FAbs \<Rightarrow> \<bar>a\<bar> | RInt \<Rightarrow> of_int (round a)),
       hcmp = (\<lambda>opc a b. case opc of OLT \<Rightarrow> a < b | OGT \<Rightarrow> a > b | OGE \<Rightarrow> a \<ge> b | OEQ \<Rightarrow> a = b),
       hfma3 = (\<lambda>a b c. a * b + c) \<rparr>"

section \<open>Concrete inputs\<close>

text \<open>
  A pipeline with an API GS, software transform feedback and vertex compaction, used to
  evaluate the layout.
\<close>

definition exampleLayoutConfig :: LdsLayoutConfig where
  "exampleLayoutConfig =
     \<lparr> hasGsStage = True, layoutPassthroughMode = False, layoutCompactVertex = True,
       enableSwXfb = True, distributePrimitiveIdQ = False,
       esGsLdsSize = 62, gsOnChipLdsSize = 8192, esVertsPerSubgroup = 128,
       esGsRingItemSize = 5 \<rparr>"

text \<open>
  A vertex-shader pipeline in wave32 with vertex compaction, every culler switched off
  and the workaround for empty subgroups active; and a subgroup of one wave with
  \<open>vertCount\<close> vertices and \<open>primCount\<close> primitives whose first thread holds the
  triangle of the vertices 0, 1 and 3.
\<close>

definition exampleControl :: NggControl where
  "exampleControl =
     \<lparr> passthroughMode = False, compactVertex = True, enableBackfaceCulling = False,
       enableFrustumCulling = False, enableBoxFilterCulling = False,
       enableSphereCulling = False, enableSmallPrimFilter = False,
       enableCullDistanceCulling = False, backfaceExponent = 0, paClVteCntlCb = 0,
       enableCullingQ = False \<rparr>"

definition exampleConfig :: PrimShaderConfig where
  "exampleConfig =
     \<lparr> waveSize = 32, nggControl = exampleControl, waNggCullingNoEmptySubgroups = True,
       constPositionZ = False, smallSubgroupThreshold = 16, hasTes = False,
       usesPointSize = False, usesLayer = False, usesViewportIndex = False,
       usesPrimitiveShadingRate = False, clipDistanceCount = 0, cullDistanceCount = 0 \<rparr>"

definition exampleRegs :: CullRegs where
  "exampleRegs =
     \<lparr> paSuScModeCntl = 0, paClClipCntl = 0, paClGbHorzDiscAdj = 0, paClGbVertDiscAdj = 0,
       paClVportXscale = 0, paClVportXoffset = 0, paClVportYscale = 0, paClVportYoffset = 0,
       enableConservativeRasterization = 0 \<rparr>"

definition exampleSubgroup :: "nat \<Rightarrow> nat \<Rightarrow> rat SubgroupInput" where
  "exampleSubgroup vertCount primCount =
     \<lparr> mergedGroupInfo = push_bit 22 (of_nat primCount) OR push_bit 12 (of_nat vertCount),
       mergedWaveInfo = (\<lambda>w. push_bit 24 (of_nat w) OR push_bit 8 (of_nat primCount)
                               OR of_nat vertCount),
       numWaves = 1,
       esGsOffsets01 = (\<lambda>t. if t = (0, 0) then push_bit 16 1 else 0),
       esGsOffsets23 = (\<lambda>t. if t = (0, 0) then 3 else 0),
       esPosition = (\<lambda>t. (0, 0, 0, 1)),
       esCullDistance = (\<lambda>t. []) \<rparr>"

definition exampleLds :: "rat Lds" where
  "exampleLds =
     \<lparr> ldsVertexPosition = (\<lambda>i. (0, 0, 0, 1)), ldsCullDistanceSignMask = (\<lambda>i. 0),
       ldsDrawFlag = (\<lambda>i. 0), ldsCompactedVertexIndex = (\<lambda>i. 0),
       ldsVertexCounts = (\<lambda>i. 0), ldsVertexIndexMap = (\<lambda>i. 0) \<rparr>"

section \<open>Counting the drawn vertices\<close>

text \<open>
  For stating what the compaction computes: given which threads hold a drawn vertex, the
  number of drawn vertices in the waves before the wave of \<open>t\<close> plus the number of drawn
  vertices in the lanes below the lane of \<open>t\<close> in its own wave.
\<close>

definition drawnBefore :: "PrimShaderConfig \<Rightarrow> (thread \<Rightarrow> bool) \<Rightarrow> thread \<Rightarrow> nat" where
  "drawnBefore cfg drawn t =
     sum_list (map (\<lambda>w. length (filter (\<lambda>l. drawn (w, l)) [0..<waveSize cfg])) [0..<fst t])
     + length (filter (\<lambda>l. drawn (fst t, l)) [0..<snd t])"

text \<open>
  A transform-feedback setup for triangles with one active buffer of stride 16 bytes
  (12 dwords per primitive): the buffer holds 400 bytes, starts at dword 10, and 42 dwords
  have been written to it by earlier subgroups.
\<close>

definition exampleXfbConfig :: XfbConfig where
  "exampleXfbConfig = \<lparr> xfbStrides = (\<lambda>i. if i = 0 then 16 else 0), vertsPerPrim = 3 \<rparr>"

definition exampleXfbBuffers :: XfbBuffers where
  "exampleXfbBuffers =
     \<lparr> streamOutNumRecords = (\<lambda>i. if i = 0 then 400 else 0),
       streamOutBufOffsets = (\<lambda>i. if i = 0 then 10 else 0) \<rparr>"

definition exampleXfbMem :: XfbMem where
  "exampleXfbMem =
     \<lparr> gdsDwordsWritten = (\<lambda>i. if i = 0 then 42 else 0), gdsPrimsNeeded = 7,
       gdsPrimsWritten = 7, ldsXfbStats = (\<lambda>i. 0) \<rparr>"

section \<open>Properties: bit fields\<close>

lemma createUBfe_eq:
  "offset + count \<le> 32 \<Longrightarrow> createUBfe val offset count = take_bit count (drop_bit offset val)"
  by (auto simp: createUBfe_def take_bit_word_eq_self simp flip: take_bit_eq_mask)

lemma createUBfe_eqI:
  assumes "offset + count \<le> 32"
    and "\<And>n. n < 32 \<Longrightarrow> bit v n = (n < count \<and> bit val (offset + n))"
  shows "createUBfe val offset count = v"
  unfolding createUBfe_eq[OF assms(1)]
  by (rule bit_word_eqI) (simp add: bit_take_bit_iff bit_drop_bit_eq assms(2))

lemma bit_createUBfe:
  "offset + count \<le> 32 \<Longrightarrow> bit (createUBfe val offset count) n \<longleftrightarrow> n < count \<and> bit val (offset + n)"
  by (simp add: createUBfe_eq bit_take_bit_iff bit_drop_bit_eq)

lemma take_bit_word_id: "(v::i32) < 2 ^ n \<Longrightarrow> take_bit n v = v"
  by (metis less_mask_eq take_bit_eq_mask)

lemma small_word_bits: "(v::i32) < 2 ^ k \<Longrightarrow> bit v n \<Longrightarrow> n < k"
  by (metis bit_take_bit_iff take_bit_word_id)

lemma createUBfe_less: "offset + count \<le> 32 \<Longrightarrow> count < 32 \<Longrightarrow> createUBfe val offset count < 2 ^ count"
  by (simp add: createUBfe_eq take_bit_eq_mask and_mask_less')

subsection \<open>The primitive connectivity word\<close>

lemma primData_surviving:
  "primConnectivityData v0 v1 v2 False = push_bit 20 v2 OR push_bit 10 v1 OR v0"
  by (simp add: primConnectivityData_def Let_def push_bit_or ac_simps)

lemma connectivity_fields:
  assumes "(v0 :: i32) < 2 ^ 9" "(v1 :: i32) < 2 ^ 9" "(v2 :: i32) < 2 ^ 9"
  shows "createUBfe (push_bit 20 v2 OR push_bit 10 v1 OR v0) 0 9 = v0"
    and "createUBfe (push_bit 20 v2 OR push_bit 10 v1 OR v0) 10 9 = v1"
    and "createUBfe (push_bit 20 v2 OR push_bit 10 v1 OR v0) 20 9 = v2"
    and "\<not> bit (push_bit 20 v2 OR push_bit 10 v1 OR v0) 31"
proof -
  have b0: "\<And>n. bit v0 n \<Longrightarrow> n < 9" using assms(1) small_word_bits by blast
  have b1: "\<And>n. bit v1 n \<Longrightarrow> n < 9" using assms(2) small_word_bits by blast
  have b2: "\<And>n. bit v2 n \<Longrightarrow> n < 9" using assms(3) small_word_bits by blast
  show "createUBfe (push_bit 20 v2 OR push_bit 10 v1 OR v0) 0 9 = v0"
  proof (rule createUBfe_eqI)
    fix n
    show "bit v0 n = (n < 9 \<and> bit (push_bit 20 v2 OR push_bit 10 v1 OR v0) (0 + n))"
      using b0[of n] by (auto simp: bit_simps)
  qed simp
  show "createUBfe (push_bit 20 v2 OR push_bit 10 v1 OR v0) 10 9 = v1"
  proof (rule createUBfe_eqI)
    fix n
    show "bit v1 n = (n < 9 \<and> bit (push_bit 20 v2 OR push_bit 10 v1 OR v0) (10 + n))"
      using b0[of "10 + n"] b1[of n] by (auto simp: bit_simps)
  qed simp
  show "createUBfe (push_bit 20 v2 OR push_bit 10 v1 OR v0) 20 9 = v2"
  proof (rule createUBfe_eqI)
    fix n
    show "bit v2 n = (n < 9 \<and> bit (push_bit 20 v2 OR push_bit 10 v1 OR v0) (20 + n))"
      using b0[of "20 + n"] b1[of "10 + n"] b2[of n] by (auto simp: bit_simps)
  qed simp
  show "\<not> bit (push_bit 20 v2 OR push_bit 10 v1 OR v0) 31"
    using b0[of 31] b1[of 21] b2[of 11] by (auto simp: bit_simps)
qed

lemma NullPrim_bit31: "bit NullPrim 31"
  by (simp add: NullPrim_def bit_simps)

text \<open>
  Claim C2. The word a thread exports for its primitive in culling mode without API GS:
  when the primitive survives, the word is \<open>(v2 << 20) | (v1 << 10) | v0\<close> and the three
  9-bit fields at bits 0, 10 and 20 read back the vertex indices \<open>v0\<close>, \<open>v1\<close>, \<open>v2\<close>
  that the export uses (the compacted ones when compaction ran); bit 31 is set exactly when
  the primitive was culled. The vertex indices of a surviving primitive are relative
  indices within a subgroup and fit in 9 bits.
\<close>

theorem exportPrimitive_connectivity:
  assumes "exportVertexIndices cv ldsIdx i0 i1 i2 = (v0, v1, v2)"
    and "\<not> culled \<Longrightarrow> v0 < 2 ^ 9 \<and> v1 < 2 ^ 9 \<and> v2 < 2 ^ 9"
  shows "\<exists>w. exportPrimitive cv ldsIdx i0 i1 i2 culled =
               \<lparr> exp_tgt = EXP_TARGET_PRIM, exp_en = 1, exp_src0 = Some w, exp_done = True \<rparr>
           \<and> (bit w 31 \<longleftrightarrow> culled)
           \<and> (\<not> culled \<longrightarrow>
                w = push_bit 20 v2 OR push_bit 10 v1 OR v0
                \<and> createUBfe w 0 9 = v0 \<and> createUBfe w 10 9 = v1 \<and> createUBfe w 20 9 = v2)"
proof (cases culled)
  case True
  then show ?thesis
    using assms(1) by (simp add: exportPrimitive_def primConnectivityData_def Let_def NullPrim_bit31)
next
  case False
  with assms(2) have b: "v0 < 2 ^ 9" "v1 < 2 ^ 9" "v2 < 2 ^ 9" by auto
  show ?thesis
    using False assms(1) connectivity_fields[OF b]
    by (simp add: exportPrimitive_def primData_surviving)
qed

theorem exportPrimitive_connectivity_witness:
  "exportVertexIndices True (\<lambda>i. if i = 7 then 0 else if i = 9 then 1 else 2) 7 9 12 = (0, 1, 2)
   \<and> (\<exists>w. exportPrimitive True (\<lambda>i. if i = 7 then 0 else if i = 9 then 1 else 2) 7 9 12 False =
               \<lparr> exp_tgt = EXP_TARGET_PRIM, exp_en = 1, exp_src0 = Some w, exp_done = True \<rparr>
           \<and> \<not> bit w 31
           \<and> w = push_bit 20 2 OR push_bit 10 1 OR 0
           \<and> createUBfe w 0 9 = 0 \<and> createUBfe w 10 9 = 1 \<and> createUBfe w 20 9 = 2)"
  using exportPrimitive_connectivity
          [of True "\<lambda>i. if i = 7 then 0 else if i = 9 then 1 else 2" 7 9 12 0 1 2 False]
  by (simp add: exportVertexIndices_def)

section \<open>Properties: the culling algorithms\<close>

subsection \<open>The cull distance culler\<close>

lemma signMaskLoop_bit:
  "bit (signMaskLoop xs k acc) n \<longleftrightarrow>
     bit acc n \<or> (k \<le> n \<and> n - k < length xs \<and> n < 32 \<and> bit (xs ! (n - k)) 31)"
proof (induction xs arbitrary: k acc)
  case Nil
  then show ?case by simp
next
  case (Cons x xs)
  have ubfe: "bit (push_bit k (createUBfe x 31 (Suc 0))) n \<longleftrightarrow> (n = k \<and> n < 32 \<and> bit x 31)"
    by (auto simp: createUBfe_def bit_simps)
  show ?case
    by (simp add: Cons.IH Let_def bit_or_iff ubfe)
       (auto simp: nth_Cons' Suc_diff_le less_Suc_eq_le)
qed

text \<open>
  Claim C7. Given a false incoming flag, the cull distance culler returns true exactly when
  the AND of the three sign masks is not zero; and bit \<open>i\<close> of a vertex's sign mask is set
  exactly when the \<open>i\<close>-th cull distance of the vertex has its sign bit (bit 31 of the
  IEEE encoding) set, that is when the value is negative (the mask has 32 bits; the
  generator reads the sign bit, so negative zero counts as negative).
\<close>

theorem cullDistanceCuller_sign_masks:
  "(cullDistanceCuller False (cullDistanceSignMask fp d0) (cullDistanceSignMask fp d1)
       (cullDistanceSignMask fp d2)
     \<longleftrightarrow> cullDistanceSignMask fp d0 AND cullDistanceSignMask fp d1 AND cullDistanceSignMask fp d2 \<noteq> 0)
   \<and> (bit (cullDistanceSignMask fp d) i
        \<longleftrightarrow> i < 32 \<and> i < length d \<and> bit (bitcast_f2i fp (d ! i)) 31)"
  by (auto simp: cullDistanceCuller_def cullDistanceCull_def Let_def cullDistanceSignMask_def
      signMaskLoop_bit ac_simps)

subsection \<open>The frustum culler\<close>

lemma select_bit:
  "(if c then (0x1::i32) else 0) = push_bit 0 (of_bool c)"
  "(if c then (0x2::i32) else 0) = push_bit 1 (of_bool c)"
  "(if c then (0x4::i32) else 0) = push_bit 2 (of_bool c)"
  "(if c then (0x8::i32) else 0) = push_bit 3 (of_bool c)"
  "(if c then (0x10::i32) else 0) = push_bit 4 (of_bool c)"
  "(if c then (0x20::i32) else 0) = push_bit 5 (of_bool c)"
  by simp_all

lemma bit_select_bit:
  "k < 32 \<Longrightarrow> bit (push_bit k (of_bool c) :: i32) n \<longleftrightarrow> n = k \<and> c"
  by (auto simp: bit_push_bit_iff bit_of_bool_iff simp del: push_bit_of_1 push_bit_of_Suc_0)

lemma frustumClipMask_bit:
  "bit (frustumClipMask fp zNear xDiscAdj yDiscAdj v) n \<longleftrightarrow>
     (n = 0 \<and> fcmp fp OLT (elemX v) (fbin fp FMul (fun1 fp FNeg xDiscAdj) (elemW v)))
   \<or> (n = 1 \<and> fcmp fp OGT (elemX v) (fbin fp FMul xDiscAdj (elemW v)))
   \<or> (n = 2 \<and> fcmp fp OLT (elemY v) (fbin fp FMul (fun1 fp FNeg yDiscAdj) (elemW v)))
   \<or> (n = 3 \<and> fcmp fp OGT (elemY v) (fbin fp FMul yDiscAdj (elemW v)))
   \<or> (n = 4 \<and> fcmp fp OLT (elemZ v) (fbin fp FMul zNear (elemW v)))
   \<or> (n = 5 \<and> fcmp fp OGT (elemZ v) (elemW v))"
  unfolding frustumClipMask_def Let_def select_bit bit_or_iff
  by (simp only: bit_select_bit) simp

lemma frustumCuller_eq:
  "frustumCuller fp cullFlag v0 v1 v2 clipCntl horzDiscAdj vertDiscAdj =
     (cullFlag \<or>
      frustumClipMask fp (frustumZNear fp clipCntl) (bitcast_i2f fp horzDiscAdj)
          (bitcast_i2f fp vertDiscAdj) v0
        AND frustumClipMask fp (frustumZNear fp clipCntl) (bitcast_i2f fp horzDiscAdj)
          (bitcast_i2f fp vertDiscAdj) v1
        AND frustumClipMask fp (frustumZNear fp clipCntl) (bitcast_i2f fp horzDiscAdj)
          (bitcast_i2f fp vertDiscAdj) v2 \<noteq> 0)"
  by (simp add: frustumCuller_def frustumCull_def Let_def ac_simps)

lemma frustumClipMask_less: "frustumClipMask fp zNear xDiscAdj yDiscAdj v < 64"
proof -
  have "take_bit 6 (frustumClipMask fp zNear xDiscAdj yDiscAdj v)
          = frustumClipMask fp zNear xDiscAdj yDiscAdj v"
    by (rule bit_word_eqI) (auto simp: bit_take_bit_iff frustumClipMask_bit)
  moreover have "frustumClipMask fp zNear xDiscAdj yDiscAdj v AND mask 6 < 2 ^ 6"
    by (rule and_mask_less') simp
  ultimately show ?thesis
    by (simp add: take_bit_eq_mask)
qed

lemma frustumZNear_eq:
  "frustumZNear fp clipCntl = (if bit clipCntl 19 then fconst fp (- 1) else fconst fp 0)"
  by (simp add: frustumZNear_def Let_def bit_createUBfe)

text \<open>
  Claim C6. With \<open>m v\<close> the clip mask of the vertex \<open>v\<close>: the frustum culler returns the
  incoming flag ORed with "the AND of the three masks is not zero", so on a false incoming
  flag it culls exactly when the AND is not zero; every mask has six bits, one per
  violated half-space (\<open>frustumClipMask_bit\<close> lists the six comparisons); \<open>zNear\<close> is chosen by
  bit 19 of \<open>PA_CL_CLIP_CNTL\<close>; a triangle whose three vertices all have
  \<open>x > xDiscAdj * w\<close> is culled, and a triangle one of whose vertices violates no half-space
  is not.
\<close>

theorem frustumCuller_masks:
  "(let zNear = frustumZNear fp clipCntl;
        m = frustumClipMask fp zNear (bitcast_i2f fp horzDiscAdj) (bitcast_i2f fp vertDiscAdj)
    in frustumCuller fp cullFlag v0 v1 v2 clipCntl horzDiscAdj vertDiscAdj
         = (cullFlag \<or> m v0 AND m v1 AND m v2 \<noteq> 0)
       \<and> m v0 < 64 \<and> m v1 < 64 \<and> m v2 < 64
       \<and> zNear = (if bit clipCntl 19 then fconst fp (- 1) else fconst fp 0)
       \<and> ((fcmp fp OGT (elemX v0) (fbin fp FMul (bitcast_i2f fp horzDiscAdj) (elemW v0))
            \<and> fcmp fp OGT (elemX v1) (fbin fp FMul (bitcast_i2f fp horzDiscAdj) (elemW v1))
            \<and> fcmp fp OGT (elemX v2) (fbin fp FMul (bitcast_i2f fp horzDiscAdj) (elemW v2)))
           \<longrightarrow> frustumCuller fp False v0 v1 v2 clipCntl horzDiscAdj vertDiscAdj)
       \<and> ((m v0 = 0 \<or> m v1 = 0 \<or> m v2 = 0)
           \<longrightarrow> \<not> frustumCuller fp False v0 v1 v2 clipCntl horzDiscAdj vertDiscAdj))"
proof -
  let ?m = "frustumClipMask fp (frustumZNear fp clipCntl) (bitcast_i2f fp horzDiscAdj)
              (bitcast_i2f fp vertDiscAdj)"
  have cull: "?m v0 AND ?m v1 AND ?m v2 \<noteq> 0"
    if "fcmp fp OGT (elemX v0) (fbin fp FMul (bitcast_i2f fp horzDiscAdj) (elemW v0))"
      "fcmp fp OGT (elemX v1) (fbin fp FMul (bitcast_i2f fp horzDiscAdj) (elemW v1))"
      "fcmp fp OGT (elemX v2) (fbin fp FMul (bitcast_i2f fp horzDiscAdj) (elemW v2))"
  proof -
    have "bit (?m v0 AND ?m v1 AND ?m v2) 1"
      using that by (simp add: bit_and_iff frustumClipMask_bit)
    then show ?thesis by auto
  qed
  have none: "\<not> frustumCuller fp False v0 v1 v2 clipCntl horzDiscAdj vertDiscAdj"
    if "?m v0 = 0 \<or> ?m v1 = 0 \<or> ?m v2 = 0"
    using that by (auto simp: frustumCuller_eq)
  show ?thesis
    unfolding Let_def
  proof (intro conjI impI)
    show "frustumCuller fp cullFlag v0 v1 v2 clipCntl horzDiscAdj vertDiscAdj
            = (cullFlag \<or> ?m v0 AND ?m v1 AND ?m v2 \<noteq> 0)"
      by (rule frustumCuller_eq)
    show "?m v0 < 64" "?m v1 < 64" "?m v2 < 64"
      by (rule frustumClipMask_less)+
    show "frustumZNear fp clipCntl = (if bit clipCntl 19 then fconst fp (- 1) else fconst fp 0)"
      by (rule frustumZNear_eq)
    show "frustumCuller fp False v0 v1 v2 clipCntl horzDiscAdj vertDiscAdj"
      if "fcmp fp OGT (elemX v0) (fbin fp FMul (bitcast_i2f fp horzDiscAdj) (elemW v0))
            \<and> fcmp fp OGT (elemX v1) (fbin fp FMul (bitcast_i2f fp horzDiscAdj) (elemW v1))
            \<and> fcmp fp OGT (elemX v2) (fbin fp FMul (bitcast_i2f fp horzDiscAdj) (elemW v2))"
      using that cull by (simp add: frustumCuller_eq)
    show "\<not> frustumCuller fp False v0 v1 v2 clipCntl horzDiscAdj vertDiscAdj"
      if "?m v0 = 0 \<or> ?m v1 = 0 \<or> ?m v2 = 0"
      using that by (rule none)
  qed
qed

lemmas vec4_simps = elemX_def elemY_def elemZ_def elemW_def

theorem frustumCuller_masks_witness:
  "frustumCuller ratFpu False (3, 0, 0, 1) (4, 0, 0, 1) (5, 1, 0, 1) 0 2 2
   \<and> \<not> frustumCuller ratFpu False (3, 0, 0, 1) (4, 0, 0, 1) (1, 1, 0, 1) 0 2 2"
  using frustumCuller_masks [of ratFpu 0 2 2 False "(3, 0, 0, 1)" "(4, 0, 0, 1)" "(5, 1, 0, 1)"]
    frustumCuller_masks [of ratFpu 0 2 2 False "(3, 0, 0, 1)" "(4, 0, 0, 1)" "(1, 1, 0, 1)"]
  by (simp add: Let_def ratFpu_def frustumClipMask_def frustumZNear_def vec4_simps createUBfe_def)

lemma backfaceCuller_eq:
  "backfaceCuller fp cf v0 v1 v2 e m xs ys =
     ((cf \<and> createUBfe m 3 2 \<noteq> 1) \<or> backfaceCuller fp False v0 v1 v2 e m xs ys)"
  by (auto simp: backfaceCuller_def Let_def)

lemma doCulling_eq:
  "doCulling fp ctl regs pos msk i0 i1 i2 =
     (enableCullingQ ctl \<and>
      (enableBackfaceCulling ctl
         \<and> backfaceCuller fp False (pos (unat i0)) (pos (unat i1)) (pos (unat i2))
             (backfaceExponent ctl) (paSuScModeCntl regs) (paClVportXscale regs)
             (paClVportYscale regs)
       \<or> enableFrustumCulling ctl
         \<and> frustumCuller fp False (pos (unat i0)) (pos (unat i1)) (pos (unat i2))
             (paClClipCntl regs) (paClGbHorzDiscAdj regs) (paClGbVertDiscAdj regs)
       \<or> enableBoxFilterCulling ctl
         \<and> boxFilterCuller fp False (pos (unat i0)) (pos (unat i1)) (pos (unat i2))
             (paClVteCntlCb ctl) (paClClipCntl regs) (paClGbHorzDiscAdj regs)
             (paClGbVertDiscAdj regs)
       \<or> enableSphereCulling ctl
         \<and> sphereCuller fp False (pos (unat i0)) (pos (unat i1)) (pos (unat i2))
             (paClVteCntlCb ctl) (paClClipCntl regs) (paClGbHorzDiscAdj regs)
             (paClGbVertDiscAdj regs)
       \<or> enableSmallPrimFilter ctl
         \<and> smallPrimFilterCuller fp (enableFrustumCulling ctl) False
             (pos (unat i0)) (pos (unat i1)) (pos (unat i2)) (paClVteCntlCb ctl)
             (paClVportXscale regs) (paClVportXoffset regs) (paClVportYscale regs)
             (paClVportYoffset regs) (enableConservativeRasterization regs = 1)
       \<or> enableCullDistanceCulling ctl
         \<and> cullDistanceCuller False (msk (unat i0)) (msk (unat i1)) (msk (unat i2))))"
  unfolding doCulling_def Let_def
  by (cases "enableCullingQ ctl"; cases "enableBackfaceCulling ctl";
      cases "enableFrustumCulling ctl"; cases "enableBoxFilterCulling ctl";
      cases "enableSphereCulling ctl"; cases "enableSmallPrimFilter ctl";
      cases "enableCullDistanceCulling ctl";
      simp add: frustumCuller_def boxFilterCuller_def sphereCuller_def
        smallPrimFilterCuller_def cullDistanceCuller_def)

text \<open>
  Claim C4, amended. The frustum, box filter, sphere, small primitive filter and cull
  distance cullers return the incoming flag ORed with their own decision: a true incoming
  flag is returned as it is and the result is monotone in it. The backface culler returns
  a true incoming flag only when \<open>POLY_MODE\<close> is not 1: in wireframe mode its exit block
  selects false on every path. \<open>doCulling\<close> runs the cullers in the fixed order, the backface
  culler first and on a false flag, so its result is true exactly when culling is
  requested and at least one enabled culler, run on a false flag, decides to cull.
\<close>

theorem cullers_accumulate:
  "frustumCuller fp cf v0 v1 v2 clipCntl horz vert
     = (cf \<or> frustumCuller fp False v0 v1 v2 clipCntl horz vert)
   \<and> boxFilterCuller fp cf v0 v1 v2 vte clipCntl horz vert
     = (cf \<or> boxFilterCuller fp False v0 v1 v2 vte clipCntl horz vert)
   \<and> sphereCuller fp cf v0 v1 v2 vte clipCntl horz vert
     = (cf \<or> sphereCuller fp False v0 v1 v2 vte clipCntl horz vert)
   \<and> smallPrimFilterCuller fp ef cf v0 v1 v2 vte xs xo ys yo cr
     = (cf \<or> smallPrimFilterCuller fp ef False v0 v1 v2 vte xs xo ys yo cr)
   \<and> cullDistanceCuller cf m0 m1 m2 = (cf \<or> cullDistanceCuller False m0 m1 m2)
   \<and> backfaceCuller fp cf v0 v1 v2 e m xs ys
     = ((cf \<and> createUBfe m 3 2 \<noteq> 1) \<or> backfaceCuller fp False v0 v1 v2 e m xs ys)
   \<and> doCulling fp ctl regs pos msk i0 i1 i2 =
     (enableCullingQ ctl \<and>
      (enableBackfaceCulling ctl
         \<and> backfaceCuller fp False (pos (unat i0)) (pos (unat i1)) (pos (unat i2))
             (backfaceExponent ctl) (paSuScModeCntl regs) (paClVportXscale regs)
             (paClVportYscale regs)
       \<or> enableFrustumCulling ctl
         \<and> frustumCuller fp False (pos (unat i0)) (pos (unat i1)) (pos (unat i2))
             (paClClipCntl regs) (paClGbHorzDiscAdj regs) (paClGbVertDiscAdj regs)
       \<or> enableBoxFilterCulling ctl
         \<and> boxFilterCuller fp False (pos (unat i0)) (pos (unat i1)) (pos (unat i2))
             (paClVteCntlCb ctl) (paClClipCntl regs) (paClGbHorzDiscAdj regs)
             (paClGbVertDiscAdj regs)
       \<or> enableSphereCulling ctl
         \<and> sphereCuller fp False (pos (unat i0)) (pos (unat i1)) (pos (unat i2))
             (paClVteCntlCb ctl) (paClClipCntl regs) (paClGbHorzDiscAdj regs)
             (paClGbVertDiscAdj regs)
       \<or> enableSmallPrimFilter ctl
         \<and> smallPrimFilterCuller fp (enableFrustumCulling ctl) False
             (pos (unat i0)) (pos (unat i1)) (pos (unat i2)) (paClVteCntlCb ctl)
             (paClVportXscale regs) (paClVportXoffset regs) (paClVportYscale regs)
             (paClVportYoffset regs) (enableConservativeRasterization regs = 1)
       \<or> enableCullDistanceCulling ctl
         \<and> cullDistanceCuller False (msk (unat i0)) (msk (unat i1)) (msk (unat i2))))"
proof (intro conjI)
  show "frustumCuller fp cf v0 v1 v2 clipCntl horz vert
          = (cf \<or> frustumCuller fp False v0 v1 v2 clipCntl horz vert)"
    by (simp add: frustumCuller_def)
  show "boxFilterCuller fp cf v0 v1 v2 vte clipCntl horz vert
          = (cf \<or> boxFilterCuller fp False v0 v1 v2 vte clipCntl horz vert)"
    by (simp add: boxFilterCuller_def)
  show "sphereCuller fp cf v0 v1 v2 vte clipCntl horz vert
          = (cf \<or> sphereCuller fp False v0 v1 v2 vte clipCntl horz vert)"
    by (simp add: sphereCuller_def)
  show "smallPrimFilterCuller fp ef cf v0 v1 v2 vte xs xo ys yo cr
          = (cf \<or> smallPrimFilterCuller fp ef False v0 v1 v2 vte xs xo ys yo cr)"
    by (simp add: smallPrimFilterCuller_def)
  show "cullDistanceCuller cf m0 m1 m2 = (cf \<or> cullDistanceCuller False m0 m1 m2)"
    by (simp add: cullDistanceCuller_def)
  show "backfaceCuller fp cf v0 v1 v2 e m xs ys
          = ((cf \<and> createUBfe m 3 2 \<noteq> 1) \<or> backfaceCuller fp False v0 v1 v2 e m xs ys)"
    by (rule backfaceCuller_eq)
qed (rule doCulling_eq)

text \<open>
  Claim C4 as stated fails for the backface culler: in wireframe mode
  (\<open>PA_SU_SC_MODE_CNTL = 8\<close>, that is \<open>POLY_MODE = 1\<close>) a true incoming flag comes back false.
\<close>

theorem backfaceCuller_wireframe_counterexample:
  "\<not> backfaceCuller ratFpu True (0, 0, 0, 1) (1, 0, 0, 1) (0, 1, 0, 1) 0 8 0 0"
  by (simp add: backfaceCuller_def createUBfe_def Let_def mask_eq_exp_minus_1)

theorem cullers_accumulate_witness:
  "backfaceCuller ratFpu True (0, 0, 0, 1) (1, 0, 0, 1) (0, 1, 0, 1) 0 0 0 0
   \<and> frustumCuller ratFpu True (0, 0, 0, 1) (1, 0, 0, 1) (0, 1, 0, 1) 0 2 2
   \<and> cullDistanceCuller True 0 0 0"
  using cullers_accumulate
          [of ratFpu True "(0, 0, 0, 1)" "(1, 0, 0, 1)" "(0, 1, 0, 1)" 0 2 2 0 False 0 0 0 0 False
              0 0 0 0 0]
  by (simp add: createUBfe_def mask_eq_exp_minus_1)

section \<open>Properties: the LDS layout\<close>

lemmas layout_defs = layoutWithGs_def placeRegion_def aliasRegion_def
  addGsExtra_def addEsExtra_def initLayoutState_def NggMaxThreadsPerSubgroup_def MaxGsStreams_def
  MaxTransformFeedbackBuffers_def NggMaxWavesPerSubgroup_def

lemma layoutWithGs_xfb:
  assumes "enableSwXfb cfg"
  shows "layoutWithGs cfg =
     \<lparr> ldsOffset = gsOnChipLdsSize cfg,
       ldsLayout =
         (if layoutCompactVertex cfg
          then [EsGsRing \<mapsto> (0, alignTo (esGsLdsSize cfg) 4),
                PrimitiveData \<mapsto> (alignTo (esGsLdsSize cfg) 4, 1024),
                PrimitiveCounts \<mapsto> (alignTo (esGsLdsSize cfg) 4 + 1024, 36),
                PrimitiveIndexMap \<mapsto> (alignTo (esGsLdsSize cfg) 4 + 1060, 1024),
                VertexCounts \<mapsto> (alignTo (esGsLdsSize cfg) 4 + 1024, 36),
                VertexIndexMap \<mapsto> (alignTo (esGsLdsSize cfg) 4 + 1060, 1024),
                XfbStats \<mapsto> (alignTo (esGsLdsSize cfg) 4 + 2084, 8),
                GsVsRing \<mapsto> (alignTo (esGsLdsSize cfg) 4 + 2092,
                             gsOnChipLdsSize cfg - alignTo (esGsLdsSize cfg) 4 - 2092)]
          else [EsGsRing \<mapsto> (0, alignTo (esGsLdsSize cfg) 4),
                PrimitiveData \<mapsto> (alignTo (esGsLdsSize cfg) 4, 1024),
                PrimitiveCounts \<mapsto> (alignTo (esGsLdsSize cfg) 4 + 1024, 36),
                PrimitiveIndexMap \<mapsto> (alignTo (esGsLdsSize cfg) 4 + 1060, 1024),
                VertexCounts \<mapsto> (alignTo (esGsLdsSize cfg) 4 + 1024, 36),
                XfbStats \<mapsto> (alignTo (esGsLdsSize cfg) 4 + 2084, 8),
                GsVsRing \<mapsto> (alignTo (esGsLdsSize cfg) 4 + 2092,
                             gsOnChipLdsSize cfg - alignTo (esGsLdsSize cfg) 4 - 2092)]),
       usageInfo = \<lparr> needsLds = True, esExtraLdsSize = 0, gsExtraLdsSize = 2092 \<rparr> \<rparr>"
  using assms by (simp add: layout_defs Let_def add.commute)


lemma unat_offsets:
  fixes E G :: i32
  assumes "unat E + 2092 \<le> unat G"
  shows "unat (E + 1024) = unat E + 1024" "unat (E + 1060) = unat E + 1060"
    "unat (E + 2084) = unat E + 2084" "unat (E + 2092) = unat E + 2092"
    "unat (G - E - 2092) = unat G - unat E - 2092"
proof -
  have G: "unat G < 2 ^ 32" using unsigned_less[of G] by simp
  have k: "\<And>k::nat. k \<le> 2092 \<Longrightarrow> unat (E + of_nat k) = unat E + k"
  proof -
    fix k :: nat assume "k \<le> 2092"
    then have "unat (of_nat k :: i32) = k" by (simp add: unat_of_nat)
    then show "unat (E + of_nat k) = unat E + k"
      using assms G \<open>k \<le> 2092\<close> by (simp add: unat_word_ariths)
  qed
  show "unat (E + 1024) = unat E + 1024" using k[of 1024] by simp
  show "unat (E + 1060) = unat E + 1060" using k[of 1060] by simp
  show "unat (E + 2084) = unat E + 2084" using k[of 2084] by simp
  show e: "unat (E + 2092) = unat E + 2092" using k[of 2092] by simp
  have "E + 2092 \<le> G" using assms e by (simp add: word_le_nat_alt)
  then have "unat (G - (E + 2092)) = unat G - unat (E + 2092)" by (rule unat_sub)
  then show "unat (G - E - 2092) = unat G - unat E - 2092"
    using e by (simp add: diff_diff_eq)
qed

text \<open>
  Claim C9, amended. With an API GS and software transform feedback the layout assigns
  the vertex counts the pair (offset, size) of the primitive counts and, under vertex
  compaction, the vertex index map the pair of the primitive index map: these are the two
  aliases the source documents. The transform-feedback statistics are a region of their
  own, 8 dwords placed right behind the primitive index map. Every other pair of regions
  is disjoint, provided the on-chip LDS size covers the ES-GS ring and the extra regions
  (otherwise the size of the GS-VS ring wraps around).
\<close>

theorem layout_gs_xfb_regions:
  assumes "hasGsStage cfg" and "enableSwXfb cfg"
    and "unat (alignTo (esGsLdsSize cfg) 4)
           + unat (gsExtraLdsSize (usageInfo (layoutPrimShaderLds cfg)))
         \<le> unat (gsOnChipLdsSize cfg)"
  shows "let L = ldsLayout (layoutPrimShaderLds cfg) in
     L VertexCounts = L PrimitiveCounts
   \<and> (layoutCompactVertex cfg \<longrightarrow> L VertexIndexMap = L PrimitiveIndexMap)
   \<and> (\<exists>off. L PrimitiveIndexMap = Some (off, 1024) \<and> L XfbStats = Some (off + 1024, 8))
   \<and> (\<forall>r1 r2 a b. L r1 = Some a \<longrightarrow> L r2 = Some b \<longrightarrow> r1 \<noteq> r2
         \<longrightarrow> {r1, r2} \<noteq> {VertexCounts, PrimitiveCounts}
         \<longrightarrow> {r1, r2} \<noteq> {VertexIndexMap, PrimitiveIndexMap}
         \<longrightarrow> regionsDisjoint a b)"
proof -
  define E where "E = alignTo (esGsLdsSize cfg) 4"
  define G where "G = gsOnChipLdsSize cfg"
  have lay: "layoutPrimShaderLds cfg = layoutWithGs cfg"
    using assms(1) by (simp add: layoutPrimShaderLds_def)
  note L = layoutWithGs_xfb[OF assms(2), folded E_def G_def]
  have "unat E + 2092 \<le> unat G"
    using assms(3) unfolding lay L E_def G_def by simp
  note u = unat_offsets[OF this]
  have dis: "regionsDisjoint a b"
    if "ldsLayout (layoutWithGs cfg) r1 = Some a" "ldsLayout (layoutWithGs cfg) r2 = Some b"
      "r1 \<noteq> r2" "{r1, r2} \<noteq> {VertexCounts, PrimitiveCounts}"
      "{r1, r2} \<noteq> {VertexIndexMap, PrimitiveIndexMap}" for r1 r2 a b
    using that unfolding L
    by (cases r1; cases r2; cases "layoutCompactVertex cfg")
       (auto simp: regionsDisjoint_def u doubleton_eq_iff)
  show ?thesis
    unfolding Let_def lay
  proof (intro conjI allI impI)
    show "ldsLayout (layoutWithGs cfg) VertexCounts = ldsLayout (layoutWithGs cfg) PrimitiveCounts"
      unfolding L by simp
    show "ldsLayout (layoutWithGs cfg) VertexIndexMap = ldsLayout (layoutWithGs cfg) PrimitiveIndexMap"
      if "layoutCompactVertex cfg"
      using that unfolding L by simp
    show "\<exists>off. ldsLayout (layoutWithGs cfg) PrimitiveIndexMap = Some (off, 1024)
             \<and> ldsLayout (layoutWithGs cfg) XfbStats = Some (off + 1024, 8)"
      unfolding L by simp
  qed (rule dis)
qed

lemma alignTo_example: "alignTo 62 4 = 64"
  by (simp add: alignTo_def)

text \<open>
  Claim C9 as stated fails: the primitive index map and the transform-feedback statistics
  do not get the same (offset, size).
\<close>

theorem layout_xfbStats_counterexample:
  "ldsLayout (layoutPrimShaderLds exampleLayoutConfig) PrimitiveIndexMap = Some (1124, 1024)
   \<and> ldsLayout (layoutPrimShaderLds exampleLayoutConfig) XfbStats = Some (2148, 8)"
  by (simp add: exampleLayoutConfig_def layoutPrimShaderLds_def layoutWithGs_xfb alignTo_example)

theorem layout_gs_xfb_regions_witness:
  "hasGsStage exampleLayoutConfig \<and> enableSwXfb exampleLayoutConfig
   \<and> unat (alignTo (esGsLdsSize exampleLayoutConfig) 4)
        + unat (gsExtraLdsSize (usageInfo (layoutPrimShaderLds exampleLayoutConfig)))
      \<le> unat (gsOnChipLdsSize exampleLayoutConfig)
   \<and> ldsLayout (layoutPrimShaderLds exampleLayoutConfig) VertexCounts = Some (1088, 36)
   \<and> ldsLayout (layoutPrimShaderLds exampleLayoutConfig) PrimitiveCounts = Some (1088, 36)
   \<and> ldsLayout (layoutPrimShaderLds exampleLayoutConfig) VertexIndexMap = Some (1124, 1024)
   \<and> ldsLayout (layoutPrimShaderLds exampleLayoutConfig) PrimitiveIndexMap = Some (1124, 1024)
   \<and> regionsDisjoint (1124, 1024) (2148, 8)"
  using layout_gs_xfb_regions [of exampleLayoutConfig]
  by (simp add: exampleLayoutConfig_def layoutPrimShaderLds_def layoutWithGs_xfb alignTo_example
      regionsDisjoint_def)

section \<open>Properties: wave-level operations\<close>

lemma length_filter_less_upt: "length (filter (\<lambda>n. n < k) [0..<m]) = min k m"
  by (induction m) auto

lemma ctpop_below:
  fixes w :: "'a::len word"
  assumes "\<And>n. n < LENGTH('a) \<Longrightarrow> bit w n \<longleftrightarrow> n < k"
  shows "ctpop w = min k LENGTH('a)"
proof -
  have "filter (bit w) [0..<LENGTH('a)] = filter (\<lambda>n. n < k) [0..<LENGTH('a)]"
    by (rule filter_cong) (auto simp: assms)
  then show ?thesis
    by (simp add: ctpop_def length_filter_less_upt)
qed

lemma ctpop_le: "ctpop (w :: 'a::len word) \<le> LENGTH('a)"
  unfolding ctpop_def by (rule order_trans[OF length_filter_le]) simp

lemma bit_threadMask: "bit (threadMask lane) n \<longleftrightarrow> n < 64 \<and> n < lane"
  by (auto simp: threadMask_def bit_mask_iff)

lemma mbcnt_lo_all: "mbcnt_lo lane (- 1) val = val + of_nat (min lane 32)"
proof -
  have "ctpop ((- 1 :: i32) AND ucast (threadMask lane)) = min lane 32"
    by (rule ctpop_below[where 'a=32, simplified])
       (auto simp: bit_and_iff bit_ucast_iff bit_threadMask)
  then show ?thesis by (simp add: mbcnt_lo_def)
qed

lemma mbcnt_hi_all: "lane \<le> 64 \<Longrightarrow> mbcnt_hi lane (- 1) val = val + of_nat (lane - 32)"
proof -
  assume "lane \<le> 64"
  have "ctpop ((- 1 :: i32) AND ucast (drop_bit 32 (threadMask lane))) = min (lane - 32) 32"
    by (rule ctpop_below[where 'a=32, simplified])
       (auto simp: bit_and_iff bit_ucast_iff bit_threadMask bit_drop_bit_eq)
  then show ?thesis using \<open>lane \<le> 64\<close> by (simp add: mbcnt_hi_def min_def)
qed

lemma threadIdInWave_eq:
  assumes "waveSz = 32 \<or> waveSz = 64" "lane < waveSz"
  shows "threadIdInWave (initWaveThreadInfo waveSz lane g wi r0 r1) = of_nat lane"
proof -
  have "lane < 32 \<Longrightarrow> min lane 32 = lane" by simp
  moreover have "\<not> lane < 32 \<Longrightarrow> min lane 32 + (lane - 32) = lane" by simp
  ultimately show ?thesis
    using assms
    by (cases "lane < 32")
       (auto simp: initWaveThreadInfo_def Let_def mbcnt_lo_all mbcnt_hi_all
          simp flip: of_nat_add)
qed

section \<open>Properties: threads of a well-formed dispatch\<close>

lemma in_threadsOf:
  "t \<in> set (threadsOf cfg inp) \<longleftrightarrow> fst t < numWaves inp \<and> snd t < waveSize cfg"
  by (cases t) (force simp: threadsOf_def)

lemma waveCount_cases:
  assumes "waveSize cfg = 32 \<or> waveSize cfg = 64"
  shows "waveCountInSubgroup cfg * waveSize cfg = 256"
    and "waveCountInSubgroup cfg < waveSize cfg"
    and "waveCountInSubgroup cfg \<le> 8"
  using assms by (auto simp: waveCountInSubgroup_def NggMaxThreadsPerSubgroup_def)

lemma wf_waveSize: "wellFormedDispatch cfg inp \<Longrightarrow> waveSize cfg = 32 \<or> waveSize cfg = 64"
  by (simp add: wellFormedDispatch_def)

lemma wf_numWaves:
  "wellFormedDispatch cfg inp \<Longrightarrow> 0 < numWaves inp \<and> numWaves inp \<le> waveCountInSubgroup cfg"
  by (simp add: wellFormedDispatch_def)

lemma wf_waveId:
  "wellFormedDispatch cfg inp \<Longrightarrow> w < numWaves inp
     \<Longrightarrow> createUBfe (mergedWaveInfo inp w) 24 4 = of_nat w"
  by (simp add: wellFormedDispatch_def list_all_iff)

lemma thread_index_bound:
  assumes "wellFormedDispatch cfg inp" "w < numWaves inp" "l < waveSize cfg"
  shows "w * waveSize cfg + l < 256"
proof -
  have "w + 1 \<le> waveCountInSubgroup cfg" using wf_numWaves[OF assms(1)] assms(2) by simp
  then have "(w + 1) * waveSize cfg \<le> waveCountInSubgroup cfg * waveSize cfg"
    by (rule mult_le_mono1)
  then show ?thesis
    using assms(3) waveCount_cases(1)[OF wf_waveSize[OF assms(1)]] by simp
qed

lemma nggInputs_fields:
  assumes wf: "wellFormedDispatch cfg inp" and w: "w < numWaves inp" and l: "l < waveSize cfg"
  shows "threadIdInWave (nggInputsOf cfg inp (w, l)) = of_nat l"
    and "waveIdInSubgroup (nggInputsOf cfg inp (w, l)) = of_nat w"
    and "threadIdInSubgroup (nggInputsOf cfg inp (w, l)) = of_nat (w * waveSize cfg + l)"
    and "vertCountInSubgroup (nggInputsOf cfg inp (w, l)) = createUBfe (mergedGroupInfo inp) 12 9"
    and "primCountInSubgroup (nggInputsOf cfg inp (w, l)) = createUBfe (mergedGroupInfo inp) 22 9"
proof -
  show a: "threadIdInWave (nggInputsOf cfg inp (w, l)) = of_nat l"
    unfolding nggInputsOf_def using threadIdInWave_eq[OF wf_waveSize[OF wf]] l by simp
  show b: "waveIdInSubgroup (nggInputsOf cfg inp (w, l)) = of_nat w"
    using wf_waveId[OF wf w] by (simp add: nggInputsOf_def initWaveThreadInfo_def Let_def)
  have "threadIdInSubgroup (nggInputsOf cfg inp (w, l))
          = waveIdInSubgroup (nggInputsOf cfg inp (w, l)) * of_nat (waveSize cfg)
            + threadIdInWave (nggInputsOf cfg inp (w, l))"
    by (simp add: nggInputsOf_def initWaveThreadInfo_def Let_def)
  then show "threadIdInSubgroup (nggInputsOf cfg inp (w, l)) = of_nat (w * waveSize cfg + l)"
    by (simp add: a b)
  show "vertCountInSubgroup (nggInputsOf cfg inp (w, l)) = createUBfe (mergedGroupInfo inp) 12 9"
    by (simp add: nggInputsOf_def initWaveThreadInfo_def Let_def)
  show "primCountInSubgroup (nggInputsOf cfg inp (w, l)) = createUBfe (mergedGroupInfo inp) 22 9"
    by (simp add: nggInputsOf_def initWaveThreadInfo_def Let_def)
qed

lemma unat_of_nat_small: "n < 2 ^ 32 \<Longrightarrow> unat (of_nat n :: i32) = n"
  by (simp add: unat_of_nat)

lemma unat_threadIdInSubgroup:
  assumes "wellFormedDispatch cfg inp" "w < numWaves inp" "l < waveSize cfg"
  shows "unat (threadIdInSubgroup (nggInputsOf cfg inp (w, l))) = w * waveSize cfg + l"
  using thread_index_bound[OF assms]
  by (simp only: nggInputs_fields(3)[OF assms]) (simp add: unat_of_nat_small del: of_nat_add of_nat_mult)

lemma of_nat_less_iff_small:
  "a < 2 ^ 32 \<Longrightarrow> b < 2 ^ 32 \<Longrightarrow> (of_nat a :: i32) < of_nat b \<longleftrightarrow> a < b"
  by (simp add: word_less_nat_alt unat_of_nat_small)

lemma of_nat_eq_iff_small:
  "a < 2 ^ 32 \<Longrightarrow> b < 2 ^ 32 \<Longrightarrow> (of_nat a :: i32) = of_nat b \<longleftrightarrow> a = b"
  by (metis unat_of_nat_small)

section \<open>Properties: the count-report message\<close>

text \<open>Only the wave whose wave id is 0 sends \<open>GS_ALLOC_REQ\<close>, and there is exactly one.\<close>

lemma filter_eq_upt: "filter (\<lambda>l. l = c) [0..<n] = (if c < n then [c] else [])"
  by (induction n) auto

lemma wave0_sends:
  assumes wf: "wellFormedDispatch cfg inp"
  shows "filter (\<lambda>w. waveIdInSubgroup (nggInputsOf cfg inp (w, 0)) = 0) [0..<numWaves inp] = [0]"
proof -
  have S: "0 < waveSize cfg" using wf_waveSize[OF wf] by auto
  have n: "0 < numWaves inp" "numWaves inp \<le> 8"
    using wf_numWaves[OF wf] waveCount_cases(3)[OF wf_waveSize[OF wf]] by auto
  have "filter (\<lambda>w. waveIdInSubgroup (nggInputsOf cfg inp (w, 0)) = 0) [0..<numWaves inp]
          = filter (\<lambda>w. w = 0) [0..<numWaves inp]"
  proof (rule filter_cong[OF refl])
    fix w assume "w \<in> set [0..<numWaves inp]"
    then have w: "w < numWaves inp" by simp
    have "(of_nat w :: i32) = of_nat 0 \<longleftrightarrow> w = 0"
      using w n by (intro of_nat_eq_iff_small) auto
    then show "(waveIdInSubgroup (nggInputsOf cfg inp (w, 0)) = 0) = (w = 0)"
      by (simp add: nggInputs_fields(2)[OF wf w S])
  qed
  also have "\<dots> = [0]" using n(1) by (simp add: filter_eq_upt)
  finally show ?thesis .
qed

lemma gsAllocReqMessages_eq:
  assumes wf: "wellFormedDispatch cfg inp"
  shows "gsAllocReqMessages cfg inp ts
           = [sendGsAllocReqMessage (primCountFinal (ts (0, 0))) (vertCountFinal (ts (0, 0)))]"
  by (simp add: gsAllocReqMessages_def wave0_sends[OF wf])

section \<open>Properties: runtime passthrough\<close>

text \<open>
  C10. When the position's Z channel is a compile-time constant, or the subgroup's decoded
  vertex count is below \<open>NggSmallSubgroupThreshold\<close>, the shader takes the
  runtime-passthrough path: the result does not depend on the floating-point unit nor on
  the culling registers and LDS is left as it was (no culler runs, nothing is compacted),
  no thread has its primitive culled, the subgroup is not fully culled, the final counts
  are the decoded ones and the single \<open>GS_ALLOC_REQ\<close> word carries them; every primitive
  export carries the connectivity of a surviving primitive.
\<close>

theorem runtime_passthrough_path:
  fixes fp fp' :: "('f, 'h) fpu"
  assumes wf: "wellFormedDispatch cfg inp"
    and small: "constPositionZ cfg
                  \<or> createUBfe (mergedGroupInfo inp) 12 9 < smallSubgroupThreshold cfg"
  shows "(let res = buildPrimShader fp cfg regs inp lds0;
              vertCount = createUBfe (mergedGroupInfo inp) 12 9;
              primCount = createUBfe (mergedGroupInfo inp) 22 9
          in resRuntimePassthrough res
             \<and> res = buildPrimShader fp' cfg regs' inp lds0
             \<and> resLds res = lds0
             \<and> (\<forall>t. \<not> compactVertexRt (resThread res t)
                      \<and> \<not> primitiveCulled (resThread res t)
                      \<and> \<not> fullyCulled (resThread res t)
                      \<and> vertCountFinal (resThread res t) = vertCount
                      \<and> primCountFinal (resThread res t) = primCount)
             \<and> resGsAllocReq res = [sendGsAllocReqMessage primCount vertCount]
             \<and> (\<forall>t. filter (\<lambda>e. exp_tgt e = EXP_TARGET_PRIM) (fst (resExports res t))
                        = (let ni = nggInputsOf cfg inp t
                           in if threadIdInSubgroup ni < primCount
                              then [\<lparr> exp_tgt = EXP_TARGET_PRIM, exp_en = 1,
                                      exp_src0 = Some (primConnectivityData (vertexIndex0 ni)
                                                         (vertexIndex1 ni) (vertexIndex2 ni) False),
                                      exp_done = True \<rparr>]
                              else [])))"
proof -
  have pt: "runtimePassthrough cfg inp"
    using small by (auto simp: runtimePassthrough_def)
  have cnt: "vertCountInSubgroup (nggInputsOf cfg inp t) = createUBfe (mergedGroupInfo inp) 12 9"
            "primCountInSubgroup (nggInputsOf cfg inp t) = createUBfe (mergedGroupInfo inp) 22 9"
    for t
    by (simp_all add: nggInputsOf_def initWaveThreadInfo_def Let_def)
  have msg: "gsAllocReqMessages cfg inp (threadStatePassthrough cfg inp)
               = [sendGsAllocReqMessage (createUBfe (mergedGroupInfo inp) 22 9)
                    (createUBfe (mergedGroupInfo inp) 12 9)]"
    by (simp add: gsAllocReqMessages_eq[OF wf] threadStatePassthrough_def cnt)
  have ex: "filter (\<lambda>e. exp_tgt e = EXP_TARGET_PRIM)
              (fst (threadExports cfg (nggInputsOf cfg inp t) (threadStatePassthrough cfg inp t) lds0))
              = (if threadIdInSubgroup (nggInputsOf cfg inp t) < createUBfe (mergedGroupInfo inp) 22 9
                 then [\<lparr> exp_tgt = EXP_TARGET_PRIM, exp_en = 1,
                         exp_src0 = Some (primConnectivityData (vertexIndex0 (nggInputsOf cfg inp t))
                                     (vertexIndex1 (nggInputsOf cfg inp t))
                                     (vertexIndex2 (nggInputsOf cfg inp t)) False),
                         exp_done = True \<rparr>]
                 else [])" for t
    by (simp add: threadExports_def threadStatePassthrough_def cnt Let_def exportPrimitive_def
          exportVertexIndices_def)
  have res: "buildPrimShader fq cfg rs inp lds0
               = \<lparr> resRuntimePassthrough = True, resLds = lds0,
                   resThread = threadStatePassthrough cfg inp,
                   resGsAllocReq = [sendGsAllocReqMessage (createUBfe (mergedGroupInfo inp) 22 9)
                                      (createUBfe (mergedGroupInfo inp) 12 9)],
                   resExports = (\<lambda>t. threadExports cfg (nggInputsOf cfg inp t)
                                         (threadStatePassthrough cfg inp t) lds0) \<rparr>"
    for fq :: "('f, 'h) fpu" and rs
    unfolding buildPrimShader_def by (simp only: pt if_True Let_def msg)
  show ?thesis
    unfolding Let_def res
    by (intro conjI allI) (simp_all add: ex, simp_all add: threadStatePassthrough_def cnt)
qed

theorem runtime_passthrough_path_witness:
  "wellFormedDispatch exampleConfig (exampleSubgroup 3 1)
   \<and> createUBfe (mergedGroupInfo (exampleSubgroup 3 1)) 12 9 < smallSubgroupThreshold exampleConfig
   \<and> resGsAllocReq (buildPrimShader ratFpu exampleConfig exampleRegs (exampleSubgroup 3 1) exampleLds)
       = [0x1003]
   \<and> filter (\<lambda>e. exp_tgt e = EXP_TARGET_PRIM)
         (fst (resExports (buildPrimShader ratFpu exampleConfig exampleRegs (exampleSubgroup 3 1)
                        exampleLds) (0, 0)))
       = [\<lparr> exp_tgt = EXP_TARGET_PRIM, exp_en = 1, exp_src0 = Some 0x300400, exp_done = True \<rparr>]"
proof -
  have wf: "wellFormedDispatch exampleConfig (exampleSubgroup 3 1)" by code_simp
  have small: "createUBfe (mergedGroupInfo (exampleSubgroup 3 1)) 12 9
                 < smallSubgroupThreshold exampleConfig" by code_simp
  have v: "sendGsAllocReqMessage (createUBfe (mergedGroupInfo (exampleSubgroup 3 1)) 22 9)
             (createUBfe (mergedGroupInfo (exampleSubgroup 3 1)) 12 9) = 0x1003"
    by code_simp
  have e: "(let ni = nggInputsOf exampleConfig (exampleSubgroup 3 1) (0, 0)
            in if threadIdInSubgroup ni < createUBfe (mergedGroupInfo (exampleSubgroup 3 1)) 22 9
               then [\<lparr> exp_tgt = EXP_TARGET_PRIM, exp_en = 1,
                       exp_src0 = Some (primConnectivityData (vertexIndex0 ni)
                                          (vertexIndex1 ni) (vertexIndex2 ni) False),
                       exp_done = True \<rparr>]
               else [])
           = [\<lparr> exp_tgt = EXP_TARGET_PRIM, exp_en = 1, exp_src0 = Some 0x300400, exp_done = True \<rparr>]"
    by code_simp
  from runtime_passthrough_path[OF wf disjI2[OF small], of ratFpu exampleRegs exampleLds ratFpu exampleRegs]
  show ?thesis
    using wf small v e by (simp add: Let_def)
qed

section \<open>Properties: ballots and population counts\<close>

lemma filter_less_conj_upt:
  "k \<le> m \<Longrightarrow> filter (\<lambda>n. n < k \<and> v n) [0..<m] = filter v [0..<k]"
proof -
  assume "k \<le> m"
  then have "[0..<m] = [0..<k] @ [k..<m]"
    by (metis le_add_diff_inverse upt_add_eq_append zero_le)
  moreover have "filter (\<lambda>n. n < k \<and> v n) [0..<k] = filter v [0..<k]"
    by (rule filter_cong) auto
  moreover have "filter (\<lambda>n. n < k \<and> v n) [k..<m] = []"
    by (simp add: filter_empty_conv)
  ultimately show ?thesis by simp
qed

lemma ctpop_filter:
  fixes w :: "'a::len word"
  assumes "\<And>n. n < LENGTH('a) \<Longrightarrow> bit w n \<longleftrightarrow> n < k \<and> v n" and "k \<le> LENGTH('a)"
  shows "ctpop w = length (filter v [0..<k])"
proof -
  have "filter (bit w) [0..<LENGTH('a)] = filter (\<lambda>n. n < k \<and> v n) [0..<LENGTH('a)]"
    by (rule filter_cong) (auto simp: assms(1))
  then show ?thesis
    by (simp add: ctpop_def filter_less_conj_upt[OF assms(2)])
qed

lemma bit_ballot:
  assumes "waveSz = 32 \<or> waveSz = 64"
  shows "bit (ballot waveSz val) n \<longleftrightarrow> n < waveSz \<and> val n"
  using assms
  by (auto simp: ballot_def bit_ucast_iff bit_horner_sum_bit_word_iff)

lemma ctpop_ballot:
  assumes "waveSz = 32 \<or> waveSz = 64"
  shows "ctpop (ballot waveSz val) = length (filter val [0..<waveSz])"
  using assms by (intro ctpop_filter) (auto simp: bit_ballot)

lemma filter_shift_upt:
  "filter (\<lambda>n. v (n + k)) [0..<m] = map (\<lambda>n. n - k) (filter v [k..<m + k])"
proof -
  have "[k..<m + k] = map (\<lambda>n. n + k) [0..<m]" by (simp add: map_add_upt)
  then show ?thesis by (simp add: filter_map comp_def)
qed

lemma mbcnt_lo_ballot:
  assumes "waveSz = 32 \<or> waveSz = 64" "lane \<le> waveSz"
  shows "mbcnt_lo lane (ucast (ballot waveSz val)) 0
           = of_nat (length (filter val [0..<min lane 32]))"
proof -
  have "ctpop ((ucast (ballot waveSz val) :: i32) AND ucast (threadMask lane))
          = length (filter val [0..<min lane 32])"
    using assms
    by (intro ctpop_filter) (auto simp: bit_and_iff bit_ucast_iff bit_threadMask bit_ballot)
  then show ?thesis by (simp add: mbcnt_lo_def)
qed

lemma mbcnt_hi_ballot:
  assumes "lane \<le> 64"
  shows "mbcnt_hi lane (ucast (drop_bit 32 (ballot 64 val))) c
           = c + of_nat (length (filter val [32..<lane]))"
proof -
  have "ctpop ((ucast (drop_bit 32 (ballot 64 val)) :: i32) AND ucast (drop_bit 32 (threadMask lane)))
          = length (filter (\<lambda>n. val (n + 32)) [0..<lane - 32])"
    using assms
    by (intro ctpop_filter)
       (auto simp: bit_and_iff bit_ucast_iff bit_threadMask bit_ballot bit_drop_bit_eq add.commute)
  also have "\<dots> = length (filter val [32..<lane])"
    by (cases "32 \<le> lane") (simp_all add: filter_shift_upt)
  finally show ?thesis by (simp add: mbcnt_hi_def)
qed

lemma length_filter_split_upt:
  "k \<le> m \<Longrightarrow> length (filter v [0..<k]) + length (filter v [k..<m]) = length (filter v [0..<m])"
proof -
  assume "k \<le> m"
  then have "[0..<m] = [0..<k] @ [k..<m]"
    by (metis le_add_diff_inverse upt_add_eq_append zero_le)
  then show ?thesis by simp
qed

section \<open>Properties: folds over the threads\<close>

lemma fold_field:
  assumes "\<And>t s. g (f t s) = h t (g s)"
  shows "g (fold f ts s) = fold h ts (g s)"
  by (induction ts arbitrary: s) (simp_all add: assms)

lemma fold_unchanged:
  assumes "\<And>t s. g (f t s) = g s"
  shows "g (fold f ts s) = g s"
  by (induction ts arbitrary: s) (simp_all add: assms)

lemma fold_cond_add:
  fixes f0 :: "nat \<Rightarrow> i32"
  shows "fold (\<lambda>t f. if P t then f(k t := f (k t) + v t) else f) ts f0 j
           = f0 j + sum_list (map v (filter (\<lambda>t. P t \<and> k t = j) ts))"
  by (induction ts arbitrary: f0) (auto simp: add.assoc)

lemma fold_cond_const:
  "fold (\<lambda>t f. if P t then f(k t := c) else f) ts f0 j
     = (if \<exists>t \<in> set ts. P t \<and> k t = j then c else f0 j)"
  by (induction ts arbitrary: f0) auto

lemma fold_cond_upd:
  assumes "t0 \<in> set ts" "P t0"
    and "\<And>t. t \<in> set ts \<Longrightarrow> P t \<Longrightarrow> k t = k t0 \<Longrightarrow> v t = v t0"
  shows "fold (\<lambda>t f. if P t then f(k t := v t) else f) ts f0 (k t0) = v t0"
  using assms
proof (induction ts arbitrary: f0 rule: rev_induct)
  case Nil
  then show ?case by simp
next
  case (snoc x xs)
  show ?case
  proof (cases "P x \<and> k x = k t0")
    case True
    then have "v x = v t0" using snoc.prems(3)[of x] by simp
    then show ?thesis using True by simp
  next
    case False
    then have in_xs: "t0 \<in> set xs" using snoc.prems(1,2) by auto
    have "fold (\<lambda>t f. if P t then f(k t := v t) else f) xs f0 (k t0) = v t0"
    proof (rule snoc.IH[OF in_xs snoc.prems(2)])
      fix t assume "t \<in> set xs" "P t" "k t = k t0"
      then show "v t = v t0" using snoc.prems(3)[of t] by simp
    qed
    then show ?thesis using False by (cases "P x") simp_all
  qed
qed

lemma sum_list_of_nat:
  "sum_list (map (\<lambda>x. of_nat (g x) :: i32) xs) = of_nat (sum_list (map g xs))"
  by (induction xs) auto

lemma sum_list_threads:
  "sum_list (map v (filter Q (concat (map (\<lambda>w. map (Pair w) ls) ws))))
     = sum_list (map (\<lambda>w. sum_list (map (\<lambda>l. v (w, l)) (filter (\<lambda>l. Q (w, l)) ls))) ws)"
  by (induction ws) (auto simp: filter_map comp_def)

lemma length_filter_threads:
  "length (filter Q (concat (map (\<lambda>w. map (Pair w) ls) ws)))
     = sum_list (map (\<lambda>w. length (filter (\<lambda>l. Q (w, l)) ls)) ws)"
  by (induction ws) (auto simp: filter_map comp_def)

lemma sum_list_if_less:
  fixes g :: "nat \<Rightarrow> i32"
  shows "sum_list (map (\<lambda>w. if w < j then g w else 0) [0..<n]) = sum_list (map g [0..<min j n])"
proof (induction n)
  case 0
  then show ?case by simp
next
  case (Suc n)
  then show ?case
    by (cases "j \<le> n"; cases "j = Suc n"; simp add: min_def)
qed

lemma distinct_threads:
  "distinct ls \<Longrightarrow> distinct ws \<Longrightarrow> distinct (concat (map (\<lambda>w. map (Pair w) ls) ws))"
  by (induction ws) (auto simp: distinct_map inj_on_def)

section \<open>Properties: ranks among the drawn threads\<close>

lemma length_filter_upt_strict:
  assumes "v l" "l < m"
  shows "length (filter v [0..<l]) < length (filter v [0..<m])"
proof -
  have "l \<in> set (filter v [l..<m])" using assms by simp
  then have "0 < length (filter v [l..<m])" by (rule length_pos_if_in_set)
  moreover have "length (filter v [0..<l]) + length (filter v [l..<m]) = length (filter v [0..<m])"
    using assms(2) by (intro length_filter_split_upt) simp
  ultimately show ?thesis by linarith
qed

lemma sum_list_upt_mono:
  fixes g :: "nat \<Rightarrow> nat"
  assumes "a \<le> b"
  shows "sum_list (map g [0..<a]) \<le> sum_list (map g [0..<b])"
proof -
  have "[0..<b] = [0..<a] @ [a..<b]"
    using assms by (metis le_add_diff_inverse upt_add_eq_append zero_le)
  then show ?thesis by simp
qed

lemma thread_order:
  fixes w w' l l' S :: nat
  assumes "l < S" "l' < S" "w * S + l < w' * S + l'"
  shows "w < w' \<or> (w = w' \<and> l < l')"
proof -
  consider "w < w'" | "w = w'" | "w' < w" by linarith
  then show ?thesis
  proof cases
    case 1
    then show ?thesis by simp
  next
    case 2
    then show ?thesis using assms(3) by simp
  next
    case 3
    then have "(w' + 1) * S \<le> w * S" by (intro mult_le_mono1) simp
    then have False using assms by simp
    then show ?thesis ..
  qed
qed

lemma rank_less_next_wave:
  fixes d :: "nat \<times> nat \<Rightarrow> bool"
  assumes "d (w, l)" "l < S"
  shows "sum_list (map (\<lambda>w. length (filter (\<lambda>l. d (w, l)) [0..<S])) [0..<w])
           + length (filter (\<lambda>l'. d (w, l')) [0..<l])
         < sum_list (map (\<lambda>w. length (filter (\<lambda>l. d (w, l)) [0..<S])) [0..<Suc w])"
  using length_filter_upt_strict[of "\<lambda>l'. d (w, l')" l S] assms by simp

lemma rank_mono:
  fixes d :: "nat \<times> nat \<Rightarrow> bool"
  assumes "d (w, l)" "l < S" "l' < S" "w * S + l < w' * S + l'"
  shows "sum_list (map (\<lambda>w. length (filter (\<lambda>l. d (w, l)) [0..<S])) [0..<w])
           + length (filter (\<lambda>l'. d (w, l')) [0..<l])
         < sum_list (map (\<lambda>w. length (filter (\<lambda>l. d (w, l)) [0..<S])) [0..<w'])
           + length (filter (\<lambda>l. d (w', l)) [0..<l'])"
proof -
  consider "w < w'" | "w = w'" "l < l'" using thread_order[OF assms(2,3,4)] by auto
  then show ?thesis
  proof cases
    case 1
    then have "Suc w \<le> w'" by simp
    from sum_list_upt_mono[OF this, of "\<lambda>w. length (filter (\<lambda>l. d (w, l)) [0..<S])"]
      rank_less_next_wave[of d w l S] assms(1,2)
    show ?thesis by linarith
  next
    case 2
    then show ?thesis
      using length_filter_upt_strict[of "\<lambda>l'. d (w, l')" l l'] assms(1) by simp
  qed
qed

lemma rank_bound:
  fixes d :: "nat \<times> nat \<Rightarrow> bool"
  assumes "d (w, l)" "l < S" "w < n"
  shows "sum_list (map (\<lambda>w. length (filter (\<lambda>l. d (w, l)) [0..<S])) [0..<w])
           + length (filter (\<lambda>l'. d (w, l')) [0..<l])
         < sum_list (map (\<lambda>w. length (filter (\<lambda>l. d (w, l)) [0..<S])) [0..<n])"
proof -
  have "Suc w \<le> n" using assms(3) by simp
  from sum_list_upt_mono[OF this, of "\<lambda>w. length (filter (\<lambda>l. d (w, l)) [0..<S])"]
    rank_less_next_wave[of d w l S] assms(1,2)
  show ?thesis by linarith
qed

lemma bij_betw_ranks:
  fixes r :: "'a \<Rightarrow> nat"
  assumes "distinct ts" "inj_on r {t \<in> set ts. d t}"
    and "\<And>t. t \<in> set ts \<Longrightarrow> d t \<Longrightarrow> r t < length (filter d ts)"
  shows "r ` {t \<in> set ts. d t} = {0..<length (filter d ts)}"
proof (rule card_subset_eq)
  show "finite {0..<length (filter d ts)}" by simp
  show "r ` {t \<in> set ts. d t} \<subseteq> {0..<length (filter d ts)}" using assms(3) by auto
  have "card (r ` {t \<in> set ts. d t}) = card {t \<in> set ts. d t}"
    by (rule card_image[OF assms(2)])
  also have "{t \<in> set ts. d t} = set (filter d ts)" by auto
  also have "card (set (filter d ts)) = length (filter d ts)"
    using assms(1) by (intro distinct_card) simp
  finally show "card (r ` {t \<in> set ts. d t}) = card {0..<length (filter d ts)}" by simp
qed

section \<open>Properties: the LDS regions each block writes\<close>

lemma threadsOf_eq:
  "threadsOf cfg inp = concat (map (\<lambda>w. map (Pair w) [0..<waveSize cfg]) [0..<numWaves inp])"
  by (simp add: threadsOf_def)

lemma counts_initVertDrawFlag:
  "ldsVertexCounts (fold (\<lambda>t. initVertDrawFlag (ni t)) ts lds) = ldsVertexCounts lds"
  by (rule fold_unchanged) (simp add: initVertDrawFlag_def)

lemma counts_writeVertCullData:
  "ldsVertexCounts (fold (\<lambda>t. writeVertCullData fp cfg (ni t) (p t) (c t)) ts lds)
     = ldsVertexCounts lds"
  by (rule fold_unchanged) (simp add: writeVertCullData_def Let_def)

lemma counts_writeVertDrawFlag:
  "ldsVertexCounts (fold (\<lambda>t. writeVertDrawFlag fp cfg regs (ni t)) ts lds) = ldsVertexCounts lds"
  by (rule fold_unchanged) (simp add: writeVertDrawFlag_def)

lemma counts_initVertCount:
  "ldsVertexCounts (fold (\<lambda>t. initVertCount cfg (ni t)) ts lds)
     = fold (\<lambda>t f. if threadIdInSubgroup (ni t) < of_nat (waveCountInSubgroup cfg + 1)
                     then f(unat (threadIdInSubgroup (ni t)) := 0) else f) ts (ldsVertexCounts lds)"
  by (rule fold_field) (simp add: initVertCount_def)

lemma drawFlag_accumVertCount:
  "ldsDrawFlag (fold (\<lambda>t. accumVertCount cfg (ni t) (c t)) ts lds) = ldsDrawFlag lds"
  by (rule fold_unchanged) (simp add: accumVertCount_def Let_def)

lemma counts_accumVertCount:
  "ldsVertexCounts (fold (\<lambda>t. accumVertCount cfg (ni t) (c t)) ts lds)
     = fold (\<lambda>t f. if threadIdInWave (ni t) < of_nat (waveCountInSubgroup cfg) - waveIdInSubgroup (ni t)
                     then f(unat (waveIdInSubgroup (ni t) + threadIdInWave (ni t) + 1)
                              := f (unat (waveIdInSubgroup (ni t) + threadIdInWave (ni t) + 1)) + c t)
                     else f) ts (ldsVertexCounts lds)"
  by (rule fold_field) (simp add: accumVertCount_def Let_def)

lemma counts_zero_afterCulling:
  assumes wf: "wellFormedDispatch cfg inp" and j: "j \<le> waveCountInSubgroup cfg"
  shows "ldsVertexCounts (ldsAfterCulling fp cfg regs inp lds0) j = 0"
proof -
  have S: "j < waveSize cfg" using j waveCount_cases(2)[OF wf_waveSize[OF wf]] by simp
  have n: "0 < numWaves inp" using wf_numWaves[OF wf] by simp
  have mem: "(0, j) \<in> set (threadsOf cfg inp)" using S n by (simp add: in_threadsOf)
  have C: "waveCountInSubgroup cfg \<le> 8" by (rule waveCount_cases(3)[OF wf_waveSize[OF wf]])
  have tid: "threadIdInSubgroup (nggInputsOf cfg inp (0, j)) = of_nat j"
    using nggInputs_fields(3)[OF wf n S] by simp
  have "(of_nat j :: i32) < of_nat (waveCountInSubgroup cfg + 1)"
    using j C by (subst of_nat_less_iff_small) auto
  moreover have "unat (of_nat j :: i32) = j" using j C by (intro unat_of_nat_small) auto
  ultimately have "\<exists>t \<in> set (threadsOf cfg inp).
      threadIdInSubgroup (nggInputsOf cfg inp t) < of_nat (waveCountInSubgroup cfg + 1)
      \<and> unat (threadIdInSubgroup (nggInputsOf cfg inp t)) = j"
    using mem tid by (intro bexI[of _ "(0, j)"]) auto
  then show ?thesis
    unfolding ldsAfterCulling_def ldsAfterWriteCullData_def Let_def
    by (simp only: counts_writeVertDrawFlag counts_writeVertCullData counts_initVertCount
          fold_cond_const if_True)
qed

section \<open>Properties: the vertex counts\<close>

lemma vertCountInWaveOf_eq:
  assumes wf: "wellFormedDispatch cfg inp"
  shows "vertCountInWaveOf cfg inp lds w
           = of_nat (length (filter (\<lambda>l. drawFlagOf (nggInputsOf cfg inp (w, l)) lds)
                               [0..<waveSize cfg]))"
proof -
  let ?c = "length (filter (\<lambda>l. drawFlagOf (nggInputsOf cfg inp (w, l)) lds) [0..<waveSize cfg])"
  have "?c \<le> waveSize cfg"
    by (rule order_trans[OF length_filter_le]) simp
  then have "?c < 2 ^ 64" using wf_waveSize[OF wf] by auto
  then have "(ucast (of_nat ?c :: i64) :: i32) = of_nat ?c"
    by (simp add: unsigned_of_nat take_bit_nat_eq_self)
  then show ?thesis
    by (simp add: vertCountInWaveOf_def drawMaskOf_def ctpop_ballot[OF wf_waveSize[OF wf]])
qed

lemma accum_lane:
  assumes wf: "wellFormedDispatch cfg inp" and w: "w < numWaves inp" and l: "l < waveSize cfg"
    and j: "j \<le> waveCountInSubgroup cfg"
  shows "(threadIdInWave (nggInputsOf cfg inp (w, l))
            < of_nat (waveCountInSubgroup cfg) - waveIdInSubgroup (nggInputsOf cfg inp (w, l))
          \<and> unat (waveIdInSubgroup (nggInputsOf cfg inp (w, l))
                   + threadIdInWave (nggInputsOf cfg inp (w, l)) + 1) = j)
         \<longleftrightarrow> (w < j \<and> l = j - w - 1)"
proof -
  have C: "waveCountInSubgroup cfg \<le> 8" by (rule waveCount_cases(3)[OF wf_waveSize[OF wf]])
  have wC: "w < waveCountInSubgroup cfg" using w wf_numWaves[OF wf] by simp
  have lS: "l < 64" using l wf_waveSize[OF wf] by auto
  have sub: "(of_nat (waveCountInSubgroup cfg) :: i32) - of_nat w = of_nat (waveCountInSubgroup cfg - w)"
    using wC by simp
  have lt: "(of_nat l :: i32) < of_nat (waveCountInSubgroup cfg - w) \<longleftrightarrow> l < waveCountInSubgroup cfg - w"
    using lS C by (intro of_nat_less_iff_small) auto
  have "(of_nat w :: i32) + of_nat l + 1 = of_nat (w + l + 1)" by simp
  moreover have "unat (of_nat (w + l + 1) :: i32) = w + l + 1"
    using lS C wC by (intro unat_of_nat_small) auto
  ultimately have off: "unat ((of_nat w :: i32) + of_nat l + 1) = w + l + 1" by (simp only:)
  show ?thesis
    unfolding nggInputs_fields(1,2)[OF wf w l] sub lt off using j by auto
qed

lemma accum_counts:
  assumes wf: "wellFormedDispatch cfg inp"
    and zero: "ldsVertexCounts lds2 j = 0"
    and j: "j \<le> waveCountInSubgroup cfg"
  shows "ldsVertexCounts (ldsAfterAccumVertCount cfg inp lds2) j
           = of_nat (sum_list (map (\<lambda>w. length (filter (\<lambda>l. drawFlagOf (nggInputsOf cfg inp (w, l)) lds2)
                                                   [0..<waveSize cfg]))
                                [0..<min j (numWaves inp)]))"
proof -
  let ?cnt = "\<lambda>w. length (filter (\<lambda>l. drawFlagOf (nggInputsOf cfg inp (w, l)) lds2) [0..<waveSize cfg])"
  let ?Q = "\<lambda>t. threadIdInWave (nggInputsOf cfg inp t)
                  < of_nat (waveCountInSubgroup cfg) - waveIdInSubgroup (nggInputsOf cfg inp t)
                \<and> unat (waveIdInSubgroup (nggInputsOf cfg inp t)
                         + threadIdInWave (nggInputsOf cfg inp t) + 1) = j"
  have jS: "j < waveSize cfg" using j waveCount_cases(2)[OF wf_waveSize[OF wf]] by simp
  have inner: "sum_list (map (\<lambda>l. vertCountInWaveOf cfg inp lds2 (fst (w, l)))
                           (filter (\<lambda>l. ?Q (w, l)) [0..<waveSize cfg]))
               = (if w < j then of_nat (?cnt w) else 0)"
    if w: "w \<in> set [0..<numWaves inp]" for w
  proof -
    have w': "w < numWaves inp" using w by simp
    have "filter (\<lambda>l. ?Q (w, l)) [0..<waveSize cfg]
            = filter (\<lambda>l. w < j \<and> l = j - w - 1) [0..<waveSize cfg]"
      by (rule filter_cong[OF refl]) (simp add: accum_lane[OF wf w' _ j])
    also have "\<dots> = (if w < j then [j - w - 1] else [])"
      using jS by (cases "w < j") (simp_all add: filter_eq_upt)
    finally show ?thesis by (simp add: vertCountInWaveOf_eq[OF wf])
  qed
  have "ldsVertexCounts (ldsAfterAccumVertCount cfg inp lds2) j
          = sum_list (map (\<lambda>t. vertCountInWaveOf cfg inp lds2 (fst t))
                        (filter ?Q (threadsOf cfg inp)))"
    unfolding ldsAfterAccumVertCount_def counts_accumVertCount fold_cond_add
    by (simp add: zero)
  also have "\<dots> = sum_list (map (\<lambda>w. if w < j then of_nat (?cnt w) else 0) [0..<numWaves inp])"
    unfolding threadsOf_eq sum_list_threads
    by (rule arg_cong[where f=sum_list], rule map_cong[OF refl]) (rule inner)
  also have "\<dots> = of_nat (sum_list (map ?cnt [0..<min j (numWaves inp)]))"
    by (simp only: sum_list_if_less sum_list_of_nat)
  finally show ?thesis .
qed

lemma drawFlagOf_afterAccum:
  "drawFlagOf ni (ldsAfterAccumVertCount cfg inp lds2) = drawFlagOf ni lds2"
  by (simp add: drawFlagOf_def ldsAfterAccumVertCount_def drawFlag_accumVertCount)

lemma drawMaskOf_afterAccum:
  "drawMaskOf cfg inp (ldsAfterAccumVertCount cfg inp lds2) w = drawMaskOf cfg inp lds2 w"
  by (simp add: drawMaskOf_def drawFlagOf_afterAccum)

lemma drawn_count_waves:
  "length (filter d (threadsOf cfg inp))
     = sum_list (map (\<lambda>w. length (filter (\<lambda>l. d (w, l)) [0..<waveSize cfg])) [0..<numWaves inp])"
  by (simp only: threadsOf_eq length_filter_threads)

lemma vertCountInSubgroupNew_eq:
  assumes wf: "wellFormedDispatch cfg inp"
    and zero: "ldsVertexCounts lds2 (waveCountInSubgroup cfg) = 0"
  shows "vertCountInSubgroupNew cfg inp (ldsAfterAccumVertCount cfg inp lds2) w
           = of_nat (length (filter (\<lambda>t. drawFlagOf (nggInputsOf cfg inp t) lds2)
                               (threadsOf cfg inp)))"
proof -
  have C: "waveCountInSubgroup cfg \<le> 8" "waveCountInSubgroup cfg < waveSize cfg"
    using waveCount_cases[OF wf_waveSize[OF wf]] by auto
  have u: "unat (of_nat (waveCountInSubgroup cfg) :: i32) = waveCountInSubgroup cfg"
    using C by (intro unat_of_nat_small) auto
  have lane: "threadIdInWave (nggInputsOf cfg inp (w, waveCountInSubgroup cfg))
                = of_nat (waveCountInSubgroup cfg)"
    unfolding nggInputsOf_def using threadIdInWave_eq[OF wf_waveSize[OF wf] C(2)] by simp
  have m: "min (waveCountInSubgroup cfg) (numWaves inp) = numWaves inp"
    using wf_numWaves[OF wf] by simp
  show ?thesis
    unfolding vertCountInSubgroupNew_def readlane_def vertCountInWavesOf_def u lane
    by (simp only: accum_counts[OF wf zero order_refl] m drawn_count_waves)
qed

lemma vertCountInPrevWaves_eq:
  assumes wf: "wellFormedDispatch cfg inp" and w: "w < numWaves inp" and l: "l < waveSize cfg"
    and zero: "ldsVertexCounts lds2 w = 0"
  shows "vertCountInPrevWaves cfg inp (ldsAfterAccumVertCount cfg inp lds2) (w, l)
           = of_nat (sum_list (map (\<lambda>w'. length (filter (\<lambda>l'. drawFlagOf (nggInputsOf cfg inp (w', l')) lds2)
                                                    [0..<waveSize cfg]))
                                [0..<w]))"
proof -
  have C: "waveCountInSubgroup cfg \<le> 8" "waveCountInSubgroup cfg < waveSize cfg"
    using waveCount_cases[OF wf_waveSize[OF wf]] by auto
  have wC: "w \<le> waveCountInSubgroup cfg" using w wf_numWaves[OF wf] by simp
  have u: "unat (of_nat w :: i32) = w"
    using C wC by (intro unat_of_nat_small) auto
  have wS: "w < waveSize cfg" using wC C by simp
  have lane: "threadIdInWave (nggInputsOf cfg inp (w, w)) = of_nat w"
    unfolding nggInputsOf_def using threadIdInWave_eq[OF wf_waveSize[OF wf] wS] by simp
  have m: "min w (numWaves inp) = w" using w by simp
  show ?thesis
    unfolding vertCountInPrevWaves_def readlane_def vertCountInWavesOf_def
      nggInputs_fields(2)[OF wf w l] fst_conv u lane
    by (simp only: accum_counts[OF wf zero wC] m)
qed

lemma compactedVertexIndexOf_eq:
  assumes wf: "wellFormedDispatch cfg inp" and w: "w < numWaves inp" and l: "l < waveSize cfg"
    and zero: "ldsVertexCounts lds2 w = 0"
  shows "compactedVertexIndexOf cfg inp (ldsAfterAccumVertCount cfg inp lds2) (w, l)
           = vertCountInPrevWaves cfg inp (ldsAfterAccumVertCount cfg inp lds2) (w, l)
             + of_nat (length (filter (\<lambda>l'. drawFlagOf (nggInputsOf cfg inp (w, l')) lds2) [0..<l]))"
proof -
  let ?d = "\<lambda>l'. drawFlagOf (nggInputsOf cfg inp (w, l')) lds2"
  have S: "waveSize cfg = 32 \<or> waveSize cfg = 64" by (rule wf_waveSize[OF wf])
  have l': "l \<le> waveSize cfg" using l by simp
  have lo: "mbcnt_lo l (ucast (ballot (waveSize cfg) ?d)) 0 = of_nat (length (filter ?d [0..<min l 32]))"
    by (rule mbcnt_lo_ballot[OF S l'])
  show ?thesis
  proof (cases "waveSize cfg = 64")
    case True
    have l64: "l \<le> 64" using l True by simp
    have hi: "mbcnt_hi l (ucast (drop_bit 32 (ballot 64 ?d))) c = c + of_nat (length (filter ?d [32..<l]))"
      for c by (rule mbcnt_hi_ballot[OF l64])
    have "length (filter ?d [0..<min l 32]) + length (filter ?d [32..<l]) = length (filter ?d [0..<l])"
    proof (cases "32 \<le> l")
      case True
      then show ?thesis by (simp add: min_def length_filter_split_upt)
    next
      case False
      then show ?thesis by (simp add: min_def)
    qed
    then have "(of_nat (length (filter ?d [0..<min l 32])) :: i32) + of_nat (length (filter ?d [32..<l]))
                 = of_nat (length (filter ?d [0..<l]))"
      by (simp only: flip: of_nat_add)
    then show ?thesis
      unfolding compactedVertexIndexOf_def Let_def drawMaskOf_def drawFlagOf_afterAccum fst_conv snd_conv
      using lo True by (simp add: hi)
  next
    case False
    then have "waveSize cfg = 32" using S by simp
    then have "min l 32 = l" using l by simp
    then show ?thesis
      unfolding compactedVertexIndexOf_def Let_def drawMaskOf_def drawFlagOf_afterAccum fst_conv snd_conv
      using lo False by simp
  qed
qed

section \<open>Properties: the compacted vertex index\<close>

lemma threadIndex_inj:
  assumes wf: "wellFormedDispatch cfg inp"
    and s: "s \<in> set (threadsOf cfg inp)" and t: "t \<in> set (threadsOf cfg inp)"
    and eq: "unat (threadIdInSubgroup (nggInputsOf cfg inp s))
               = unat (threadIdInSubgroup (nggInputsOf cfg inp t))"
  shows "s = t"
proof -
  obtain w l where s': "s = (w, l)" by (cases s)
  obtain w' l' where t': "t = (w', l')" by (cases t)
  have b: "w < numWaves inp" "l < waveSize cfg" "w' < numWaves inp" "l' < waveSize cfg"
    using s t by (simp_all add: s' t' in_threadsOf)
  have e: "w * waveSize cfg + l = w' * waveSize cfg + l'"
    using eq unfolding s' t'
    by (simp only: unat_threadIdInSubgroup[OF wf b(1,2)] unat_threadIdInSubgroup[OF wf b(3,4)])
  have "\<not> w * waveSize cfg + l < w' * waveSize cfg + l'"
       "\<not> w' * waveSize cfg + l' < w * waveSize cfg + l" using e by simp_all
  moreover have "w < w' \<or> w = w' \<and> l < l' \<or> w' < w \<or> w' = w \<and> l' < l \<or> (w = w' \<and> l = l')"
    by linarith
  moreover have "w < w' \<Longrightarrow> w * waveSize cfg + l < w' * waveSize cfg + l'"
  proof -
    assume "w < w'"
    then have "(w + 1) * waveSize cfg \<le> w' * waveSize cfg" by (intro mult_le_mono1) simp
    then show ?thesis using b(2) by simp
  qed
  moreover have "w' < w \<Longrightarrow> w' * waveSize cfg + l' < w * waveSize cfg + l"
  proof -
    assume "w' < w"
    then have "(w' + 1) * waveSize cfg \<le> w * waveSize cfg" by (intro mult_le_mono1) simp
    then show ?thesis using b(4) by simp
  qed
  ultimately show ?thesis unfolding s' t' using e by auto
qed

lemma compactedVertexIndexOf_drawnBefore:
  assumes wf: "wellFormedDispatch cfg inp" and t: "t \<in> set (threadsOf cfg inp)"
    and zero: "ldsVertexCounts lds2 (fst t) = 0"
  shows "compactedVertexIndexOf cfg inp (ldsAfterAccumVertCount cfg inp lds2) t
           = of_nat (drawnBefore cfg (\<lambda>t. drawFlagOf (nggInputsOf cfg inp t) lds2) t)"
proof -
  obtain w l where t': "t = (w, l)" by (cases t)
  have b: "w < numWaves inp" "l < waveSize cfg" using t by (simp_all add: t' in_threadsOf)
  have z: "ldsVertexCounts lds2 w = 0" using zero by (simp add: t')
  show ?thesis
    unfolding t' compactedVertexIndexOf_eq[OF wf b z] vertCountInPrevWaves_eq[OF wf b z]
      drawnBefore_def
    by simp
qed

lemma drawnBefore_less_total:
  assumes "t \<in> set (threadsOf cfg inp)" "d t"
  shows "drawnBefore cfg d t < length (filter d (threadsOf cfg inp))"
proof -
  obtain w l where t': "t = (w, l)" by (cases t)
  have b: "w < numWaves inp" "l < waveSize cfg" using assms(1) by (simp_all add: t' in_threadsOf)
  show ?thesis
    unfolding drawn_count_waves drawnBefore_def t' fst_conv snd_conv
    using rank_bound[of d w l "waveSize cfg" "numWaves inp"] assms(2) b by (simp add: t')
qed

lemma drawnBefore_mono:
  assumes wf: "wellFormedDispatch cfg inp"
    and s: "s \<in> set (threadsOf cfg inp)" and t: "t \<in> set (threadsOf cfg inp)"
    and d: "d s"
    and less: "unat (threadIdInSubgroup (nggInputsOf cfg inp s))
                 < unat (threadIdInSubgroup (nggInputsOf cfg inp t))"
  shows "drawnBefore cfg d s < drawnBefore cfg d t"
proof -
  obtain w l where s': "s = (w, l)" by (cases s)
  obtain w' l' where t': "t = (w', l')" by (cases t)
  have b: "w < numWaves inp" "l < waveSize cfg" "w' < numWaves inp" "l' < waveSize cfg"
    using s t by (simp_all add: s' t' in_threadsOf)
  have e: "w * waveSize cfg + l < w' * waveSize cfg + l'"
    using less unfolding s' t'
    by (simp only: unat_threadIdInSubgroup[OF wf b(1,2)] unat_threadIdInSubgroup[OF wf b(3,4)])
  show ?thesis
    unfolding drawnBefore_def s' t' fst_conv snd_conv
    using rank_mono[of d w l "waveSize cfg" l' w'] d b e by (simp add: s')
qed

lemma length_threadsOf:
  "length (threadsOf cfg inp) = numWaves inp * waveSize cfg"
  by (simp add: threadsOf_def length_concat comp_def sum_list_triv)

lemma drawn_count_le:
  assumes wf: "wellFormedDispatch cfg inp"
  shows "length (filter d (threadsOf cfg inp)) \<le> 256"
proof -
  have "numWaves inp * waveSize cfg \<le> waveCountInSubgroup cfg * waveSize cfg"
    using wf_numWaves[OF wf] by (intro mult_le_mono1) simp
  then have "length (threadsOf cfg inp) \<le> 256"
    using waveCount_cases(1)[OF wf_waveSize[OF wf]] by (simp add: length_threadsOf)
  then show ?thesis using length_filter_le[of d "threadsOf cfg inp"] by linarith
qed

lemma distinct_threadsOf: "distinct (threadsOf cfg inp)"
  unfolding threadsOf_eq by (rule distinct_threads) simp_all

lemma drawn_count_less_vertCount:
  assumes wf: "wellFormedDispatch cfg inp"
    and t0: "t0 \<in> set (threadsOf cfg inp)"
    and v0: "threadIdInSubgroup (nggInputsOf cfg inp t0) < vertCountInSubgroup (nggInputsOf cfg inp t0)"
    and nd: "\<not> drawFlagOf (nggInputsOf cfg inp t0) lds"
  shows "length (filter (\<lambda>t. drawFlagOf (nggInputsOf cfg inp t) lds) (threadsOf cfg inp))
           < unat (createUBfe (mergedGroupInfo inp) 12 9)"
proof -
  let ?d = "\<lambda>t. drawFlagOf (nggInputsOf cfg inp t) lds"
  let ?u = "\<lambda>t. unat (threadIdInSubgroup (nggInputsOf cfg inp t))"
  let ?V = "unat (createUBfe (mergedGroupInfo inp) 12 9)"
  let ?Dr = "set (filter ?d (threadsOf cfg inp))"
  have V: "vertCountInSubgroup (nggInputsOf cfg inp t) = createUBfe (mergedGroupInfo inp) 12 9" for t
    by (simp add: nggInputsOf_def initWaveThreadInfo_def Let_def)
  have inj: "inj_on ?u ?Dr"
  proof (rule inj_onI)
    fix s t assume "s \<in> ?Dr" "t \<in> ?Dr" "?u s = ?u t"
    then show "s = t" using threadIndex_inj[OF wf, of s t] by simp
  qed
  have u0: "?u t0 < ?V" using v0 by (simp add: V word_less_nat_alt)
  have sub: "?u ` ?Dr \<subseteq> {0..<?V} - {?u t0}"
  proof
    fix x assume "x \<in> ?u ` ?Dr"
    then obtain t where t: "t \<in> set (threadsOf cfg inp)" "?d t" "x = ?u t" by auto
    have "threadIdInSubgroup (nggInputsOf cfg inp t) < vertCountInSubgroup (nggInputsOf cfg inp t)"
      using t(2) by (simp add: drawFlagOf_def split: if_splits)
    then have "?u t < ?V" by (simp add: V word_less_nat_alt)
    moreover have "?u t \<noteq> ?u t0"
      using threadIndex_inj[OF wf t(1) t0] t(2) nd by auto
    ultimately show "x \<in> {0..<?V} - {?u t0}" using t(3) by simp
  qed
  have "length (filter ?d (threadsOf cfg inp)) = card ?Dr"
    by (rule distinct_card[symmetric]) (rule distinct_filter[OF distinct_threadsOf])
  also have "\<dots> = card (?u ` ?Dr)" by (rule card_image[OF inj, symmetric])
  also have "\<dots> \<le> card ({0..<?V} - {?u t0})" by (rule card_mono[OF _ sub]) simp
  also have "\<dots> = ?V - 1" using u0 by simp
  finally show ?thesis using u0 by linarith
qed

lemma hasCulledVertices_eq:
  assumes wf: "wellFormedDispatch cfg inp"
    and zero: "ldsVertexCounts lds2 (waveCountInSubgroup cfg) = 0"
  shows "hasCulledVertices cfg inp (ldsAfterAccumVertCount cfg inp lds2) t
           \<longleftrightarrow> length (filter (\<lambda>t. drawFlagOf (nggInputsOf cfg inp t) lds2) (threadsOf cfg inp))
                 < unat (createUBfe (mergedGroupInfo inp) 12 9)"
proof -
  let ?D = "length (filter (\<lambda>t. drawFlagOf (nggInputsOf cfg inp t) lds2) (threadsOf cfg inp))"
  have V: "vertCountInSubgroup (nggInputsOf cfg inp t) = createUBfe (mergedGroupInfo inp) 12 9"
    by (simp add: nggInputsOf_def initWaveThreadInfo_def Let_def)
  have "?D \<le> 256" by (rule drawn_count_le[OF wf])
  then have "unat (of_nat ?D :: i32) = ?D" by (intro unat_of_nat_small) simp
  then show ?thesis
    unfolding hasCulledVertices_def vertCountInSubgroupNew_eq[OF wf zero] V
    by (simp add: word_less_nat_alt)
qed

lemma compactedIndex_compactVert:
  "ldsCompactedVertexIndex (fold (compactVert cfg inp ldsB) ts lds)
     = fold (\<lambda>t f. if compactVertex (nggControl cfg) \<and> drawFlagOf (nggInputsOf cfg inp t) ldsB
                        \<and> hasCulledVertices cfg inp ldsB t
                     then f(unat (threadIdInSubgroup (nggInputsOf cfg inp t))
                              := compactedVertexIndexOf cfg inp ldsB t)
                     else f) ts (ldsCompactedVertexIndex lds)"
  by (rule fold_field) (simp add: compactVert_def Let_def)

lemma indexMap_compactVert:
  "ldsVertexIndexMap (fold (compactVert cfg inp ldsB) ts lds)
     = fold (\<lambda>t f. if compactVertex (nggControl cfg) \<and> drawFlagOf (nggInputsOf cfg inp t) ldsB
                        \<and> hasCulledVertices cfg inp ldsB t
                     then f(unat (compactedVertexIndexOf cfg inp ldsB t)
                              := threadIdInSubgroup (nggInputsOf cfg inp t))
                     else f) ts (ldsVertexIndexMap lds)"
  by (rule fold_field) (simp add: compactVert_def Let_def)

lemma compaction_writes:
  assumes wf: "wellFormedDispatch cfg inp"
    and compact: "compactVertex (nggControl cfg)"
    and zero: "\<And>j. j \<le> waveCountInSubgroup cfg \<Longrightarrow> ldsVertexCounts lds2 j = 0"
    and culled: "length (filter (\<lambda>t. drawFlagOf (nggInputsOf cfg inp t) lds2) (threadsOf cfg inp))
                   < unat (createUBfe (mergedGroupInfo inp) 12 9)"
    and t: "t \<in> set (threadsOf cfg inp)"
    and dt: "drawFlagOf (nggInputsOf cfg inp t) lds2"
  shows "ldsCompactedVertexIndex (ldsAfterCompactVert cfg inp (ldsAfterAccumVertCount cfg inp lds2))
           (unat (threadIdInSubgroup (nggInputsOf cfg inp t)))
         = of_nat (drawnBefore cfg (\<lambda>t. drawFlagOf (nggInputsOf cfg inp t) lds2) t)"
    and "ldsVertexIndexMap (ldsAfterCompactVert cfg inp (ldsAfterAccumVertCount cfg inp lds2))
           (drawnBefore cfg (\<lambda>t. drawFlagOf (nggInputsOf cfg inp t) lds2) t)
         = threadIdInSubgroup (nggInputsOf cfg inp t)"
proof -
  let ?lds3 = "ldsAfterAccumVertCount cfg inp lds2"
  let ?d = "\<lambda>t. drawFlagOf (nggInputsOf cfg inp t) lds2"
  let ?P = "\<lambda>t. compactVertex (nggControl cfg) \<and> drawFlagOf (nggInputsOf cfg inp t) ?lds3
                  \<and> hasCulledVertices cfg inp ?lds3 t"
  let ?tid = "\<lambda>t. threadIdInSubgroup (nggInputsOf cfg inp t)"
  let ?cidx = "compactedVertexIndexOf cfg inp ?lds3"
  have P: "?P s \<longleftrightarrow> ?d s" for s
    using compact culled
    by (simp add: drawFlagOf_afterAccum hasCulledVertices_eq[OF wf zero[OF order_refl]])
  have wC: "fst s \<le> waveCountInSubgroup cfg" if "s \<in> set (threadsOf cfg inp)" for s
    using that wf_numWaves[OF wf] by (simp add: in_threadsOf)
  have cidx: "?cidx s = of_nat (drawnBefore cfg ?d s)" if "s \<in> set (threadsOf cfg inp)" for s
    by (rule compactedVertexIndexOf_drawnBefore[OF wf that zero[OF wC[OF that]]])
  have small: "drawnBefore cfg ?d s < 2 ^ 32" if "s \<in> set (threadsOf cfg inp)" "?d s" for s
    using drawnBefore_less_total[of s cfg inp ?d, OF that] drawn_count_le[OF wf, of ?d] by simp
  have ucidx: "unat (?cidx s) = drawnBefore cfg ?d s" if "s \<in> set (threadsOf cfg inp)" "?d s" for s
    unfolding cidx[OF that(1)] by (rule unat_of_nat_small[OF small[OF that]])
  have "fold (\<lambda>t f. if ?P t then f(unat (?tid t) := ?cidx t) else f) (threadsOf cfg inp)
          (ldsCompactedVertexIndex ?lds3) (unat (?tid t)) = ?cidx t"
  proof (rule fold_cond_upd[where k="\<lambda>t. unat (?tid t)" and v="?cidx" and P="?P", OF t])
    show "?P t" using dt by (simp only: P)
    fix s assume "s \<in> set (threadsOf cfg inp)" "?P s" "unat (?tid s) = unat (?tid t)"
    then have "s = t" using threadIndex_inj[OF wf _ t] by simp
    then show "?cidx s = ?cidx t" by simp
  qed
  then show "ldsCompactedVertexIndex (ldsAfterCompactVert cfg inp ?lds3) (unat (?tid t))
               = of_nat (drawnBefore cfg ?d t)"
    unfolding ldsAfterCompactVert_def compactedIndex_compactVert by (simp only: cidx[OF t])
  have "fold (\<lambda>t f. if ?P t then f(unat (?cidx t) := ?tid t) else f) (threadsOf cfg inp)
          (ldsVertexIndexMap ?lds3) (unat (?cidx t)) = ?tid t"
  proof (rule fold_cond_upd[where k="\<lambda>t. unat (?cidx t)" and v="?tid" and P="?P", OF t])
    show "?P t" using dt by (simp only: P)
    fix s assume s: "s \<in> set (threadsOf cfg inp)" "?P s" "unat (?cidx s) = unat (?cidx t)"
    then have ds: "?d s" by (simp only: P)
    have eq: "drawnBefore cfg ?d s = drawnBefore cfg ?d t"
      using s(3) by (simp only: ucidx[OF s(1) ds] ucidx[OF t dt])
    have "\<not> unat (?tid s) < unat (?tid t)"
      using drawnBefore_mono[OF wf s(1) t, of ?d] ds eq by auto
    moreover have "\<not> unat (?tid t) < unat (?tid s)"
      using drawnBefore_mono[OF wf t s(1), of ?d] dt eq by auto
    ultimately have "unat (?tid s) = unat (?tid t)" by linarith
    then show "?tid s = ?tid t" by (rule word_unat_eq_iff[THEN iffD2])
  qed
  then show "ldsVertexIndexMap (ldsAfterCompactVert cfg inp ?lds3) (drawnBefore cfg ?d t) = ?tid t"
    unfolding ldsAfterCompactVert_def indexMap_compactVert by (simp only: ucidx[OF t dt])
qed

lemma buildPrimShader_culling:
  assumes "\<not> runtimePassthrough cfg inp"
  shows "resLds (buildPrimShader fp cfg regs inp lds0)
           = ldsAfterCompactVert cfg inp
               (ldsAfterAccumVertCount cfg inp (ldsAfterCulling fp cfg regs inp lds0))"
    and "resThread (buildPrimShader fp cfg regs inp lds0)
           = threadStateCulling fp cfg regs inp (ldsAfterWriteCullData fp cfg inp lds0)
               (ldsAfterCulling fp cfg regs inp lds0)
               (ldsAfterAccumVertCount cfg inp (ldsAfterCulling fp cfg regs inp lds0))"
    and "resGsAllocReq (buildPrimShader fp cfg regs inp lds0)
           = gsAllocReqMessages cfg inp (resThread (buildPrimShader fp cfg regs inp lds0))"
    and "resExports (buildPrimShader fp cfg regs inp lds0)
           = (\<lambda>t. threadExports cfg (nggInputsOf cfg inp t)
                     (resThread (buildPrimShader fp cfg regs inp lds0) t)
                     (resLds (buildPrimShader fp cfg regs inp lds0)))"
  using assms by (simp_all add: buildPrimShader_def Let_def)

lemma drawFlagFinal_culling:
  assumes "\<not> runtimePassthrough cfg inp"
  shows "drawFlagFinal (resThread (buildPrimShader fp cfg regs inp lds0) t)
           = drawFlagOf (nggInputsOf cfg inp t) (ldsAfterCulling fp cfg regs inp lds0)"
  by (simp add: buildPrimShader_culling(2)[OF assms] threadStateCulling_def Let_def)

text \<open>
  C1. In the culling path with vertex compaction, when at least one vertex of the
  subgroup is not drawn: the compacted index that a thread with a drawn vertex stores in
  LDS is the count of the preceding waves (read from the vertex counts at its wave id,
  and equal to the number of drawn vertices of the waves before its own) plus the number
  of drawn lanes below its own lane; the index map sends it back to the thread; the
  compacted indices of the drawn vertices are exactly \<open>0, \<dots>, D - 1\<close>, without repeats,
  and they grow with the thread id in the subgroup.
\<close>

theorem compaction_bijection:
  assumes wf: "wellFormedDispatch cfg inp"
    and culling: "\<not> runtimePassthrough cfg inp"
    and compact: "compactVertex (nggControl cfg)"
    and culled: "\<exists>t \<in> set (threadsOf cfg inp).
                   threadIdInSubgroup (nggInputsOf cfg inp t) < vertCountInSubgroup (nggInputsOf cfg inp t)
                   \<and> \<not> drawFlagFinal (resThread (buildPrimShader fp cfg regs inp lds0) t)"
  shows "(let res = buildPrimShader fp cfg regs inp lds0;
              lds3 = ldsAfterAccumVertCount cfg inp (ldsAfterCulling fp cfg regs inp lds0);
              ths = threadsOf cfg inp;
              drawn = (\<lambda>t. drawFlagFinal (resThread res t));
              tid = (\<lambda>t. threadIdInSubgroup (nggInputsOf cfg inp t));
              idx = (\<lambda>t. ldsCompactedVertexIndex (resLds res) (unat (tid t)));
              D = length (filter drawn ths)
          in (\<forall>t \<in> set ths. drawn t \<longrightarrow>
                idx t = vertCountInPrevWaves cfg inp lds3 t
                          + of_nat (length (filter (\<lambda>l. drawn (fst t, l)) [0..<snd t]))
                \<and> unat (vertCountInPrevWaves cfg inp lds3 t)
                    = sum_list (map (\<lambda>w. length (filter (\<lambda>l. drawn (w, l)) [0..<waveSize cfg]))
                                  [0..<fst t])
                \<and> unat (idx t) = drawnBefore cfg drawn t
                \<and> ldsVertexIndexMap (resLds res) (unat (idx t)) = tid t)
             \<and> (\<lambda>t. unat (idx t)) ` {t \<in> set ths. drawn t} = {0..<D}
             \<and> inj_on idx {t \<in> set ths. drawn t}
             \<and> (\<forall>s \<in> set ths. \<forall>t \<in> set ths.
                   drawn s \<longrightarrow> drawn t \<longrightarrow> tid s < tid t \<longrightarrow> idx s < idx t))"
proof -
  let ?lds2 = "ldsAfterCulling fp cfg regs inp lds0"
  let ?lds3 = "ldsAfterAccumVertCount cfg inp ?lds2"
  let ?lds4 = "ldsAfterCompactVert cfg inp ?lds3"
  let ?ths = "threadsOf cfg inp"
  let ?d = "\<lambda>t. drawFlagOf (nggInputsOf cfg inp t) ?lds2"
  let ?tid = "\<lambda>t. threadIdInSubgroup (nggInputsOf cfg inp t)"
  let ?idx = "\<lambda>t. ldsCompactedVertexIndex ?lds4 (unat (?tid t))"
  let ?D = "length (filter ?d ?ths)"
  have zero: "ldsVertexCounts ?lds2 j = 0" if "j \<le> waveCountInSubgroup cfg" for j
    by (rule counts_zero_afterCulling[OF wf that])
  obtain t0 where t0: "t0 \<in> set ?ths" "?tid t0 < vertCountInSubgroup (nggInputsOf cfg inp t0)" "\<not> ?d t0"
    using culled by (auto simp: drawFlagFinal_culling[OF culling])
  have less: "?D < unat (createUBfe (mergedGroupInfo inp) 12 9)"
    by (rule drawn_count_less_vertCount[OF wf t0])
  have idx: "?idx t = of_nat (drawnBefore cfg ?d t)" if "t \<in> set ?ths" "?d t" for t
    by (rule compaction_writes(1)[OF wf compact zero less that])
  have small: "drawnBefore cfg ?d t < 2 ^ 32" if "t \<in> set ?ths" "?d t" for t
    using drawnBefore_less_total[of t cfg inp ?d, OF that] drawn_count_le[OF wf, of ?d] by simp
  have uidx: "unat (?idx t) = drawnBefore cfg ?d t" if "t \<in> set ?ths" "?d t" for t
    unfolding idx[OF that] by (rule unat_of_nat_small[OF small[OF that]])
  have wC: "fst t \<le> waveCountInSubgroup cfg" "fst t < numWaves inp" "snd t < waveSize cfg"
    if "t \<in> set ?ths" for t
    using that wf_numWaves[OF wf] by (simp_all add: in_threadsOf)
  have prev: "vertCountInPrevWaves cfg inp ?lds3 t
                = of_nat (sum_list (map (\<lambda>w. length (filter (\<lambda>l. ?d (w, l)) [0..<waveSize cfg]))
                                      [0..<fst t]))"
    if "t \<in> set ?ths" for t
    using vertCountInPrevWaves_eq[OF wf wC(2,3)[OF that] zero[OF wC(1)[OF that]]] by simp
  have a1: "?idx t = vertCountInPrevWaves cfg inp ?lds3 t
                       + of_nat (length (filter (\<lambda>l. ?d (fst t, l)) [0..<snd t]))"
    if "t \<in> set ?ths" "?d t" for t
    unfolding idx[OF that] prev[OF that(1)] drawnBefore_def by simp
  have a2: "unat (vertCountInPrevWaves cfg inp ?lds3 t)
              = sum_list (map (\<lambda>w. length (filter (\<lambda>l. ?d (w, l)) [0..<waveSize cfg])) [0..<fst t])"
    if "t \<in> set ?ths" "?d t" for t
  proof -
    have "sum_list (map (\<lambda>w. length (filter (\<lambda>l. ?d (w, l)) [0..<waveSize cfg])) [0..<fst t])
            \<le> drawnBefore cfg ?d t" by (simp add: drawnBefore_def)
    then have "sum_list (map (\<lambda>w. length (filter (\<lambda>l. ?d (w, l)) [0..<waveSize cfg])) [0..<fst t])
                 < 2 ^ 32" using small[OF that] by linarith
    then show ?thesis unfolding prev[OF that(1)] by (rule unat_of_nat_small)
  qed
  have a4: "ldsVertexIndexMap ?lds4 (unat (?idx t)) = ?tid t" if "t \<in> set ?ths" "?d t" for t
    unfolding uidx[OF that] by (rule compaction_writes(2)[OF wf compact zero less that])
  have mono: "drawnBefore cfg ?d s < drawnBefore cfg ?d t"
    if "s \<in> set ?ths" "t \<in> set ?ths" "?d s" "?tid s < ?tid t" for s t
    using drawnBefore_mono[OF wf that(1,2), of ?d] that(3,4) by (simp add: word_less_nat_alt)
  have inj: "inj_on (drawnBefore cfg ?d) {t \<in> set ?ths. ?d t}"
  proof (rule inj_onI)
    fix s t assume s: "s \<in> {t \<in> set ?ths. ?d t}" and t: "t \<in> {t \<in> set ?ths. ?d t}"
      and eq: "drawnBefore cfg ?d s = drawnBefore cfg ?d t"
    have "\<not> unat (?tid s) < unat (?tid t)"
      using drawnBefore_mono[OF wf, of s t ?d] s t eq by auto
    moreover have "\<not> unat (?tid t) < unat (?tid s)"
      using drawnBefore_mono[OF wf, of t s ?d] s t eq by auto
    ultimately have "unat (?tid s) = unat (?tid t)" by linarith
    then show "s = t" using threadIndex_inj[OF wf, of s t] s t by simp
  qed
  have b: "(\<lambda>t. unat (?idx t)) ` {t \<in> set ?ths. ?d t} = {0..<?D}"
  proof -
    have "(\<lambda>t. unat (?idx t)) ` {t \<in> set ?ths. ?d t} = drawnBefore cfg ?d ` {t \<in> set ?ths. ?d t}"
      by (rule image_cong[OF refl]) (simp add: uidx)
    also have "\<dots> = {0..<?D}"
      by (rule bij_betw_ranks[OF distinct_threadsOf inj]) (rule drawnBefore_less_total)
    finally show ?thesis .
  qed
  have c: "inj_on ?idx {t \<in> set ?ths. ?d t}"
  proof (rule inj_onI)
    fix s t assume s: "s \<in> {t \<in> set ?ths. ?d t}" and t: "t \<in> {t \<in> set ?ths. ?d t}"
      and eq: "?idx s = ?idx t"
    have "unat (?idx s) = unat (?idx t)" using eq by simp
    then have "drawnBefore cfg ?d s = drawnBefore cfg ?d t" using s t by (simp add: uidx)
    then show "s = t" by (rule inj_onD[OF inj _ s t])
  qed
  have d: "?idx s < ?idx t" if "s \<in> set ?ths" "t \<in> set ?ths" "?d s" "?d t" "?tid s < ?tid t" for s t
    using mono[OF that(1,2,3,5)] by (simp add: word_less_nat_alt uidx that)
  show ?thesis
    unfolding Let_def buildPrimShader_culling(1)[OF culling] drawFlagFinal_culling[OF culling]
    using a1 a2 uidx a4 b c d by blast
qed

lemma example_drawn_threads:
  "filter (\<lambda>t. drawFlagOf (nggInputsOf exampleConfig (exampleSubgroup 16 1) t)
                (ldsAfterCulling ratFpu exampleConfig exampleRegs (exampleSubgroup 16 1) exampleLds))
     (threadsOf exampleConfig (exampleSubgroup 16 1))
   = [(0, 0), (0, 1), (0, 3)]"
  by code_simp

theorem compaction_bijection_witness:
  "wellFormedDispatch exampleConfig (exampleSubgroup 16 1)
   \<and> \<not> runtimePassthrough exampleConfig (exampleSubgroup 16 1)
   \<and> unat (ldsCompactedVertexIndex
              (resLds (buildPrimShader ratFpu exampleConfig exampleRegs (exampleSubgroup 16 1)
                         exampleLds)) 3) = 2
   \<and> ldsVertexIndexMap
        (resLds (buildPrimShader ratFpu exampleConfig exampleRegs (exampleSubgroup 16 1)
                   exampleLds)) 2 = 3"
proof -
  let ?inp = "exampleSubgroup 16 1"
  let ?res = "buildPrimShader ratFpu exampleConfig exampleRegs ?inp exampleLds"
  let ?drawn = "\<lambda>t. drawFlagFinal (resThread ?res t)"
  have wf: "wellFormedDispatch exampleConfig ?inp" by code_simp
  have culling: "\<not> runtimePassthrough exampleConfig ?inp" by code_simp
  have compact: "compactVertex (nggControl exampleConfig)" by code_simp
  have dfl: "?drawn t = drawFlagOf (nggInputsOf exampleConfig ?inp t)
                           (ldsAfterCulling ratFpu exampleConfig exampleRegs ?inp exampleLds)" for t
    by (rule drawFlagFinal_culling[OF culling])
  have mem: "(0, l) \<in> set (threadsOf exampleConfig ?inp)" if "l < 32" for l
    using that by (simp add: in_threadsOf exampleConfig_def exampleSubgroup_def)
  have mem2: "(0, 2) \<in> set (threadsOf exampleConfig ?inp)" by (rule mem) simp
  have mem3: "(0, 3) \<in> set (threadsOf exampleConfig ?inp)" by (rule mem) simp
  have dset: "set (filter ?drawn (threadsOf exampleConfig ?inp)) = {(0, 0), (0, 1), (0, 3)}"
    unfolding dfl example_drawn_threads by simp
  have drawn: "?drawn (0, l) \<longleftrightarrow> (0 :: nat, l) \<in> {(0, 0), (0, 1), (0, 3)}" if "l < 32" for l
  proof -
    have "(0, l) \<in> set (filter ?drawn (threadsOf exampleConfig ?inp)) \<longleftrightarrow> ?drawn (0, l)"
      using mem[OF that] by (simp only: set_filter mem_Collect_eq simp_thms)
    then show ?thesis unfolding dset by (rule sym)
  qed
  have fl: "?drawn (0, 0)" "?drawn (0, 1)" "\<not> ?drawn (0, 2)" "?drawn (0, 3)"
    using drawn[of 0] drawn[of 1] drawn[of 2] drawn[of 3] by simp_all
  have tid2: "threadIdInSubgroup (nggInputsOf exampleConfig ?inp (0, 2))
                < vertCountInSubgroup (nggInputsOf exampleConfig ?inp (0, 2))" by code_simp
  have tid3: "threadIdInSubgroup (nggInputsOf exampleConfig ?inp (0, 3)) = 3" by code_simp
  have culled: "\<exists>t \<in> set (threadsOf exampleConfig ?inp).
                  threadIdInSubgroup (nggInputsOf exampleConfig ?inp t)
                    < vertCountInSubgroup (nggInputsOf exampleConfig ?inp t)
                  \<and> \<not> ?drawn t"
    using mem2 tid2 fl(3) by blast
  have lanes: "[0..<3] = [0, 1, 2::nat]" by code_simp
  have db: "drawnBefore exampleConfig ?drawn (0, 3) = 2"
    unfolding drawnBefore_def fst_conv snd_conv lanes using fl by simp
  from compaction_bijection[OF wf culling compact culled, unfolded Let_def]
  have "\<forall>t \<in> set (threadsOf exampleConfig ?inp). ?drawn t \<longrightarrow>
          unat (ldsCompactedVertexIndex (resLds ?res)
                  (unat (threadIdInSubgroup (nggInputsOf exampleConfig ?inp t))))
            = drawnBefore exampleConfig ?drawn t
          \<and> ldsVertexIndexMap (resLds ?res)
               (unat (ldsCompactedVertexIndex (resLds ?res)
                        (unat (threadIdInSubgroup (nggInputsOf exampleConfig ?inp t)))))
            = threadIdInSubgroup (nggInputsOf exampleConfig ?inp t)"
    by blast
  from bspec[OF this mem3] fl(4)
  have A: "unat (ldsCompactedVertexIndex (resLds ?res)
                   (unat (threadIdInSubgroup (nggInputsOf exampleConfig ?inp (0, 3)))))
             = drawnBefore exampleConfig ?drawn (0, 3)"
    and B: "ldsVertexIndexMap (resLds ?res)
              (unat (ldsCompactedVertexIndex (resLds ?res)
                       (unat (threadIdInSubgroup (nggInputsOf exampleConfig ?inp (0, 3))))))
             = threadIdInSubgroup (nggInputsOf exampleConfig ?inp (0, 3))"
    by blast+
  have u3: "unat (3 :: i32) = 3" by simp
  note A' = A[unfolded tid3 db u3]
  note B' = B[unfolded tid3 u3 A']
  show ?thesis by (intro conjI) (rule wf culling A' B')+
qed

section \<open>Properties: the final counts\<close>

lemma message_fields:
  assumes "(v :: i32) < 2 ^ 11" "(p :: i32) < 2 ^ 11"
  shows "createUBfe (sendGsAllocReqMessage p v) 0 11 = v"
    and "createUBfe (sendGsAllocReqMessage p v) 12 11 = p"
proof -
  have bv: "\<And>n. bit v n \<Longrightarrow> n < 11" using assms(1) small_word_bits by blast
  have bp: "\<And>n. bit p n \<Longrightarrow> n < 11" using assms(2) small_word_bits by blast
  show "createUBfe (sendGsAllocReqMessage p v) 0 11 = v"
  proof (rule createUBfe_eqI)
    fix n
    show "bit v n = (n < 11 \<and> bit (sendGsAllocReqMessage p v) (0 + n))"
      using bv[of n] by (auto simp: sendGsAllocReqMessage_def Let_def bit_simps)
  qed simp
  show "createUBfe (sendGsAllocReqMessage p v) 12 11 = p"
  proof (rule createUBfe_eqI)
    fix n :: nat assume "n < 32"
    then show "bit p n = (n < 11 \<and> bit (sendGsAllocReqMessage p v) (12 + n))"
      using bp[of n] bv[of "12 + n"] by (auto simp: sendGsAllocReqMessage_def Let_def bit_simps)
  qed simp
qed

lemma word_le_256_less: "unat (v :: i32) \<le> 256 \<Longrightarrow> v < 2 ^ 11"
  by (simp add: word_less_nat_alt)

lemma decoded_counts:
  "vertCountInSubgroup (nggInputsOf cfg inp t) = createUBfe (mergedGroupInfo inp) 12 9"
  "primCountInSubgroup (nggInputsOf cfg inp t) = createUBfe (mergedGroupInfo inp) 22 9"
  by (simp_all add: nggInputsOf_def initWaveThreadInfo_def Let_def)

lemma threadStateCulling_counts:
  fixes fp :: "('f, 'h) fpu" and regs :: CullRegs and lds0 :: "'f Lds"
  assumes wf: "wellFormedDispatch cfg inp"
  defines "D \<equiv> length (filter (\<lambda>t. drawFlagOf (nggInputsOf cfg inp t)
                                        (ldsAfterCulling fp cfg regs inp lds0)) (threadsOf cfg inp))"
  defines "ts \<equiv> threadStateCulling fp cfg regs inp (ldsAfterWriteCullData fp cfg inp lds0)
                   (ldsAfterCulling fp cfg regs inp lds0)
                   (ldsAfterAccumVertCount cfg inp (ldsAfterCulling fp cfg regs inp lds0))"
  shows "fullyCulled (ts t) \<longleftrightarrow> D = 0"
    and "vertCountFinal (ts t)
           = (if D = 0 then dummyExportCount cfg
              else if compactVertex (nggControl cfg) then of_nat D
              else createUBfe (mergedGroupInfo inp) 12 9)"
    and "primCountFinal (ts t)
           = (if D = 0 then dummyExportCount cfg else createUBfe (mergedGroupInfo inp) 22 9)"
proof -
  have zero: "ldsVertexCounts (ldsAfterCulling fp cfg regs inp lds0) (waveCountInSubgroup cfg) = 0"
    by (rule counts_zero_afterCulling[OF wf order_refl])
  have total: "vertCountInSubgroupNew cfg inp
                 (ldsAfterAccumVertCount cfg inp (ldsAfterCulling fp cfg regs inp lds0)) w = of_nat D"
    for w unfolding D_def by (rule vertCountInSubgroupNew_eq[OF wf zero])
  have "D \<le> 256" unfolding D_def by (rule drawn_count_le[OF wf])
  then have "D < 2 ^ 32" by simp
  then have z: "(of_nat D :: i32) = 0 \<longleftrightarrow> D = 0"
    using of_nat_eq_iff_small[of D 0] by simp
  show "fullyCulled (ts t) \<longleftrightarrow> D = 0"
    by (simp add: ts_def threadStateCulling_def Let_def total z)
  show "vertCountFinal (ts t)
           = (if D = 0 then dummyExportCount cfg
              else if compactVertex (nggControl cfg) then of_nat D
              else createUBfe (mergedGroupInfo inp) 12 9)"
    by (simp add: ts_def threadStateCulling_def Let_def total z readfirstlane_def decoded_counts)
  show "primCountFinal (ts t)
           = (if D = 0 then dummyExportCount cfg else createUBfe (mergedGroupInfo inp) 22 9)"
    by (simp add: ts_def threadStateCulling_def Let_def total z readfirstlane_def decoded_counts)
qed

text \<open>
  C3. The subgroup sends one \<open>GS_ALLOC_REQ\<close> word, \<open>vertCount | (primCount << 12)\<close> of the
  final counts: the decoded counts on the runtime-passthrough path; on the culling path
  the dummy export count for both when no vertex is drawn, else the decoded primitive
  count and, with vertex compaction, the number of drawn vertices. Every thread holds
  these same final counts, bits 10:0 and 22:12 of the word read them back, and neither
  exceeds 256, provided the decoded counts of the subgroup do not (the hardware launches
  at most 256 threads per subgroup).
\<close>

theorem count_report_word:
  fixes fp :: "('f, 'h) fpu" and regs :: CullRegs and lds0 :: "'f Lds"
  assumes wf: "wellFormedDispatch cfg inp"
    and vmax: "unat (createUBfe (mergedGroupInfo inp) 12 9) \<le> 256"
    and pmax: "unat (createUBfe (mergedGroupInfo inp) 22 9) \<le> 256"
  shows "(let res = buildPrimShader fp cfg regs inp lds0;
              D = length (filter (\<lambda>t. drawFlagFinal (resThread res t)) (threadsOf cfg inp));
              vert = (if runtimePassthrough cfg inp then createUBfe (mergedGroupInfo inp) 12 9
                      else if D = 0 then dummyExportCount cfg
                      else if compactVertex (nggControl cfg) then of_nat D
                      else createUBfe (mergedGroupInfo inp) 12 9);
              prim = (if runtimePassthrough cfg inp then createUBfe (mergedGroupInfo inp) 22 9
                      else if D = 0 then dummyExportCount cfg
                      else createUBfe (mergedGroupInfo inp) 22 9)
          in (\<forall>t. vertCountFinal (resThread res t) = vert \<and> primCountFinal (resThread res t) = prim)
             \<and> resGsAllocReq res = [vert OR push_bit 12 prim]
             \<and> createUBfe (vert OR push_bit 12 prim) 0 11 = vert
             \<and> createUBfe (vert OR push_bit 12 prim) 12 11 = prim
             \<and> unat vert \<le> 256 \<and> unat prim \<le> 256)"
proof -
  let ?res = "buildPrimShader fp cfg regs inp lds0"
  let ?D = "length (filter (\<lambda>t. drawFlagFinal (resThread ?res t)) (threadsOf cfg inp))"
  let ?vert = "if runtimePassthrough cfg inp then createUBfe (mergedGroupInfo inp) 12 9
               else if ?D = 0 then dummyExportCount cfg
               else if compactVertex (nggControl cfg) then of_nat ?D
               else createUBfe (mergedGroupInfo inp) 12 9"
  let ?prim = "if runtimePassthrough cfg inp then createUBfe (mergedGroupInfo inp) 22 9
               else if ?D = 0 then dummyExportCount cfg
               else createUBfe (mergedGroupInfo inp) 22 9"
  have counts: "vertCountFinal (resThread ?res t) = ?vert \<and> primCountFinal (resThread ?res t) = ?prim"
    for t
  proof (cases "runtimePassthrough cfg inp")
    case True
    then show ?thesis
      by (simp add: buildPrimShader_def Let_def threadStatePassthrough_def decoded_counts)
  next
    case False
    have dd: "drawFlagFinal (resThread ?res s)
                = drawFlagOf (nggInputsOf cfg inp s) (ldsAfterCulling fp cfg regs inp lds0)" for s
      by (rule drawFlagFinal_culling[OF False])
    show ?thesis
      unfolding dd unfolding buildPrimShader_culling(2)[OF False]
      using False by (simp add: threadStateCulling_counts[OF wf])
  qed
  have D: "?D \<le> 256" by (rule drawn_count_le[OF wf])
  then have uD: "unat (of_nat ?D :: i32) = ?D" by (intro unat_of_nat_small) simp
  have dummy: "unat (dummyExportCount cfg) \<le> 256" by (simp add: dummyExportCount_def)
  have vb: "unat ?vert \<le> 256" using vmax D dummy by (simp add: uD)
  have pb: "unat ?prim \<le> 256" using pmax dummy by simp
  have msg: "resGsAllocReq ?res = [?vert OR push_bit 12 ?prim]"
  proof -
    have "resGsAllocReq ?res = gsAllocReqMessages cfg inp (resThread ?res)"
      by (simp add: buildPrimShader_def Let_def)
    then show ?thesis
      by (simp only: gsAllocReqMessages_eq[OF wf] counts sendGsAllocReqMessage_def Let_def
            or.commute[of "push_bit 12 ?prim"])
  qed
  have f: "createUBfe (?vert OR push_bit 12 ?prim) 0 11 = ?vert"
          "createUBfe (?vert OR push_bit 12 ?prim) 12 11 = ?prim"
    using message_fields[OF word_le_256_less[OF vb] word_le_256_less[OF pb]]
    by (simp_all only: sendGsAllocReqMessage_def Let_def or.commute[of "push_bit 12 ?prim"])
  show ?thesis
    unfolding Let_def by (intro conjI allI) (rule counts[THEN conjunct1] counts[THEN conjunct2] msg f vb pb)+
qed

theorem count_report_word_witness:
  "wellFormedDispatch exampleConfig (exampleSubgroup 16 1)
   \<and> unat (createUBfe (mergedGroupInfo (exampleSubgroup 16 1)) 12 9) \<le> 256
   \<and> unat (createUBfe (mergedGroupInfo (exampleSubgroup 16 1)) 22 9) \<le> 256
   \<and> resGsAllocReq (buildPrimShader ratFpu exampleConfig exampleRegs (exampleSubgroup 16 1)
                       exampleLds) = [0x1003]"
proof -
  let ?inp = "exampleSubgroup 16 1"
  let ?res = "buildPrimShader ratFpu exampleConfig exampleRegs ?inp exampleLds"
  have wf: "wellFormedDispatch exampleConfig ?inp" by code_simp
  have vmax: "unat (createUBfe (mergedGroupInfo ?inp) 12 9) \<le> 256" by code_simp
  have pmax: "unat (createUBfe (mergedGroupInfo ?inp) 22 9) \<le> 256" by code_simp
  have culling: "\<not> runtimePassthrough exampleConfig ?inp" by code_simp
  have compact: "compactVertex (nggControl exampleConfig)" by code_simp
  have prim: "createUBfe (mergedGroupInfo ?inp) 22 9 = 1" by code_simp
  have dfl: "drawFlagFinal (resThread ?res t)
               = drawFlagOf (nggInputsOf exampleConfig ?inp t)
                   (ldsAfterCulling ratFpu exampleConfig exampleRegs ?inp exampleLds)" for t
    by (rule drawFlagFinal_culling[OF culling])
  have D: "length (filter (\<lambda>t. drawFlagFinal (resThread ?res t)) (threadsOf exampleConfig ?inp)) = 3"
    unfolding dfl example_drawn_threads by simp
  have v: "(3 :: i32) OR push_bit 12 1 = 0x1003" by code_simp
  from count_report_word[OF wf vmax pmax, of ratFpu exampleRegs exampleLds, unfolded Let_def D]
  have "resGsAllocReq ?res
          = [(if runtimePassthrough exampleConfig ?inp then createUBfe (mergedGroupInfo ?inp) 12 9
              else if (3::nat) = 0 then dummyExportCount exampleConfig
              else if compactVertex (nggControl exampleConfig) then of_nat 3
              else createUBfe (mergedGroupInfo ?inp) 12 9)
             OR push_bit 12
                  (if runtimePassthrough exampleConfig ?inp then createUBfe (mergedGroupInfo ?inp) 22 9
                   else if (3::nat) = 0 then dummyExportCount exampleConfig
                   else createUBfe (mergedGroupInfo ?inp) 22 9)]"
    by blast
  then have "resGsAllocReq ?res = [0x1003]"
    using culling compact prim v by simp
  then show ?thesis using wf vmax pmax by blast
qed

section \<open>Properties: a fully culled subgroup\<close>

lemma thread0:
  assumes wf: "wellFormedDispatch cfg inp" and t: "t \<in> set (threadsOf cfg inp)"
  shows "threadIdInSubgroup (nggInputsOf cfg inp t) = 0 \<longleftrightarrow> t = (0, 0)"
proof -
  obtain w l where t': "t = (w, l)" by (cases t)
  have b: "w < numWaves inp" "l < waveSize cfg" using t by (simp_all add: t' in_threadsOf)
  have "threadIdInSubgroup (nggInputsOf cfg inp t) = 0
          \<longleftrightarrow> unat (threadIdInSubgroup (nggInputsOf cfg inp t)) = 0"
    by (simp add: unat_eq_0)
  also have "\<dots> \<longleftrightarrow> w * waveSize cfg + l = 0"
    unfolding t' by (simp only: unat_threadIdInSubgroup[OF wf b])
  also have "\<dots> \<longleftrightarrow> t = (0, 0)" using wf_waveSize[OF wf] by (auto simp: t')
  finally show ?thesis .
qed

lemma threadExports_dummy:
  assumes "waNggCullingNoEmptySubgroups cfg" "fullyCulled ts"
  shows "threadExports cfg ni ts lds
           = (if threadIdInSubgroup ni = 0
              then \<lparr> exp_tgt = EXP_TARGET_PRIM, exp_en = 1, exp_src0 = Some 0, exp_done = True \<rparr>
                   # map (\<lambda>i. \<lparr> exp_tgt = EXP_TARGET_POS i, exp_en = 0, exp_src0 = None,
                                  exp_done = (i = dummyPosExpCount False cfg - 1) \<rparr>)
                       [0..<dummyPosExpCount False cfg]
              else [], False)"
  using assms
  by (simp add: threadExports_def dummyExportCount_def earlyExitWithDummyExport_def Let_def)

lemma threadExports_empty:
  assumes "\<not> waNggCullingNoEmptySubgroups cfg" "primCountFinal ts = 0" "vertCountFinal ts = 0"
  shows "threadExports cfg ni ts lds = ([], False)"
  using assms by (simp add: threadExports_def Let_def)

lemma dummyPosExpCount_pos: "0 < dummyPosExpCount hasGs cfg"
  by (simp add: dummyPosExpCount_def Let_def)

lemma fully_culled_state:
  fixes fp :: "('f, 'h) fpu" and regs :: CullRegs and lds0 :: "'f Lds"
  assumes wf: "wellFormedDispatch cfg inp"
    and culling: "\<not> runtimePassthrough cfg inp"
    and none: "length (filter (\<lambda>t. drawFlagFinal (resThread (buildPrimShader fp cfg regs inp lds0) t))
                         (threadsOf cfg inp)) = 0"
  shows "fullyCulled (resThread (buildPrimShader fp cfg regs inp lds0) t)"
    and "vertCountFinal (resThread (buildPrimShader fp cfg regs inp lds0) t) = dummyExportCount cfg"
    and "primCountFinal (resThread (buildPrimShader fp cfg regs inp lds0) t) = dummyExportCount cfg"
proof -
  let ?res = "buildPrimShader fp cfg regs inp lds0"
  have dd: "drawFlagFinal (resThread ?res s)
              = drawFlagOf (nggInputsOf cfg inp s) (ldsAfterCulling fp cfg regs inp lds0)" for s
    by (rule drawFlagFinal_culling[OF culling])
  have D: "length (filter (\<lambda>t. drawFlagOf (nggInputsOf cfg inp t) (ldsAfterCulling fp cfg regs inp lds0))
                     (threadsOf cfg inp)) = 0"
    using none unfolding dd .
  note rt = buildPrimShader_culling(2)[OF culling, of fp regs lds0]
  show "fullyCulled (resThread ?res t)"
    unfolding rt using threadStateCulling_counts(1)[OF wf, of fp regs lds0 t] D by simp
  show "vertCountFinal (resThread ?res t) = dummyExportCount cfg"
    unfolding rt using threadStateCulling_counts(2)[OF wf, of fp regs lds0 t] D by simp
  show "primCountFinal (resThread ?res t) = dummyExportCount cfg"
    unfolding rt using threadStateCulling_counts(3)[OF wf, of fp regs lds0 t] D by simp
qed

lemma fully_culled_thread0:
  fixes fp :: "('f, 'h) fpu" and regs :: CullRegs and lds0 :: "'f Lds"
  assumes wf: "wellFormedDispatch cfg inp"
    and culling: "\<not> runtimePassthrough cfg inp"
    and none: "length (filter (\<lambda>t. drawFlagFinal (resThread (buildPrimShader fp cfg regs inp lds0) t))
                         (threadsOf cfg inp)) = 0"
    and wa: "waNggCullingNoEmptySubgroups cfg"
  shows "resExports (buildPrimShader fp cfg regs inp lds0) (0, 0)
           = (\<lparr> exp_tgt = EXP_TARGET_PRIM, exp_en = 1, exp_src0 = Some 0, exp_done = True \<rparr>
              # map (\<lambda>i. \<lparr> exp_tgt = EXP_TARGET_POS i, exp_en = 0, exp_src0 = None,
                             exp_done = (i = dummyPosExpCount False cfg - 1) \<rparr>)
                  [0..<dummyPosExpCount False cfg], False)"
proof -
  have mem0: "(0, 0) \<in> set (threadsOf cfg inp)"
    using wf_numWaves[OF wf] wf_waveSize[OF wf] by (auto simp: in_threadsOf)
  show ?thesis
    unfolding buildPrimShader_culling(4)[OF culling]
      threadExports_dummy[OF wa fully_culled_state(1)[OF wf culling none]]
    using thread0[OF wf mem0] by simp
qed

text \<open>
  C5. On the culling path, when no vertex of the subgroup is drawn, every thread finds the
  subgroup fully culled. With the workaround \<open>waNggCullingNoEmptySubgroups\<close> the final
  vertex and primitive counts are both 1 and so reported; the thread with id 0 exports
  one primitive, of connectivity word 0 (vertex 0 three times, the null-primitive bit
  clear), followed by the dummy position exports (no channel enabled, \<open>done\<close> on the
  last), and no other thread exports anything; no thread runs the vertex export. Without
  the workaround both counts are 0, so reported, and no thread exports anything.
\<close>

theorem fully_culled_dummy_export:
  fixes fp :: "('f, 'h) fpu" and regs :: CullRegs and lds0 :: "'f Lds"
  assumes wf: "wellFormedDispatch cfg inp"
    and culling: "\<not> runtimePassthrough cfg inp"
    and none: "length (filter (\<lambda>t. drawFlagFinal (resThread (buildPrimShader fp cfg regs inp lds0) t))
                         (threadsOf cfg inp)) = 0"
  shows "(let res = buildPrimShader fp cfg regs inp lds0;
              n = dummyPosExpCount False cfg
          in (\<forall>t. fullyCulled (resThread res t))
             \<and> (waNggCullingNoEmptySubgroups cfg \<longrightarrow>
                   (\<forall>t. vertCountFinal (resThread res t) = 1 \<and> primCountFinal (resThread res t) = 1)
                   \<and> resGsAllocReq res = [sendGsAllocReqMessage 1 1]
                   \<and> resExports res (0, 0)
                       = (\<lparr> exp_tgt = EXP_TARGET_PRIM, exp_en = 1, exp_src0 = Some 0,
                             exp_done = True \<rparr>
                          # map (\<lambda>i. \<lparr> exp_tgt = EXP_TARGET_POS i, exp_en = 0, exp_src0 = None,
                                         exp_done = (i = n - 1) \<rparr>) [0..<n], False)
                   \<and> 0 < n
                   \<and> (\<forall>t \<in> set (threadsOf cfg inp). t \<noteq> (0, 0) \<longrightarrow> resExports res t = ([], False)))
             \<and> (\<not> waNggCullingNoEmptySubgroups cfg \<longrightarrow>
                   (\<forall>t. vertCountFinal (resThread res t) = 0 \<and> primCountFinal (resThread res t) = 0)
                   \<and> resGsAllocReq res = [sendGsAllocReqMessage 0 0]
                   \<and> (\<forall>t \<in> set (threadsOf cfg inp). resExports res t = ([], False))))"
proof -
  let ?res = "buildPrimShader fp cfg regs inp lds0"
  note fc = fully_culled_state(1)[OF wf culling none]
  note vc = fully_culled_state(2)[OF wf culling none]
  note pc = fully_culled_state(3)[OF wf culling none]
  have msg: "resGsAllocReq ?res = [sendGsAllocReqMessage (dummyExportCount cfg) (dummyExportCount cfg)]"
    unfolding buildPrimShader_culling(3)[OF culling] gsAllocReqMessages_eq[OF wf] by (simp only: vc pc)
  have ex: "resExports ?res t = threadExports cfg (nggInputsOf cfg inp t) (resThread ?res t) (resLds ?res)"
    for t by (simp only: buildPrimShader_culling(4)[OF culling])
  have wa: "waNggCullingNoEmptySubgroups cfg \<Longrightarrow> dummyExportCount cfg = 1"
    and nwa: "\<not> waNggCullingNoEmptySubgroups cfg \<Longrightarrow> dummyExportCount cfg = 0"
    by (simp_all add: dummyExportCount_def)
  note e0 = fully_culled_thread0[OF wf culling none]
  have e1: "resExports ?res t = ([], False)"
    if "waNggCullingNoEmptySubgroups cfg" "t \<in> set (threadsOf cfg inp)" "t \<noteq> (0, 0)" for t
    unfolding ex threadExports_dummy[OF that(1) fc]
    using thread0[OF wf that(2)] that(3) by simp
  have e2: "resExports ?res t = ([], False)" if "\<not> waNggCullingNoEmptySubgroups cfg" for t
    unfolding ex by (rule threadExports_empty[OF that]) (simp_all only: vc pc nwa[OF that])
  show ?thesis
    unfolding Let_def
    using fc vc pc msg e0 e1 e2 wa nwa dummyPosExpCount_pos[of False cfg]
    by (intro conjI impI allI ballI) simp_all
qed

lemma example_empty_subgroup:
  "filter (\<lambda>t. drawFlagOf (nggInputsOf exampleConfig (exampleSubgroup 16 0) t)
                (ldsAfterCulling ratFpu exampleConfig exampleRegs (exampleSubgroup 16 0) exampleLds))
     (threadsOf exampleConfig (exampleSubgroup 16 0))
   = []"
  by code_simp

lemma example_empty_hyps:
  "wellFormedDispatch exampleConfig (exampleSubgroup 16 0)"
  "\<not> runtimePassthrough exampleConfig (exampleSubgroup 16 0)"
  "length (filter (\<lambda>t. drawFlagFinal (resThread (buildPrimShader ratFpu exampleConfig exampleRegs
                                                     (exampleSubgroup 16 0) exampleLds) t))
             (threadsOf exampleConfig (exampleSubgroup 16 0))) = 0"
  "waNggCullingNoEmptySubgroups exampleConfig"
  "dummyPosExpCount False exampleConfig = 1"
proof -
  show wf: "wellFormedDispatch exampleConfig (exampleSubgroup 16 0)" by code_simp
  show culling: "\<not> runtimePassthrough exampleConfig (exampleSubgroup 16 0)" by code_simp
  show "waNggCullingNoEmptySubgroups exampleConfig" by code_simp
  show "dummyPosExpCount False exampleConfig = 1" by code_simp
  have dd: "drawFlagFinal (resThread (buildPrimShader ratFpu exampleConfig exampleRegs
                                        (exampleSubgroup 16 0) exampleLds) t)
              = drawFlagOf (nggInputsOf exampleConfig (exampleSubgroup 16 0) t)
                  (ldsAfterCulling ratFpu exampleConfig exampleRegs (exampleSubgroup 16 0) exampleLds)"
    for t by (rule drawFlagFinal_culling[OF culling])
  show "length (filter (\<lambda>t. drawFlagFinal (resThread (buildPrimShader ratFpu exampleConfig exampleRegs
                                                     (exampleSubgroup 16 0) exampleLds) t))
             (threadsOf exampleConfig (exampleSubgroup 16 0))) = 0"
    unfolding dd example_empty_subgroup by simp
qed

theorem dummy_export_not_null_counterexample:
  "waNggCullingNoEmptySubgroups exampleConfig
   \<and> length (filter (\<lambda>t. drawFlagFinal (resThread (buildPrimShader ratFpu exampleConfig exampleRegs
                                                       (exampleSubgroup 16 0) exampleLds) t))
               (threadsOf exampleConfig (exampleSubgroup 16 0))) = 0
   \<and> exp_tgt (hd (fst (resExports (buildPrimShader ratFpu exampleConfig exampleRegs
                                     (exampleSubgroup 16 0) exampleLds) (0, 0)))) = EXP_TARGET_PRIM
   \<and> exp_src0 (hd (fst (resExports (buildPrimShader ratFpu exampleConfig exampleRegs
                                      (exampleSubgroup 16 0) exampleLds) (0, 0)))) = Some 0
   \<and> exp_src0 (hd (fst (resExports (buildPrimShader ratFpu exampleConfig exampleRegs
                                      (exampleSubgroup 16 0) exampleLds) (0, 0)))) \<noteq> Some NullPrim
   \<and> primConnectivityData 0 0 0 False = 0
   \<and> \<not> bit (0 :: i32) 31"
proof -
  have n: "(0 :: i32) \<noteq> NullPrim" by code_simp
  have p: "primConnectivityData 0 0 0 False = 0" by code_simp
  show ?thesis
    unfolding fully_culled_thread0[OF example_empty_hyps(1-4)]
    using example_empty_hyps(3,4) n p by simp
qed

theorem fully_culled_dummy_export_witness:
  "wellFormedDispatch exampleConfig (exampleSubgroup 16 0)
   \<and> \<not> runtimePassthrough exampleConfig (exampleSubgroup 16 0)
   \<and> resGsAllocReq (buildPrimShader ratFpu exampleConfig exampleRegs (exampleSubgroup 16 0) exampleLds)
       = [0x1001]
   \<and> resExports (buildPrimShader ratFpu exampleConfig exampleRegs (exampleSubgroup 16 0) exampleLds)
        (0, 0)
       = ([\<lparr> exp_tgt = EXP_TARGET_PRIM, exp_en = 1, exp_src0 = Some 0, exp_done = True \<rparr>,
           \<lparr> exp_tgt = EXP_TARGET_POS 0, exp_en = 0, exp_src0 = None, exp_done = True \<rparr>], False)"
proof -
  have m: "sendGsAllocReqMessage 1 1 = 0x1001" by code_simp
  from fully_culled_dummy_export[OF example_empty_hyps(1-3), unfolded Let_def]
  have "resGsAllocReq (buildPrimShader ratFpu exampleConfig exampleRegs (exampleSubgroup 16 0) exampleLds)
          = [sendGsAllocReqMessage 1 1]
        \<and> resExports (buildPrimShader ratFpu exampleConfig exampleRegs (exampleSubgroup 16 0) exampleLds)
            (0, 0)
          = (\<lparr> exp_tgt = EXP_TARGET_PRIM, exp_en = 1, exp_src0 = Some 0, exp_done = True \<rparr>
             # map (\<lambda>i. \<lparr> exp_tgt = EXP_TARGET_POS i, exp_en = 0, exp_src0 = None,
                            exp_done = (i = dummyPosExpCount False exampleConfig - 1) \<rparr>)
                 [0..<dummyPosExpCount False exampleConfig], False)"
    using example_empty_hyps(4) by blast
  then show ?thesis
    using example_empty_hyps(1,2) by (simp add: m example_empty_hyps(5))
qed

section \<open>Properties: software transform feedback\<close>

lemma umin_eq_min: "umin a b = min a b"
  by (auto simp: umin_def min_def)

lemma Min_min_Cons:
  fixes a :: "'a::linorder"
  shows "Min (set (min a p # xs)) = Min (set (a # p # xs))"
proof (cases "xs = []")
  case True
  then show ?thesis by (simp add: min.commute)
next
  case False
  then have "set xs \<noteq> {}" by simp
  then show ?thesis by (simp add: min.assoc)
qed

lemma calcNumPrimsToWrite_Min:
  assumes "\<forall>i \<in> set bs. bufferActive xc i \<longrightarrow> dwordsPerPrim xc i \<noteq> 0"
  shows "calcNumPrimsToWrite xc bufs mem bs acc
           = Some (Min (set (acc # map (\<lambda>i. dwordsRemainingOf bufs mem i div dwordsPerPrim xc i)
                                    (filter (bufferActive xc) bs))))"
  using assms
proof (induction bs arbitrary: acc)
  case Nil
  then show ?case by simp
next
  case (Cons i bs)
  show ?case
  proof (cases "bufferActive xc i")
    case False
    then show ?thesis using Cons by simp
  next
    case True
    then have nz: "dwordsPerPrim xc i \<noteq> 0" using Cons.prems by simp
    let ?p = "dwordsRemainingOf bufs mem i div dwordsPerPrim xc i"
    let ?xs = "map (\<lambda>i. dwordsRemainingOf bufs mem i div dwordsPerPrim xc i)
                 (filter (bufferActive xc) bs)"
    have "calcNumPrimsToWrite xc bufs mem (i # bs) acc
            = calcNumPrimsToWrite xc bufs mem bs (min acc ?p)"
      using True nz by (simp add: primsCanWrite_def umin_eq_min)
    also have "\<dots> = Some (Min (set (min acc ?p # ?xs)))"
      using Cons.prems by (intro Cons.IH) simp
    also have "Min (set (min acc ?p # ?xs)) = Min (set (acc # ?p # ?xs))"
      by (rule Min_min_Cons)
    finally show ?thesis using True by simp
  qed
qed

lemma dwordsRemaining_nonneg:
  "sint (dwordsRemainingOf bufs mem i)
     = max 0 (sint (drop_bit 2 (streamOutNumRecords bufs i)
                      - (streamOutBufOffsets bufs i + gdsDwordsWritten mem i)))"
  by (simp add: dwordsRemainingOf_def Let_def smax_def max_def)

lemma stats_incrementDwordsWritten:
  assumes "j \<notin> set bs"
  shows "ldsXfbStats (incrementDwordsWritten xc n bs mem) j = ldsXfbStats mem j"
  using assms by (induction bs arbitrary: mem) (simp_all add: Let_def)

lemma prims_incrementDwordsWritten:
  "gdsPrimsNeeded (incrementDwordsWritten xc n bs mem) = gdsPrimsNeeded mem"
  "gdsPrimsWritten (incrementDwordsWritten xc n bs mem) = gdsPrimsWritten mem"
  by (induction bs arbitrary: mem) (simp_all add: Let_def)

lemma gds_incrementDwordsWritten:
  assumes "distinct bs"
  shows "gdsDwordsWritten (incrementDwordsWritten xc n bs mem) i
           = (if i \<in> set bs \<and> bufferActive xc i
              then gdsDwordsWritten mem i + n * dwordsPerPrim xc i
              else gdsDwordsWritten mem i)"
  using assms by (induction bs arbitrary: mem) (auto simp: Let_def)

lemma runPrepareXfbExport_others:
  assumes "\<forall>ni \<in> set nis. threadIdInSubgroup ni \<noteq> 0"
  shows "runPrepareXfbExport xc bufs nis mem = Some mem"
  using assms by (induction nis arbitrary: mem) simp_all

lemma threadsOf_first:
  assumes wf: "wellFormedDispatch cfg inp"
  obtains rest where "threadsOf cfg inp = (0, 0) # rest" "(0, 0) \<notin> set rest"
    "set rest \<subseteq> set (threadsOf cfg inp)"
proof -
  have n: "0 < numWaves inp" using wf_numWaves[OF wf] by simp
  have S: "0 < waveSize cfg" using wf_waveSize[OF wf] by auto
  have "threadsOf cfg inp
          = (0, 0) # (map (Pair 0) [Suc 0..<waveSize cfg]
                      @ concat (map (\<lambda>w. map (Pair w) [0..<waveSize cfg]) [Suc 0..<numWaves inp]))"
    using n S by (simp add: threadsOf_def upt_conv_Cons)
  then obtain rest where r: "threadsOf cfg inp = (0, 0) # rest" by blast
  moreover have "(0, 0) \<notin> set rest" using distinct_threadsOf[of cfg inp] unfolding r by simp
  moreover have "set rest \<subseteq> set (threadsOf cfg inp)" unfolding r by auto
  ultimately show ?thesis by (rule that)
qed

lemma runPrepareXfbExport_eq:
  assumes wf: "wellFormedDispatch cfg inp"
  shows "runPrepareXfbExport xc bufs (map (nggInputsOf cfg inp) (threadsOf cfg inp)) mem
           = prepareXfbExport xc bufs (createUBfe (mergedGroupInfo inp) 22 9) mem"
proof -
  obtain rest where r: "threadsOf cfg inp = (0, 0) # rest" "(0, 0) \<notin> set rest"
    "set rest \<subseteq> set (threadsOf cfg inp)"
    by (rule threadsOf_first[OF wf])
  have mem0: "(0, 0) \<in> set (threadsOf cfg inp)" unfolding r(1) by simp
  have t0: "threadIdInSubgroup (nggInputsOf cfg inp (0, 0)) = 0"
    using thread0[OF wf mem0] by simp
  have others: "\<forall>ni \<in> set (map (nggInputsOf cfg inp) rest). threadIdInSubgroup ni \<noteq> 0"
  proof
    fix ni assume "ni \<in> set (map (nggInputsOf cfg inp) rest)"
    then obtain t where t: "t \<in> set rest" "ni = nggInputsOf cfg inp t" by auto
    have "t \<in> set (threadsOf cfg inp)" "t \<noteq> (0, 0)" using t(1) r(2,3) by auto
    then show "threadIdInSubgroup ni \<noteq> 0" using thread0[OF wf, of t] t(2) by simp
  qed
  show ?thesis
    unfolding r(1)
    by (simp add: t0 decoded_counts runPrepareXfbExport_others[OF others] split: option.split)
qed

lemma xfbExportValid_eq:
  assumes wf: "wellFormedDispatch cfg inp"
  shows "xfbExportValid cfg inp mem t
           = Some (threadIdInSubgroup (nggInputsOf cfg inp t)
                     < ldsXfbStats mem MaxTransformFeedbackBuffers)"
proof -
  have S: "4 < waveSize cfg" using wf_waveSize[OF wf] by auto
  have lane: "threadIdInWave (nggInputsOf cfg inp (w, 4)) = 4" for w
    unfolding nggInputsOf_def using threadIdInWave_eq[OF wf_waveSize[OF wf] S] by simp
  show ?thesis
    by (simp add: xfbExportValid_def readlane_def xfbStatInfoOf_def Let_def
          MaxTransformFeedbackBuffers_def lane)
qed

lemma prepareXfbExport_eq:
  fixes xc :: XfbConfig and bufs :: XfbBuffers and mem :: XfbMem and primCount :: i32
  assumes nz: "\<forall>i < MaxTransformFeedbackBuffers. bufferActive xc i \<longrightarrow> dwordsPerPrim xc i \<noteq> 0"
  defines "n \<equiv> Min (set (primCount # map (\<lambda>i. dwordsRemainingOf bufs mem i div dwordsPerPrim xc i)
                            (filter (bufferActive xc) [0..<MaxTransformFeedbackBuffers])))"
  shows "\<exists>mem'. prepareXfbExport xc bufs primCount mem = Some mem'
           \<and> ldsXfbStats mem' MaxTransformFeedbackBuffers = n
           \<and> gdsPrimsWritten mem' = gdsPrimsWritten mem + n
           \<and> gdsPrimsNeeded mem' = gdsPrimsNeeded mem + primCount
           \<and> (\<forall>i < MaxTransformFeedbackBuffers.
                 gdsDwordsWritten mem' i
                   = (if bufferActive xc i then gdsDwordsWritten mem i + n * dwordsPerPrim xc i
                      else gdsDwordsWritten mem i))"
proof -
  have nz': "\<forall>i \<in> set [0..<MaxTransformFeedbackBuffers]. bufferActive xc i \<longrightarrow> dwordsPerPrim xc i \<noteq> 0"
    using nz by simp
  have calc: "calcNumPrimsToWrite xc bufs mem [0..<MaxTransformFeedbackBuffers] primCount = Some n"
    unfolding n_def by (rule calcNumPrimsToWrite_Min[OF nz'])
  show ?thesis
    unfolding prepareXfbExport_def calc
    by (simp add: Let_def stats_incrementDwordsWritten prims_incrementDwordsWritten
          gds_incrementDwordsWritten)
qed

text \<open>
  C8. Software transform feedback clamps the primitives written to what the buffers can
  still take. Provided every active buffer has a non-zero number of dwords per
  primitive (the division is undefined otherwise), \<open>processSwXfb\<close> returns, and the block
  \<open>.prepareXfbExport\<close> runs once, in the thread with id 0. The number of primitives to
  write that it stores in the statistics is the minimum of the subgroup's primitive count
  and, over the active buffers, of the remaining dwords divided (unsigned) by the dwords
  per primitive, where the remaining dwords are \<open>max 0\<close> (signed) of the buffer size in
  dwords minus offset plus dwords written. The GDS registers grow accordingly, and after
  the barrier a thread exports exactly when its id in the subgroup is below that number.
\<close>

theorem xfb_numPrimsToWrite_clamp:
  assumes wf: "wellFormedDispatch cfg inp"
    and nz: "\<forall>i < MaxTransformFeedbackBuffers. bufferActive xc i \<longrightarrow> dwordsPerPrim xc i \<noteq> 0"
  shows "(let primCount = createUBfe (mergedGroupInfo inp) 22 9;
              numPrimsToWrite =
                Min (set (primCount # map (\<lambda>i. dwordsRemainingOf bufs mem i div dwordsPerPrim xc i)
                                        (filter (bufferActive xc) [0..<MaxTransformFeedbackBuffers])))
          in (\<exists>mem' valid.
                processSwXfb cfg xc bufs inp mem = Some (mem', valid)
                \<and> prepareXfbExport xc bufs primCount mem = Some mem'
                \<and> ldsXfbStats mem' MaxTransformFeedbackBuffers = numPrimsToWrite
                \<and> gdsPrimsWritten mem' = gdsPrimsWritten mem + numPrimsToWrite
                \<and> gdsPrimsNeeded mem' = gdsPrimsNeeded mem + primCount
                \<and> (\<forall>i < MaxTransformFeedbackBuffers.
                      gdsDwordsWritten mem' i
                        = (if bufferActive xc i
                           then gdsDwordsWritten mem i + numPrimsToWrite * dwordsPerPrim xc i
                           else gdsDwordsWritten mem i))
                \<and> (\<forall>t. valid t = Some (threadIdInSubgroup (nggInputsOf cfg inp t) < numPrimsToWrite)))
             \<and> numPrimsToWrite \<le> primCount
             \<and> (\<forall>i < MaxTransformFeedbackBuffers. bufferActive xc i \<longrightarrow>
                   numPrimsToWrite \<le> dwordsRemainingOf bufs mem i div dwordsPerPrim xc i
                   \<and> sint (dwordsRemainingOf bufs mem i)
                       = max 0 (sint (drop_bit 2 (streamOutNumRecords bufs i)
                                        - (streamOutBufOffsets bufs i + gdsDwordsWritten mem i)))))"
proof -
  let ?P = "createUBfe (mergedGroupInfo inp) 22 9"
  let ?xs = "map (\<lambda>i. dwordsRemainingOf bufs mem i div dwordsPerPrim xc i)
               (filter (bufferActive xc) [0..<MaxTransformFeedbackBuffers])"
  let ?N = "Min (set (?P # ?xs))"
  obtain mem' where m: "prepareXfbExport xc bufs ?P mem = Some mem'"
    "ldsXfbStats mem' MaxTransformFeedbackBuffers = ?N"
    "gdsPrimsWritten mem' = gdsPrimsWritten mem + ?N"
    "gdsPrimsNeeded mem' = gdsPrimsNeeded mem + ?P"
    "\<forall>i < MaxTransformFeedbackBuffers.
       gdsDwordsWritten mem' i
         = (if bufferActive xc i then gdsDwordsWritten mem i + ?N * dwordsPerPrim xc i
            else gdsDwordsWritten mem i)"
    using prepareXfbExport_eq[OF nz, where primCount="?P" and bufs=bufs and mem=mem] by blast
  have p: "processSwXfb cfg xc bufs inp mem = Some (mem', xfbExportValid cfg inp mem')"
    by (simp add: processSwXfb_def runPrepareXfbExport_eq[OF wf] m(1))
  have v: "xfbExportValid cfg inp mem' t
             = Some (threadIdInSubgroup (nggInputsOf cfg inp t) < ?N)" for t
    by (simp only: xfbExportValid_eq[OF wf] m(2))
  have a: "\<exists>mem' valid.
             processSwXfb cfg xc bufs inp mem = Some (mem', valid)
             \<and> prepareXfbExport xc bufs ?P mem = Some mem'
             \<and> ldsXfbStats mem' MaxTransformFeedbackBuffers = ?N
             \<and> gdsPrimsWritten mem' = gdsPrimsWritten mem + ?N
             \<and> gdsPrimsNeeded mem' = gdsPrimsNeeded mem + ?P
             \<and> (\<forall>i < MaxTransformFeedbackBuffers.
                   gdsDwordsWritten mem' i
                     = (if bufferActive xc i then gdsDwordsWritten mem i + ?N * dwordsPerPrim xc i
                        else gdsDwordsWritten mem i))
             \<and> (\<forall>t. valid t = Some (threadIdInSubgroup (nggInputsOf cfg inp t) < ?N))"
    using p m v by blast
  have b: "?N \<le> ?P" by (rule Min_le) simp_all
  have c: "?N \<le> dwordsRemainingOf bufs mem i div dwordsPerPrim xc i"
    if "i < MaxTransformFeedbackBuffers" "bufferActive xc i" for i
    using that by (intro Min_le) simp_all
  show ?thesis
    unfolding Let_def using a b c dwordsRemaining_nonneg by blast
qed

theorem xfb_numPrimsToWrite_clamp_witness:
  "\<exists>mem' valid.
     processSwXfb exampleConfig exampleXfbConfig exampleXfbBuffers (exampleSubgroup 16 5)
       exampleXfbMem = Some (mem', valid)
     \<and> ldsXfbStats mem' MaxTransformFeedbackBuffers = 4
     \<and> gdsPrimsWritten mem' = 11
     \<and> gdsDwordsWritten mem' 0 = 90
     \<and> valid (0, 3) = Some True
     \<and> valid (0, 4) = Some False"
proof -
  let ?inp = "exampleSubgroup 16 5"
  have wf: "wellFormedDispatch exampleConfig ?inp" by code_simp
  have nz: "\<forall>i < MaxTransformFeedbackBuffers.
              bufferActive exampleXfbConfig i \<longrightarrow> dwordsPerPrim exampleXfbConfig i \<noteq> 0"
    by (simp add: bufferActive_def dwordsPerPrim_def exampleXfbConfig_def)
  have N: "Min (set (createUBfe (mergedGroupInfo ?inp) 22 9
                     # map (\<lambda>i. dwordsRemainingOf exampleXfbBuffers exampleXfbMem i
                                  div dwordsPerPrim exampleXfbConfig i)
                         (filter (bufferActive exampleXfbConfig) [0..<MaxTransformFeedbackBuffers])))
             = 4"
    by code_simp
  have act: "0 < MaxTransformFeedbackBuffers" "bufferActive exampleXfbConfig 0"
    "dwordsPerPrim exampleXfbConfig 0 = 12" "gdsDwordsWritten exampleXfbMem 0 = 42"
    "gdsPrimsWritten exampleXfbMem = 7"
    by code_simp+
  have t3: "threadIdInSubgroup (nggInputsOf exampleConfig ?inp (0, 3)) < 4" by code_simp
  have t4: "\<not> threadIdInSubgroup (nggInputsOf exampleConfig ?inp (0, 4)) < 4" by code_simp
  from xfb_numPrimsToWrite_clamp[OF wf nz, where bufs=exampleXfbBuffers and mem=exampleXfbMem,
      unfolded Let_def N]
  obtain mem' valid where r:
    "processSwXfb exampleConfig exampleXfbConfig exampleXfbBuffers ?inp exampleXfbMem = Some (mem', valid)"
    "ldsXfbStats mem' MaxTransformFeedbackBuffers = 4"
    "gdsPrimsWritten mem' = gdsPrimsWritten exampleXfbMem + 4"
    "\<forall>i < MaxTransformFeedbackBuffers.
       gdsDwordsWritten mem' i
         = (if bufferActive exampleXfbConfig i
            then gdsDwordsWritten exampleXfbMem i + 4 * dwordsPerPrim exampleXfbConfig i
            else gdsDwordsWritten exampleXfbMem i)"
    "\<forall>t. valid t = Some (threadIdInSubgroup (nggInputsOf exampleConfig ?inp t) < 4)"
    by blast
  have "gdsDwordsWritten mem' 0 = 90" using r(4) act by simp
  moreover have "gdsPrimsWritten mem' = 11" using r(3) act by simp
  moreover have "valid (0, 3) = Some True" "valid (0, 4) = Some False"
    using r(5) t3 t4 by simp_all
  ultimately show ?thesis using r(1,2) by blast
qed

end
